theory Spec2Isabelle
  imports Main "HOL-Library.Sublist"
begin

section \<open>Go string helpers used by the dialect adapter\<close>

text \<open>
  Go strings are byte sequences; they are modelled as \<^typ>\<open>string\<close> (a list of 8-bit
  characters).  The token \<open>?\<close> is a single byte that never occurs inside a multi-byte
  UTF-8 sequence, so the byte-level model agrees with the code on every input.
\<close>

text \<open>\<open>strings.Contains(s, substr)\<close>.\<close>

fun strings_Contains :: "string \<Rightarrow> string \<Rightarrow> bool" where
  "strings_Contains [] substr = (substr = [])"
| "strings_Contains (c # cs) substr = (prefix substr (c # cs) \<or> strings_Contains cs substr)"

text \<open>\<open>strings.Replace(s, old, new, 1)\<close>: only the first occurrence of \<open>old\<close> is replaced.\<close>

fun strings_Replace1 :: "string \<Rightarrow> string \<Rightarrow> string \<Rightarrow> string" where
  "strings_Replace1 [] old new = (if old = [] then new else [])"
| "strings_Replace1 (c # cs) old new =
     (if prefix old (c # cs) then new @ drop (length old) (c # cs)
      else c # strings_Replace1 cs old new)"

text \<open>The decimal rendering of \<open>%d\<close> for a non-negative integer.\<close>

fun decimal :: "nat \<Rightarrow> string" where
  "decimal n = (if n < 10 then [''0123456789'' ! n]
                else decimal (n div 10) @ [''0123456789'' ! (n mod 10)])"

declare decimal.simps [simp del]

text \<open>\<open>fmt.Sprintf("$%d", n)\<close>.\<close>

definition Sprintf_dollar :: "nat \<Rightarrow> string" where
  "Sprintf_dollar n = ''$'' @ decimal n"

lemma strings_Contains_qmark:
  "strings_Contains s ''?'' \<longleftrightarrow> CHR ''?'' \<in> set s"
  by (induction s) auto

lemma strings_Replace1_absent:
  "CHR ''?'' \<notin> set s \<Longrightarrow> strings_Replace1 s ''?'' new = s"
  by (induction s) auto

lemma strings_Replace1_first:
  "CHR ''?'' \<notin> set a \<Longrightarrow> strings_Replace1 (a @ CHR ''?'' # b) ''?'' new = a @ new @ b"
  by (induction a) auto

lemma digit_not_qmark: "d < 10 \<Longrightarrow> ''0123456789'' ! d \<noteq> CHR ''?''"
proof -
  assume "d < 10"
  then have "''0123456789'' ! d \<in> set ''0123456789''"
    by (intro nth_mem) simp
  then show ?thesis by auto
qed

lemma decimal_no_qmark: "CHR ''?'' \<notin> set (decimal n)"
proof (induction n rule: decimal.induct)
  case (1 n)
  show ?case
  proof (cases "n < 10")
    case True
    then show ?thesis
      using digit_not_qmark [of n] by (simp add: decimal.simps [of n])
  next
    case False
    have "n mod 10 < 10" by simp
    then have "''0123456789'' ! (n mod 10) \<noteq> CHR ''?''"
      by (rule digit_not_qmark)
    with False 1 show ?thesis
      by (simp add: decimal.simps [of n])
  qed
qed

lemma Sprintf_dollar_no_qmark: "CHR ''?'' \<notin> set (Sprintf_dollar n)"
  using decimal_no_qmark [of n] by (simp add: Sprintf_dollar_def)

lemma count_Replace1_less:
  assumes "CHR ''?'' \<in> set s" and "CHR ''?'' \<notin> set new"
  shows "count_list (strings_Replace1 s ''?'' new) (CHR ''?'') < count_list s (CHR ''?'')"
proof -
  from assms(1) obtain a b where s: "s = a @ CHR ''?'' # b" and a: "CHR ''?'' \<notin> set a"
    by (auto dest: split_list_first)
  from assms(2) have "count_list new (CHR ''?'') = 0"
    by (simp add: count_list_0_iff)
  then show ?thesis
    by (simp add: s strings_Replace1_first [OF a])
qed

section \<open>Dialect adapter\<close>

record SQLRepository =
  isPostgres :: bool

text \<open>
  The loop of \<open>p\<close>: while the query still contains the universal token, its first
  occurrence is replaced by \<open>$n\<close> and \<open>n\<close> is incremented.  The counter is a Go
  \<open>int\<close>; it is bounded by the length of the query, so it cannot wrap and is a
  \<^typ>\<open>nat\<close> here.
\<close>

function p_loop :: "string \<Rightarrow> nat \<Rightarrow> string" where
  "p_loop query n =
     (if strings_Contains query ''?''
      then p_loop (strings_Replace1 query ''?'' (Sprintf_dollar n)) (n + 1)
      else query)"
  by pat_completeness auto
termination
  by (relation "measure (\<lambda>(query, n). count_list query (CHR ''?''))")
     (auto simp: strings_Contains_qmark count_Replace1_less Sprintf_dollar_no_qmark)

declare p_loop.simps [simp del]

definition p :: "SQLRepository \<Rightarrow> string \<Rightarrow> string" where
  "p r query = (if \<not> isPostgres r then query else p_loop query 1)"

subsection \<open>The adapter as the specification words it\<close>

text \<open>
  One left-to-right pass: the occurrence of the token met when the ordinal is \<open>n\<close>
  becomes the marker \<open>$n\<close>, and the ordinal advances.
\<close>

fun number_placeholders :: "nat \<Rightarrow> string \<Rightarrow> string" where
  "number_placeholders n [] = []"
| "number_placeholders n (c # cs) =
     (if c = CHR ''?'' then Sprintf_dollar n @ number_placeholders (n + 1) cs
      else c # number_placeholders n cs)"

text \<open>
  A query with \<open>k\<close> tokens is \<open>k + 1\<close> token-free segments joined by the token;
  its translation is the same segments joined by the markers \<open>$n\<close>, \<open>$(n+1)\<close>, \dots
\<close>

fun join_tokens :: "string \<Rightarrow> string list \<Rightarrow> string" where
  "join_tokens s0 [] = s0"
| "join_tokens s0 (s # ss) = s0 @ ''?'' @ join_tokens s ss"

fun join_markers :: "nat \<Rightarrow> string \<Rightarrow> string list \<Rightarrow> string" where
  "join_markers n s0 [] = s0"
| "join_markers n s0 (s # ss) = s0 @ Sprintf_dollar n @ join_markers (n + 1) s ss"

definition token_free :: "string \<Rightarrow> bool" where
  "token_free s = (CHR ''?'' \<notin> set s)"

lemma number_placeholders_token_free:
  "CHR ''?'' \<notin> set a \<Longrightarrow> number_placeholders n (a @ b) = a @ number_placeholders n b"
  by (induction a) auto

lemma number_placeholders_id:
  "CHR ''?'' \<notin> set a \<Longrightarrow> number_placeholders n a = a"
  using number_placeholders_token_free [of a n "[]"] by simp

lemma p_loop_number_placeholders: "p_loop query n = number_placeholders n query"
proof (induction query n rule: p_loop.induct)
  case (1 query n)
  show ?case
  proof (cases "CHR ''?'' \<in> set query")
    case False
    then show ?thesis
      by (simp add: p_loop.simps [of query n] strings_Contains_qmark number_placeholders_id)
  next
    case True
    then obtain a b where q: "query = a @ CHR ''?'' # b" and a: "CHR ''?'' \<notin> set a"
      by (auto dest: split_list_first)
    have r: "strings_Replace1 query ''?'' (Sprintf_dollar n) = a @ Sprintf_dollar n @ b"
      by (simp add: q strings_Replace1_first [OF a])
    have "p_loop query n = p_loop (a @ Sprintf_dollar n @ b) (n + 1)"
      using True r by (simp add: p_loop.simps [of query n] strings_Contains_qmark)
    also have "\<dots> = number_placeholders (n + 1) (a @ Sprintf_dollar n @ b)"
      using 1 True r by (simp add: strings_Contains_qmark)
    also have "\<dots> = a @ Sprintf_dollar n @ number_placeholders (n + 1) b"
      using a Sprintf_dollar_no_qmark [of n]
      by (simp add: number_placeholders_token_free)
    also have "\<dots> = number_placeholders n query"
      using a by (simp add: q number_placeholders_token_free)
    finally show ?thesis .
  qed
qed

lemma number_placeholders_join:
  "list_all token_free (s0 # ss) \<Longrightarrow>
   number_placeholders n (join_tokens s0 ss) = join_markers n s0 ss"
proof (induction ss arbitrary: s0 n)
  case Nil
  then show ?case by (simp add: token_free_def number_placeholders_id)
next
  case (Cons s ss)
  then have "token_free s0" and rest: "list_all token_free (s # ss)"
    by simp_all
  then have s0: "CHR ''?'' \<notin> set s0"
    by (simp add: token_free_def)
  show ?case
    using Cons.IH [OF rest] s0 by (simp add: number_placeholders_token_free)
qed

section \<open>Data model\<close>

text \<open>
  \<open>time.Time\<close> is an instant; it is a number here, the zero value being \<open>0\<close>.
  The clock is an input: every \<open>time.Now()\<close> of an operation is a parameter of its model.
\<close>

type_synonym time = int

record Chat =
  chat_DeviceID :: string
  chat_JID :: string
  chat_Name :: string
  chat_LastMessageTime :: time
  chat_EphemeralExpiration :: nat
  chat_CreatedAt :: time
  chat_UpdatedAt :: time

record Message =
  msg_ID :: string
  msg_ChatJID :: string
  msg_DeviceID :: string
  msg_Sender :: string
  msg_Content :: string
  msg_Timestamp :: time
  msg_IsFromMe :: bool
  msg_MediaType :: string
  msg_Filename :: string
  msg_URL :: string
  msg_MediaKey :: string
  msg_FileSHA256 :: string
  msg_FileEncSHA256 :: string
  msg_FileLength :: nat
  msg_CreatedAt :: time
  msg_UpdatedAt :: time

record DeviceRecord =
  dev_DeviceID :: string
  dev_DisplayName :: string
  dev_JID :: string
  dev_CreatedAt :: time
  dev_UpdatedAt :: time

record ChatFilter =
  flt_SearchName :: string
  flt_DeviceID :: string
  flt_Limit :: int

text \<open>The zero values \<open>&Chat{}\<close>, \<open>&Message{}\<close> and \<open>&DeviceRecord{}\<close>.\<close>

definition zero_Chat :: Chat where
  "zero_Chat = \<lparr>chat_DeviceID = [], chat_JID = [], chat_Name = [], chat_LastMessageTime = 0,
     chat_EphemeralExpiration = 0, chat_CreatedAt = 0, chat_UpdatedAt = 0\<rparr>"

definition zero_Message :: Message where
  "zero_Message = \<lparr>msg_ID = [], msg_ChatJID = [], msg_DeviceID = [], msg_Sender = [],
     msg_Content = [], msg_Timestamp = 0, msg_IsFromMe = False, msg_MediaType = [],
     msg_Filename = [], msg_URL = [], msg_MediaKey = [], msg_FileSHA256 = [],
     msg_FileEncSHA256 = [], msg_FileLength = 0, msg_CreatedAt = 0, msg_UpdatedAt = 0\<rparr>"

definition zero_DeviceRecord :: DeviceRecord where
  "zero_DeviceRecord = \<lparr>dev_DeviceID = [], dev_DisplayName = [], dev_JID = [],
     dev_CreatedAt = 0, dev_UpdatedAt = 0\<rparr>"

text \<open>Primary keys, as the migrations declare them.\<close>

definition chat_key :: "Chat \<Rightarrow> string \<times> string" where
  "chat_key c = (chat_JID c, chat_DeviceID c)"

definition msg_key :: "Message \<Rightarrow> string \<times> string \<times> string" where
  "msg_key m = (msg_ID m, msg_ChatJID m, msg_DeviceID m)"

section \<open>The SQL engine\<close>

text \<open>
  Go errors are values: \<open>error option\<close> is Go's \<open>error\<close>, \<open>None\<close> being \<open>nil\<close>.
  \<open>ErrNoRows\<close> is \<open>sql.ErrNoRows\<close>; the other constructors are diagnostics of the
  engine.  A run-time panic (a nil dereference, an index out of range) is not an error
  value: an operation that can panic returns an \<open>outcome\<close>.
\<close>

datatype error =
    ErrNoRows
  | ErrEngine string
  | ErrNoTable string
  | ErrUnique
  | ErrSyntax
  | ErrTxFailed

datatype 'a outcome = Return 'a | Panic

text \<open>
  The database behind \<open>r.db\<close>.  A table that has not been created is \<open>None\<close>; rows are
  kept in insertion order.  Of \<open>schema_info\<close> only the \<open>version\<close> column is kept (no
  statement reads its \<open>updated_at\<close>).  \<open>faults\<close> is the environment: the head says
  whether the next call to the engine fails (connection loss, lock timeout, \dots) and
  with which diagnostic; an empty schedule means no further failure.  \<open>sql_log\<close>
  records the text of every statement sent to the engine, in order.
\<close>

record database =
  chats :: "Chat list option"
  messages :: "Message list option"
  devices :: "DeviceRecord list option"
  schema_info :: "int list option"
  faults :: "string option list"
  sql_log :: "string list"

definition next_fault :: "database \<Rightarrow> string option \<times> database" where
  "next_fault d = (case faults d of [] \<Rightarrow> (None, d) | f # fs \<Rightarrow> (f, d\<lparr>faults := fs\<rparr>))"

subsection \<open>Relational operations on one table\<close>

text \<open>
  \<open>UPDATE \<dots> SET \<dots> WHERE P\<close>, \<open>INSERT\<close> under a primary key and \<open>DELETE \<dots> WHERE P\<close>;
  each returns the number of affected rows, which for \<open>UPDATE\<close> is the number of rows
  matched by the \<open>WHERE\<close> clause.
\<close>

definition tbl_update :: "('r \<Rightarrow> bool) \<Rightarrow> ('r \<Rightarrow> 'r) \<Rightarrow> 'r list \<Rightarrow> error + (nat \<times> 'r list)" where
  "tbl_update P f rows =
     Inr (length (filter P rows), map (\<lambda>row. if P row then f row else row) rows)"

definition tbl_insert :: "('r \<Rightarrow> 'k) \<Rightarrow> 'r \<Rightarrow> 'r list \<Rightarrow> error + (nat \<times> 'r list)" where
  "tbl_insert key row rows =
     (if list_ex (\<lambda>old. key old = key row) rows then Inl ErrUnique
      else Inr (1, rows @ [row]))"

definition tbl_delete :: "('r \<Rightarrow> bool) \<Rightarrow> 'r list \<Rightarrow> error + (nat \<times> 'r list)" where
  "tbl_delete P rows = Inr (length (filter P rows), filter (\<lambda>row. \<not> P row) rows)"

definition with_chats ::
  "(Chat list \<Rightarrow> error + (nat \<times> Chat list)) \<Rightarrow> database \<Rightarrow> error + (nat \<times> database)" where
  "with_chats f d =
     (case chats d of
        None \<Rightarrow> Inl (ErrNoTable ''chats'')
      | Some rows \<Rightarrow>
          (case f rows of Inl e \<Rightarrow> Inl e | Inr (n, rows') \<Rightarrow> Inr (n, d\<lparr>chats := Some rows'\<rparr>)))"

definition with_messages ::
  "(Message list \<Rightarrow> error + (nat \<times> Message list)) \<Rightarrow> database \<Rightarrow> error + (nat \<times> database)" where
  "with_messages f d =
     (case messages d of
        None \<Rightarrow> Inl (ErrNoTable ''messages'')
      | Some rows \<Rightarrow>
          (case f rows of Inl e \<Rightarrow> Inl e | Inr (n, rows') \<Rightarrow> Inr (n, d\<lparr>messages := Some rows'\<rparr>)))"

definition with_devices ::
  "(DeviceRecord list \<Rightarrow> error + (nat \<times> DeviceRecord list)) \<Rightarrow> database
     \<Rightarrow> error + (nat \<times> database)" where
  "with_devices f d =
     (case devices d of
        None \<Rightarrow> Inl (ErrNoTable ''devices'')
      | Some rows \<Rightarrow>
          (case f rows of Inl e \<Rightarrow> Inl e | Inr (n, rows') \<Rightarrow> Inr (n, d\<lparr>devices := Some rows'\<rparr>)))"

definition with_schema_info ::
  "(int list \<Rightarrow> error + (nat \<times> int list)) \<Rightarrow> database \<Rightarrow> error + (nat \<times> database)" where
  "with_schema_info f d =
     (case schema_info d of
        None \<Rightarrow> Inl (ErrNoTable ''schema_info'')
      | Some rows \<Rightarrow>
          (case f rows of Inl e \<Rightarrow> Inl e | Inr (n, rows') \<Rightarrow> Inr (n, d\<lparr>schema_info := Some rows'\<rparr>)))"

text \<open>\<open>SELECT \<dots> WHERE P\<close> on one table: the matching rows, in table order.\<close>

definition select_from :: "(database \<Rightarrow> 'r list option) \<Rightarrow> string \<Rightarrow> ('r \<Rightarrow> bool) \<Rightarrow> database
     \<Rightarrow> error + 'r list" where
  "select_from tbl name P d =
     (case tbl d of None \<Rightarrow> Inl (ErrNoTable name) | Some rows \<Rightarrow> Inr (filter P rows))"

subsection \<open>Calls of \<open>database/sql\<close>\<close>

text \<open>
  \<open>db.Exec(query, args...)\<close>: the statement text is logged, the engine may fail as the
  fault schedule says, and otherwise the statement's meaning \<open>action\<close> is applied.
  The result is the error, or the number of affected rows of a non-nil \<open>sql.Result\<close>.
\<close>

definition db_Exec ::
  "string \<Rightarrow> (database \<Rightarrow> error + (nat \<times> database)) \<Rightarrow> database \<Rightarrow> (error + nat) \<times> database" where
  "db_Exec query action d =
     (case next_fault (d\<lparr>sql_log := sql_log d @ [query]\<rparr>) of
        (Some diag, d1) \<Rightarrow> (Inl (ErrEngine diag), d1)
      | (None, d1) \<Rightarrow>
          (case action d1 of Inl e \<Rightarrow> (Inl e, d1) | Inr (n, d2) \<Rightarrow> (Inr n, d2)))"

text \<open>\<open>db.Query(query, args...)\<close>: the rows, or the error.\<close>

definition db_Query ::
  "string \<Rightarrow> (database \<Rightarrow> error + 'r list) \<Rightarrow> database \<Rightarrow> (error + 'r list) \<times> database" where
  "db_Query query sel d =
     (case next_fault (d\<lparr>sql_log := sql_log d @ [query]\<rparr>) of
        (Some diag, d1) \<Rightarrow> (Inl (ErrEngine diag), d1)
      | (None, d1) \<Rightarrow> (sel d1, d1))"

text \<open>
  \<open>db.QueryRow(query, args...).Scan(\<dots>)\<close>: the first row, \<open>sql.ErrNoRows\<close> when the
  query succeeded and selected no row, or the query's error.
\<close>

definition db_QueryRow ::
  "string \<Rightarrow> (database \<Rightarrow> error + 'r list) \<Rightarrow> database \<Rightarrow> (error + 'r) \<times> database" where
  "db_QueryRow query sel d =
     (case db_Query query sel d of
        (Inl e, d1) \<Rightarrow> (Inl e, d1)
      | (Inr [], d1) \<Rightarrow> (Inl ErrNoRows, d1)
      | (Inr (row # _), d1) \<Rightarrow> (Inr row, d1))"

definition err_of :: "error + 'a \<Rightarrow> error option" where
  "err_of res = (case res of Inl e \<Rightarrow> Some e | Inr _ \<Rightarrow> None)"

section \<open>Repository core: chats and messages\<close>

definition qUpdate_chats :: string where
  "qUpdate_chats = ''UPDATE chats SET name = ?, last_message_time = ?, ephemeral_expiration = ?, updated_at = ? WHERE jid = ? AND device_id = ?''"

definition qInsert_chats :: string where
  "qInsert_chats = ''INSERT INTO chats (jid, device_id, name, last_message_time, ephemeral_expiration, created_at, updated_at) VALUES (?, ?, ?, ?, ?, ?, ?)''"

text \<open>
  \<open>StoreChat\<close>.  The chat is passed by pointer and its \<open>UpdatedAt\<close> is assigned, so the
  model returns the caller's struct as it is after the call.
\<close>

definition StoreChat ::
  "SQLRepository \<Rightarrow> time \<Rightarrow> Chat \<Rightarrow> database \<Rightarrow> error option \<times> Chat \<times> database" where
  "StoreChat r now chat0 d =
     (let chat = chat0\<lparr>chat_UpdatedAt := now\<rparr>;
          (result, d1) = db_Exec (p r qUpdate_chats)
             (with_chats (tbl_update
                (\<lambda>row. chat_JID row = chat_JID chat \<and> chat_DeviceID row = chat_DeviceID chat)
                (\<lambda>row. row\<lparr>chat_Name := chat_Name chat,
                            chat_LastMessageTime := chat_LastMessageTime chat,
                            chat_EphemeralExpiration := chat_EphemeralExpiration chat,
                            chat_UpdatedAt := chat_UpdatedAt chat\<rparr>))) d
      in case result of
           Inl err \<Rightarrow> (Some err, chat, d1)
         | Inr rowsAffected \<Rightarrow>
             if rowsAffected = 0 then
               (let (result2, d2) = db_Exec (p r qInsert_chats)
                  (with_chats (tbl_insert chat_key
                     \<lparr>chat_DeviceID = chat_DeviceID chat, chat_JID = chat_JID chat,
                      chat_Name = chat_Name chat,
                      chat_LastMessageTime = chat_LastMessageTime chat,
                      chat_EphemeralExpiration = chat_EphemeralExpiration chat,
                      chat_CreatedAt = now, chat_UpdatedAt = chat_UpdatedAt chat\<rparr>)) d1
                in (err_of result2, chat, d2))
             else (None, chat, d1))"

definition qSelect_chat :: string where
  "qSelect_chat = ''SELECT device_id, jid, name, last_message_time, ephemeral_expiration, created_at, updated_at FROM chats WHERE jid = ?''"

definition qSelect_chat_by_device :: string where
  "qSelect_chat_by_device = ''SELECT device_id, jid, name, last_message_time, ephemeral_expiration, created_at, updated_at FROM chats WHERE jid = ? AND device_id = ?''"

text \<open>\<open>scanChat\<close>: a fresh struct, filled by \<open>Scan\<close> when it succeeds.\<close>

definition scanChat :: "error + Chat \<Rightarrow> Chat \<times> error option" where
  "scanChat s = (case s of Inl err \<Rightarrow> (zero_Chat, Some err) | Inr row \<Rightarrow> (row, None))"

definition scanMessage :: "error + Message \<Rightarrow> Message \<times> error option" where
  "scanMessage s = (case s of Inl err \<Rightarrow> (zero_Message, Some err) | Inr row \<Rightarrow> (row, None))"

text \<open>Point lookups return the pointer (\<open>None\<close> is \<open>nil\<close>) and the error.\<close>

definition GetChat ::
  "SQLRepository \<Rightarrow> string \<Rightarrow> database \<Rightarrow> (Chat option \<times> error option) \<times> database" where
  "GetChat r jid d =
     (let (row, d1) = db_QueryRow (p r qSelect_chat)
             (select_from chats ''chats'' (\<lambda>c. chat_JID c = jid)) d;
          (chat, err) = scanChat row
      in if err = Some ErrNoRows then ((None, None), d1) else ((Some chat, err), d1))"

definition GetChatByDevice ::
  "SQLRepository \<Rightarrow> string \<Rightarrow> string \<Rightarrow> database \<Rightarrow> (Chat option \<times> error option) \<times> database" where
  "GetChatByDevice r deviceID jid d =
     (let (row, d1) = db_QueryRow (p r qSelect_chat_by_device)
             (select_from chats ''chats'' (\<lambda>c. chat_JID c = jid \<and> chat_DeviceID c = deviceID)) d;
          (chat, err) = scanChat row
      in if err = Some ErrNoRows then ((None, None), d1) else ((Some chat, err), d1))"

definition qUpdate_messages :: string where
  "qUpdate_messages = ''UPDATE messages SET sender = ?, content = ?, timestamp = ?, is_from_me = ?, media_type = ?, filename = ?, url = ?, media_key = ?, file_sha256 = ?, file_enc_sha256 = ?, file_length = ?, updated_at = ? WHERE id = ? AND chat_jid = ? AND device_id = ?''"

definition qInsert_messages :: string where
  "qInsert_messages = ''INSERT INTO messages (id, chat_jid, device_id, sender, content, timestamp, is_from_me, media_type, filename, url, media_key, file_sha256, file_enc_sha256, file_length, created_at, updated_at) VALUES (?, ?, ?, ?, ?, ?, ?, ?, ?, ?, ?, ?, ?, ?, ?, ?)''"

text \<open>
  \<open>StoreMessage\<close>.  The message is passed by pointer; the model returns the caller's
  struct as it is after the call.
\<close>

definition StoreMessage ::
  "SQLRepository \<Rightarrow> time \<Rightarrow> Message \<Rightarrow> database \<Rightarrow> error option \<times> Message \<times> database" where
  "StoreMessage r now message0 d =
     (let message = message0\<lparr>msg_CreatedAt := now, msg_UpdatedAt := now\<rparr>
      in if msg_Content message = [] \<and> msg_MediaType message = [] then (None, message, d)
         else
           (let (result, d1) = db_Exec (p r qUpdate_messages)
                  (with_messages (tbl_update
                     (\<lambda>row. msg_ID row = msg_ID message \<and> msg_ChatJID row = msg_ChatJID message
                            \<and> msg_DeviceID row = msg_DeviceID message)
                     (\<lambda>row. row\<lparr>msg_Sender := msg_Sender message,
                                 msg_Content := msg_Content message,
                                 msg_Timestamp := msg_Timestamp message,
                                 msg_IsFromMe := msg_IsFromMe message,
                                 msg_MediaType := msg_MediaType message,
                                 msg_Filename := msg_Filename message,
                                 msg_URL := msg_URL message,
                                 msg_MediaKey := msg_MediaKey message,
                                 msg_FileSHA256 := msg_FileSHA256 message,
                                 msg_FileEncSHA256 := msg_FileEncSHA256 message,
                                 msg_FileLength := msg_FileLength message,
                                 msg_UpdatedAt := msg_UpdatedAt message\<rparr>))) d
            in case result of
                 Inl err \<Rightarrow> (Some err, message, d1)
               | Inr rowsAffected \<Rightarrow>
                   if rowsAffected = 0 then
                     (let (result2, d2) = db_Exec (p r qInsert_messages)
                            (with_messages (tbl_insert msg_key message)) d1
                      in (err_of result2, message, d2))
                   else (None, message, d1)))"

definition qSelect_message :: string where
  "qSelect_message = ''SELECT id, chat_jid, device_id, sender, content, timestamp, is_from_me, media_type, filename, url, media_key, file_sha256, file_enc_sha256, file_length, created_at, updated_at FROM messages WHERE id = ? LIMIT 1''"

definition GetMessageByID ::
  "SQLRepository \<Rightarrow> string \<Rightarrow> database \<Rightarrow> (Message option \<times> error option) \<times> database" where
  "GetMessageByID r ident d =
     (let (row, d1) = db_QueryRow (p r qSelect_message)
             (select_from messages ''messages'' (\<lambda>m. msg_ID m = ident)) d;
          (message, err) = scanMessage row
      in if err = Some ErrNoRows then ((None, None), d1) else ((Some message, err), d1))"

section \<open>Repository core: device records\<close>

definition qUpdate_devices :: string where
  "qUpdate_devices = ''UPDATE devices SET display_name = ?, jid = ?, updated_at = ? WHERE device_id = ?''"

definition qInsert_devices :: string where
  "qInsert_devices = ''INSERT INTO devices (device_id, display_name, jid, created_at, updated_at) VALUES (?, ?, ?, ?, ?)''"

text \<open>
  \<open>SaveDeviceRecord\<close> discards the error of both \<open>Exec\<close> calls and always returns
  \<open>nil\<close>.  When the \<open>UPDATE\<close> fails, \<open>res\<close> is a nil \<open>sql.Result\<close> and
  \<open>res.RowsAffected()\<close> dereferences it: the call panics.
\<close>

definition SaveDeviceRecord ::
  "SQLRepository \<Rightarrow> time \<Rightarrow> DeviceRecord \<Rightarrow> database \<Rightarrow> error option outcome \<times> database" where
  "SaveDeviceRecord r now record d =
     (let (res, d1) = db_Exec (p r qUpdate_devices)
             (with_devices (tbl_update
                (\<lambda>row. dev_DeviceID row = dev_DeviceID record)
                (\<lambda>row. row\<lparr>dev_DisplayName := dev_DisplayName record,
                            dev_JID := dev_JID record,
                            dev_UpdatedAt := now\<rparr>))) d
      in case res of
           Inl _ \<Rightarrow> (Panic, d1)
         | Inr aff \<Rightarrow>
             if aff = 0 then
               (let (_, d2) = db_Exec (p r qInsert_devices)
                  (with_devices (tbl_insert dev_DeviceID
                     \<lparr>dev_DeviceID = dev_DeviceID record,
                      dev_DisplayName = dev_DisplayName record, dev_JID = dev_JID record,
                      dev_CreatedAt = now, dev_UpdatedAt = now\<rparr>)) d1
                in (Return None, d2))
             else (Return None, d1))"

definition qSelect_device :: string where
  "qSelect_device = ''SELECT device_id, display_name, jid, created_at, updated_at FROM devices WHERE device_id = ? LIMIT 1''"

definition GetDeviceRecord ::
  "SQLRepository \<Rightarrow> string \<Rightarrow> database \<Rightarrow> (DeviceRecord option \<times> error option) \<times> database" where
  "GetDeviceRecord r deviceID d =
     (let (row, d1) = db_QueryRow (p r qSelect_device)
             (select_from devices ''devices'' (\<lambda>x. dev_DeviceID x = deviceID)) d;
          (rec, err) = (case row of Inl e \<Rightarrow> (zero_DeviceRecord, Some e) | Inr x \<Rightarrow> (x, None))
      in if err = Some ErrNoRows then ((None, None), d1) else ((Some rec, err), d1))"

section \<open>Transactions and \<open>DeleteChat\<close>\<close>

text \<open>
  A transaction handle remembers the tables as they were at \<open>BEGIN\<close>.  The dialect
  flag is derived from the driver, so it also says which engine answers: on Postgres
  a failed statement aborts the transaction (every later statement is refused and
  \<open>COMMIT\<close> rolls back and reports an error), while an engine that takes \<open>?\<close>
  natively (SQLite) fails the statement alone and keeps the transaction open.
  A \<open>COMMIT\<close> that fails leaves the tables as they were at \<open>BEGIN\<close>.
\<close>

record Tx =
  tx_snapshot :: database
  tx_failed :: bool

definition db_Begin :: "database \<Rightarrow> (error + Tx) \<times> database" where
  "db_Begin d =
     (case next_fault (d\<lparr>sql_log := sql_log d @ [''BEGIN'']\<rparr>) of
        (Some diag, d1) \<Rightarrow> (Inl (ErrEngine diag), d1)
      | (None, d1) \<Rightarrow> (Inr \<lparr>tx_snapshot = d1, tx_failed = False\<rparr>, d1))"

definition tx_Exec ::
  "SQLRepository \<Rightarrow> string \<Rightarrow> (database \<Rightarrow> error + (nat \<times> database)) \<Rightarrow> Tx \<Rightarrow> database
     \<Rightarrow> (error + nat) \<times> Tx \<times> database" where
  "tx_Exec r query action tx d =
     (case next_fault (d\<lparr>sql_log := sql_log d @ [query]\<rparr>) of
        (Some diag, d1) \<Rightarrow>
          (Inl (ErrEngine diag), tx\<lparr>tx_failed := tx_failed tx \<or> isPostgres r\<rparr>, d1)
      | (None, d1) \<Rightarrow>
          if tx_failed tx then (Inl ErrTxFailed, tx, d1)
          else
            (case action d1 of
               Inl e \<Rightarrow> (Inl e, tx\<lparr>tx_failed := isPostgres r\<rparr>, d1)
             | Inr (n, d2) \<Rightarrow> (Inr n, tx, d2)))"

definition rollback :: "Tx \<Rightarrow> database \<Rightarrow> database" where
  "rollback tx d =
     d\<lparr>chats := chats (tx_snapshot tx), messages := messages (tx_snapshot tx),
       devices := devices (tx_snapshot tx), schema_info := schema_info (tx_snapshot tx)\<rparr>"

definition tx_Commit :: "Tx \<Rightarrow> database \<Rightarrow> error option \<times> database" where
  "tx_Commit tx d =
     (case next_fault (d\<lparr>sql_log := sql_log d @ [''COMMIT'']\<rparr>) of
        (Some diag, d1) \<Rightarrow> (Some (ErrEngine diag), rollback tx d1)
      | (None, d1) \<Rightarrow>
          if tx_failed tx then (Some ErrTxFailed, rollback tx d1) else (None, d1))"

text \<open>
  \<open>DeleteChat\<close> discards the error of \<open>Begin\<close> and of both \<open>Exec\<close> calls and returns
  what \<open>Commit\<close> returns.  When \<open>Begin\<close> fails, \<open>tx\<close> is nil and \<open>tx.Exec\<close> panics.
\<close>

definition DeleteChat ::
  "SQLRepository \<Rightarrow> string \<Rightarrow> database \<Rightarrow> error option outcome \<times> database" where
  "DeleteChat r jid d =
     (case db_Begin d of
        (Inl _, d1) \<Rightarrow> (Panic, d1)
      | (Inr tx, d1) \<Rightarrow>
          (let (_, tx1, d2) = tx_Exec r (p r ''DELETE FROM messages WHERE chat_jid = ?'')
                  (with_messages (tbl_delete (\<lambda>m. msg_ChatJID m = jid))) tx d1;
               (_, tx2, d3) = tx_Exec r (p r ''DELETE FROM chats WHERE jid = ?'')
                  (with_chats (tbl_delete (\<lambda>c. chat_JID c = jid))) tx1 d2;
               (err, d4) = tx_Commit tx2 d3
           in (Return err, d4)))"

section \<open>Event ingestor\<close>

text \<open>
  Of \<open>types.JID\<close> the code reads the field \<open>User\<close> and calls \<open>String()\<close>.  The
  protocol library and the helper packages are not part of the repository core; what
  \<open>CreateMessage\<close> asks of them is a parameter: the device found in the context
  (\<open>None\<close> when \<open>DeviceFromContext\<close> reports \<open>ok = false\<close>), the normalisation of an
  alias identifier, the rendering of a JID, and the two extractors of the payload.
\<close>

record JID =
  jid_User :: string
  jid_Server :: string

record MessageInfo =
  info_ID :: string
  info_Chat :: JID
  info_Sender :: JID
  info_Timestamp :: time
  info_IsFromMe :: bool
  info_PushName :: string

record 'proto EventsMessage =
  evt_Info :: MessageInfo
  evt_Message :: 'proto

type_synonym MediaInfo = "string \<times> string \<times> string \<times> string \<times> string \<times> string \<times> nat"

record 'proto Context =
  DeviceFromContext :: "string option"
  NormalizeJIDFromLID :: "JID \<Rightarrow> JID"
  JID_String :: "JID \<Rightarrow> string"
  ExtractMessageTextFromProto :: "'proto \<Rightarrow> string"
  ExtractMediaInfo :: "'proto \<Rightarrow> MediaInfo"

definition GetChatNameWithPushName ::
  "SQLRepository \<Rightarrow> JID \<Rightarrow> string \<Rightarrow> string \<Rightarrow> string \<Rightarrow> string" where
  "GetChatNameWithPushName r jid chatJID senderUser pushName =
     (if pushName \<noteq> [] then pushName else jid_User jid)"

text \<open>
  \<open>CreateMessage\<close>.  The two stores read the clock one after the other (\<open>now1\<close>,
  \<open>now2\<close>).  The error of \<open>StoreChat\<close> is assigned to the blank identifier.
\<close>

definition CreateMessage ::
  "SQLRepository \<Rightarrow> 'proto Context \<Rightarrow> time \<Rightarrow> time \<Rightarrow> 'proto EventsMessage \<Rightarrow> database
     \<Rightarrow> error option \<times> database" where
  "CreateMessage r ctx now1 now2 evt d =
     (let info = evt_Info evt;
          deviceID = (case DeviceFromContext ctx of Some ident \<Rightarrow> ident | None \<Rightarrow> []);
          normalizedChatJID = NormalizeJIDFromLID ctx (info_Chat info);
          chatJID = JID_String ctx normalizedChatJID;
          chat = \<lparr>chat_DeviceID = deviceID, chat_JID = chatJID,
                  chat_Name = GetChatNameWithPushName r normalizedChatJID chatJID
                                (jid_User (info_Sender info)) (info_PushName info),
                  chat_LastMessageTime = info_Timestamp info,
                  chat_EphemeralExpiration = 0, chat_CreatedAt = 0, chat_UpdatedAt = 0\<rparr>;
          (_, _, d1) = StoreChat r now1 chat d;
          content = ExtractMessageTextFromProto ctx (evt_Message evt);
          (mType, fName, url, mKey, fSha, fEncSha, fLen) = ExtractMediaInfo ctx (evt_Message evt);
          message = \<lparr>msg_ID = info_ID info, msg_ChatJID = chatJID, msg_DeviceID = deviceID,
                     msg_Sender = JID_String ctx (info_Sender info), msg_Content = content,
                     msg_Timestamp = info_Timestamp info, msg_IsFromMe = info_IsFromMe info,
                     msg_MediaType = mType, msg_Filename = fName, msg_URL = url,
                     msg_MediaKey = mKey, msg_FileSHA256 = fSha, msg_FileEncSHA256 = fEncSha,
                     msg_FileLength = fLen, msg_CreatedAt = 0, msg_UpdatedAt = 0\<rparr>;
          (err, _, d2) = StoreMessage r now2 message d1
      in (err, d2))"

section \<open>Schema migrator\<close>

definition qCreate_schema_info :: string where
  "qCreate_schema_info = ''CREATE TABLE IF NOT EXISTS schema_info (version INTEGER PRIMARY KEY, updated_at TIMESTAMP DEFAULT CURRENT_TIMESTAMP)''"

definition qSelect_version :: string where
  "qSelect_version = ''SELECT COALESCE(MAX(version), 0) FROM schema_info''"

definition qDelete_version :: string where
  "qDelete_version = ''DELETE FROM schema_info WHERE version = ?''"

definition qInsert_version :: string where
  "qInsert_version = ''INSERT INTO schema_info (version) VALUES (?)''"

text \<open>
  The engine's reading of a DDL statement \<open>CREATE TABLE IF NOT EXISTS name (\<dots>)\<close>:
  the named table is created empty unless it exists.  Any other text is refused; a
  table the repository never reads leaves the modelled state as it is.
\<close>

definition ddl_table_name :: "string \<Rightarrow> string option" where
  "ddl_table_name q =
     (if prefix ''CREATE TABLE IF NOT EXISTS '' q
      then Some (takeWhile (\<lambda>c. c \<noteq> CHR '' '') (drop 27 q)) else None)"

definition run_ddl :: "string \<Rightarrow> database \<Rightarrow> error + (nat \<times> database)" where
  "run_ddl q d =
     (case ddl_table_name q of
        None \<Rightarrow> Inl ErrSyntax
      | Some t \<Rightarrow>
          if t = ''chats'' then
            Inr (0, case chats d of None \<Rightarrow> d\<lparr>chats := Some []\<rparr> | Some _ \<Rightarrow> d)
          else if t = ''messages'' then
            Inr (0, case messages d of None \<Rightarrow> d\<lparr>messages := Some []\<rparr> | Some _ \<Rightarrow> d)
          else if t = ''devices'' then
            Inr (0, case devices d of None \<Rightarrow> d\<lparr>devices := Some []\<rparr> | Some _ \<Rightarrow> d)
          else if t = ''schema_info'' then
            Inr (0, case schema_info d of None \<Rightarrow> d\<lparr>schema_info := Some []\<rparr> | Some _ \<Rightarrow> d)
          else Inr (0, d))"

text \<open>\<open>COALESCE(MAX(version), 0)\<close>: one row, \<open>0\<close> for an empty table.\<close>

definition max_version :: "int list \<Rightarrow> int" where
  "max_version vs = (case vs of [] \<Rightarrow> 0 | v # rest \<Rightarrow> fold max rest v)"

definition select_max_version :: "database \<Rightarrow> error + int list" where
  "select_max_version d =
     (case schema_info d of
        None \<Rightarrow> Inl (ErrNoTable ''schema_info'')
      | Some vs \<Rightarrow> Inr [max_version vs])"

text \<open>\<open>getSchemaVersion\<close>: both errors are discarded; \<open>v\<close> keeps its zero value
  when \<open>Scan\<close> fails.\<close>

definition getSchemaVersion :: "SQLRepository \<Rightarrow> database \<Rightarrow> int \<times> database" where
  "getSchemaVersion r d =
     (let d1 = snd (db_Exec (p r qCreate_schema_info) (run_ddl (p r qCreate_schema_info)) d);
          (row, d2) = db_QueryRow qSelect_version select_max_version d1;
          v = (case row of Inl _ \<Rightarrow> 0 | Inr x \<Rightarrow> x)
      in (v, d2))"

text \<open>The SQL literal for the empty string: two apostrophes.\<close>

definition empty_literal :: string where
  "empty_literal = [CHR 0x27, CHR 0x27]"

definition getMigrations :: "SQLRepository \<Rightarrow> string list" where
  "getMigrations r =
     (let blobType = (if isPostgres r then ''BYTEA'' else ''BLOB'')
      in [''CREATE TABLE IF NOT EXISTS chats (jid VARCHAR(255), device_id VARCHAR(255) DEFAULT '' @ empty_literal @ '', name VARCHAR(255), last_message_time TIMESTAMP, ephemeral_expiration INTEGER DEFAULT 0, created_at TIMESTAMP DEFAULT CURRENT_TIMESTAMP, updated_at TIMESTAMP DEFAULT CURRENT_TIMESTAMP, PRIMARY KEY (jid, device_id))'',
          ''CREATE TABLE IF NOT EXISTS messages (id VARCHAR(255), chat_jid VARCHAR(255), device_id VARCHAR(255) DEFAULT '' @ empty_literal @ '', sender VARCHAR(255), content TEXT, timestamp TIMESTAMP, is_from_me BOOLEAN DEFAULT FALSE, media_type VARCHAR(50), filename VARCHAR(255), url TEXT, media_key ''
            @ blobType @ '', file_sha256 '' @ blobType @ '', file_enc_sha256 '' @ blobType
            @ '', file_length INTEGER DEFAULT 0, created_at TIMESTAMP DEFAULT CURRENT_TIMESTAMP, updated_at TIMESTAMP DEFAULT CURRENT_TIMESTAMP, PRIMARY KEY (id, chat_jid, device_id))'',
          ''CREATE TABLE IF NOT EXISTS devices (device_id VARCHAR(255) PRIMARY KEY, display_name VARCHAR(255) DEFAULT '' @ empty_literal @ '', jid VARCHAR(255) DEFAULT '' @ empty_literal @ '', created_at TIMESTAMP DEFAULT CURRENT_TIMESTAMP, updated_at TIMESTAMP DEFAULT CURRENT_TIMESTAMP)''])"

text \<open>
  The loop of \<open>InitializeSchema\<close>, \<open>for i := v; i < len(migs); i++\<close>, with every error
  discarded.  \<open>migs[i]\<close> with a negative index is a run-time panic.
\<close>

function migrate_loop ::
  "SQLRepository \<Rightarrow> string list \<Rightarrow> int \<Rightarrow> database \<Rightarrow> unit outcome \<times> database" where
  "migrate_loop r migs i d =
     (if i < int (length migs) then
        (if i < 0 then (Panic, d)
         else
           (let d1 = snd (db_Exec (migs ! nat i) (run_ddl (migs ! nat i)) d);
                d2 = snd (db_Exec (p r qDelete_version)
                            (with_schema_info (tbl_delete (\<lambda>v. v = i + 1))) d1);
                d3 = snd (db_Exec (p r qInsert_version)
                            (with_schema_info (tbl_insert (\<lambda>v. v) (i + 1))) d2)
            in migrate_loop r migs (i + 1) d3))
      else (Return (), d))"
  by pat_completeness auto
termination
  by (relation "measure (\<lambda>(r, migs, i, d). nat (int (length migs) - i))") auto

declare migrate_loop.simps [simp del]

definition InitializeSchema :: "SQLRepository \<Rightarrow> database \<Rightarrow> error option outcome \<times> database" where
  "InitializeSchema r d =
     (let (v, d1) = getSchemaVersion r d;
          migs = getMigrations r
      in case migrate_loop r migs v d1 of
           (Return _, d2) \<Rightarrow> (Return None, d2)
         | (Panic, d2) \<Rightarrow> (Panic, d2))"

section \<open>Filtered chat listing\<close>

text \<open>
  The engine's \<open>LIKE\<close>.  \<open>%\<close> matches any sequence and \<open>_\<close> any one character
  (one byte in this model, which is exact for ASCII text).  With the native-token
  engine (SQLite) letters of the ASCII range compare without regard to case and
  there is no escape character; on Postgres the comparison is exact and a
  backslash makes the next pattern character literal.
\<close>

definition ascii_lower :: "char \<Rightarrow> char" where
  "ascii_lower c =
     (let n = (of_char c :: nat) in if 65 \<le> n \<and> n \<le> 90 then char_of (n + 32) else c)"

definition like_char :: "bool \<Rightarrow> char \<Rightarrow> char \<Rightarrow> bool" where
  "like_char pg q c = (if pg then q = c else ascii_lower q = ascii_lower c)"

fun like_match :: "bool \<Rightarrow> string \<Rightarrow> string \<Rightarrow> bool" where
  "like_match pg [] [] = True"
| "like_match pg [] (c # cs) = False"
| "like_match pg (q # qs) [] = (q = CHR ''%'' \<and> like_match pg qs [])"
| "like_match pg (q # qs) (c # cs) =
     (if q = CHR ''%'' then like_match pg qs (c # cs) \<or> like_match pg (q # qs) cs
      else if q = CHR ''_'' then like_match pg qs cs
      else if pg \<and> q = CHR 0x5C then
        (case qs of [] \<Rightarrow> False | e # es \<Rightarrow> e = c \<and> like_match pg es cs)
      else like_char pg q c \<and> like_match pg qs cs)"

text \<open>\<open>strings.Join(elems, sep)\<close>.\<close>

fun strings_Join :: "string list \<Rightarrow> string \<Rightarrow> string" where
  "strings_Join [] sep = []"
| "strings_Join [x] sep = x"
| "strings_Join (x # y # ys) sep = x @ sep @ strings_Join (y # ys) sep"

text \<open>
  \<open>ORDER BY c.last_message_time DESC\<close> (rows of equal time stay in table order) and
  \<open>LIMIT n\<close>, which the query carries only when \<open>filter.Limit > 0\<close>.
\<close>

definition order_by_last_message_desc :: "Chat list \<Rightarrow> Chat list" where
  "order_by_last_message_desc rows = sort_key (\<lambda>c. - chat_LastMessageTime c) rows"

definition limit_rows :: "int \<Rightarrow> 'r list \<Rightarrow> 'r list" where
  "limit_rows n rows = (if n > 0 then take (nat n) rows else rows)"

definition qSelect_chats :: string where
  "qSelect_chats = ''SELECT c.device_id, c.jid, c.name, c.last_message_time, c.ephemeral_expiration, c.created_at, c.updated_at FROM chats c''"

text \<open>
  \<open>GetChats\<close>.  Each condition appended to \<open>conditions\<close> is kept with its meaning
  under the argument appended to \<open>args\<close> beside it.  A nil slice and an empty slice
  are both the empty list.
\<close>

definition GetChats ::
  "SQLRepository \<Rightarrow> ChatFilter \<Rightarrow> database \<Rightarrow> (Chat list \<times> error option) \<times> database" where
  "GetChats r flt d =
     (let conditions =
            (if flt_SearchName flt \<noteq> []
             then [(''c.name LIKE ?'',
                    \<lambda>c. like_match (isPostgres r) (''%'' @ flt_SearchName flt @ ''%'')
                           (chat_Name c))]
             else [])
            @ (if flt_DeviceID flt \<noteq> []
               then [(''c.device_id = ?'', \<lambda>c. chat_DeviceID c = flt_DeviceID flt)]
               else []);
          query1 = (if length conditions > 0
                    then qSelect_chats @ '' WHERE '' @ strings_Join (map fst conditions) '' AND ''
                    else qSelect_chats);
          query2 = query1 @ '' ORDER BY c.last_message_time DESC'';
          query3 = (if flt_Limit flt > 0 then query2 @ '' LIMIT ?'' else query2);
          (rows, d1) = db_Query (p r query3)
             (\<lambda>d0. case chats d0 of
                     None \<Rightarrow> Inl (ErrNoTable ''chats'')
                   | Some tbl \<Rightarrow>
                       Inr (limit_rows (flt_Limit flt)
                              (order_by_last_message_desc
                                 (filter (\<lambda>c. list_all (\<lambda>cond. snd cond c) conditions) tbl)))) d
      in case rows of
           Inl err \<Rightarrow> (([], Some err), d1)
         | Inr found \<Rightarrow> ((found, None), d1))"

text \<open>
  The substring test the specification words: the display name contains the search
  string, letters of the ASCII range compared without regard to case.
\<close>

definition contains_ci :: "string \<Rightarrow> string \<Rightarrow> bool" where
  "contains_ci s name = strings_Contains (map ascii_lower name) (map ascii_lower s)"

text \<open>The primary key on \<open>chats\<close>, as an invariant of the table.\<close>

definition chats_pk :: "database \<Rightarrow> bool" where
  "chats_pk d = (case chats d of None \<Rightarrow> True | Some rows \<Rightarrow> distinct (map chat_key rows))"

section \<open>Example states\<close>

text \<open>A database whose four tables exist and are empty, on an engine that does not fail.\<close>

definition fresh_db :: database where
  "fresh_db = \<lparr>chats = Some [], messages = Some [], devices = Some [], schema_info = Some [],
     faults = [], sql_log = []\<rparr>"

definition postgres_repo :: SQLRepository where
  "postgres_repo = \<lparr>isPostgres = True\<rparr>"

definition native_repo :: SQLRepository where
  "native_repo = \<lparr>isPostgres = False\<rparr>"

definition example_chat :: "string \<Rightarrow> Chat" where
  "example_chat name = \<lparr>chat_DeviceID = ''dev1'', chat_JID = ''42@s.whatsapp.net'',
     chat_Name = name, chat_LastMessageTime = 100, chat_EphemeralExpiration = 0,
     chat_CreatedAt = 0, chat_UpdatedAt = 0\<rparr>"

definition example_message :: "string \<Rightarrow> string \<Rightarrow> Message" where
  "example_message content mediaType = \<lparr>msg_ID = ''M1'', msg_ChatJID = ''42@s.whatsapp.net'',
     msg_DeviceID = ''dev1'', msg_Sender = ''7@s.whatsapp.net'', msg_Content = content,
     msg_Timestamp = 100, msg_IsFromMe = False, msg_MediaType = mediaType, msg_Filename = [],
     msg_URL = [], msg_MediaKey = [], msg_FileSHA256 = [], msg_FileEncSHA256 = [],
     msg_FileLength = 0, msg_CreatedAt = 0, msg_UpdatedAt = 0\<rparr>"

text \<open>
  The engine answers the next call when the fault schedule does not fail it.
  \<open>lookup_result\<close> is what a point lookup hands back, from the schedule, the table
  and the \<open>WHERE\<close> clause.
\<close>

definition engine_answers :: "database \<Rightarrow> bool" where
  "engine_answers d = (case faults d of Some diag # _ \<Rightarrow> False | _ \<Rightarrow> True)"

definition lookup_result :: "'r \<Rightarrow> 'r list option \<Rightarrow> string \<Rightarrow> ('r \<Rightarrow> bool) \<Rightarrow> database
    \<Rightarrow> 'r option \<times> error option" where
  "lookup_result zero tbl name P d =
     (case faults d of
        Some diag # _ \<Rightarrow> (Some zero, Some (ErrEngine diag))
      | _ \<Rightarrow>
         (case tbl of
            None \<Rightarrow> (Some zero, Some (ErrNoTable name))
          | Some rows \<Rightarrow>
              (case filter P rows of [] \<Rightarrow> (None, None) | row # _ \<Rightarrow> (Some row, None))))"

definition failing_db :: "string \<Rightarrow> database" where
  "failing_db diag = fresh_db\<lparr>faults := [Some diag]\<rparr>"

text \<open>The key under which \<open>CreateMessage\<close> stores the chat: the canonical chat
  identifier and the device of the context.\<close>

definition ingested_chat_key :: "'proto Context \<Rightarrow> 'proto EventsMessage \<Rightarrow> string \<times> string" where
  "ingested_chat_key ctx evt =
     (JID_String ctx (NormalizeJIDFromLID ctx (info_Chat (evt_Info evt))),
      case DeviceFromContext ctx of Some ident \<Rightarrow> ident | None \<Rightarrow> [])"

definition example_context :: "string Context" where
  "example_context =
     \<lparr>DeviceFromContext = Some ''dev1'',
      NormalizeJIDFromLID = (\<lambda>j. if jid_Server j = ''lid''
                                  then \<lparr>jid_User = ''42'', jid_Server = ''s.whatsapp.net''\<rparr> else j),
      JID_String = (\<lambda>j. jid_User j @ ''@'' @ jid_Server j),
      ExtractMessageTextFromProto = (\<lambda>payload. payload),
      ExtractMediaInfo = (\<lambda>payload. ([], [], [], [], [], [], 0))\<rparr>"

definition example_event :: "string \<Rightarrow> string EventsMessage" where
  "example_event pushName =
     \<lparr>evt_Info = \<lparr>info_ID = ''M1'', info_Chat = \<lparr>jid_User = ''alias'', jid_Server = ''lid''\<rparr>,
                   info_Sender = \<lparr>jid_User = ''7'', jid_Server = ''s.whatsapp.net''\<rparr>,
                   info_Timestamp = 100, info_IsFromMe = False, info_PushName = pushName\<rparr>,
      evt_Message = ''Hi''\<rparr>"

text \<open>A database holding one chat and one message of that chat, with a given fault
  schedule, and a device record.\<close>

definition stocked_db :: "string option list \<Rightarrow> database" where
  "stocked_db fs = fresh_db\<lparr>chats := Some [example_chat ''Alice''],
     messages := Some [example_message ''Hi'' []], faults := fs\<rparr>"

definition example_device :: DeviceRecord where
  "example_device = \<lparr>dev_DeviceID = ''dev1'', dev_DisplayName = ''Phone'',
     dev_JID = ''7@s.whatsapp.net'', dev_CreatedAt = 0, dev_UpdatedAt = 0\<rparr>"

text \<open>Two states of the database hold the same four tables.\<close>

definition same_tables :: "database \<Rightarrow> database \<Rightarrow> bool" where
  "same_tables d d' = (chats d' = chats d \<and> messages d' = messages d
     \<and> devices d' = devices d \<and> schema_info d' = schema_info d)"

text \<open>
  The current version, as the specification defines it: the highest version in the
  tracking table, \<open>0\<close> when the table is absent or empty.  \<open>blank_db\<close> is a
  database before the first start: no table exists.
\<close>

definition recorded_version :: "database \<Rightarrow> int" where
  "recorded_version d = (case schema_info d of None \<Rightarrow> 0 | Some vs \<Rightarrow> max_version vs)"

definition blank_db :: database where
  "blank_db = \<lparr>chats = None, messages = None, devices = None, schema_info = None,
     faults = [], sql_log = []\<rparr>"

text \<open>
  A search string without a character that \<open>LIKE\<close> reads as a pattern: \<open>%\<close>,
  \<open>_\<close> and, on Postgres, the backslash.  \<open>chat_selected\<close> is the \<open>WHERE\<close> clause
  that \<open>GetChats\<close> builds, and \<open>device_matches\<close> its device condition.
\<close>

definition meta_free :: "bool \<Rightarrow> string \<Rightarrow> bool" where
  "meta_free pg s =
     list_all (\<lambda>c. c \<noteq> CHR ''%'' \<and> c \<noteq> CHR ''_'' \<and> \<not> (pg \<and> c = CHR 0x5C)) s"

definition chat_selected :: "SQLRepository \<Rightarrow> ChatFilter \<Rightarrow> Chat \<Rightarrow> bool" where
  "chat_selected r flt c =
     ((flt_SearchName flt = []
        \<or> like_match (isPostgres r) (''%'' @ flt_SearchName flt @ ''%'') (chat_Name c))
      \<and> (flt_DeviceID flt = [] \<or> chat_DeviceID c = flt_DeviceID flt))"

definition device_matches :: "ChatFilter \<Rightarrow> Chat \<Rightarrow> bool" where
  "device_matches flt c = (flt_DeviceID flt = [] \<or> chat_DeviceID c = flt_DeviceID flt)"

definition wildcard_filter :: ChatFilter where
  "wildcard_filter = \<lparr>flt_SearchName = ''_'', flt_DeviceID = [], flt_Limit = 0\<rparr>"

definition two_chats_db :: database where
  "two_chats_db = fresh_db\<lparr>chats := Some [example_chat ''Alice'',
     (example_chat ''Alina'')\<lparr>chat_JID := ''43@s.whatsapp.net'', chat_LastMessageTime := 200\<rparr>]\<rparr>"

section \<open>Facts about the engine and the upsert writes\<close>

lemma db_Exec_eval:
  "db_Exec q a d =
     (case faults d of
        [] \<Rightarrow> (case a (d\<lparr>sql_log := sql_log d @ [q]\<rparr>) of
                 Inl e \<Rightarrow> (Inl e, d\<lparr>sql_log := sql_log d @ [q]\<rparr>)
               | Inr (n, d2) \<Rightarrow> (Inr n, d2))
      | None # fs \<Rightarrow> (case a (d\<lparr>sql_log := sql_log d @ [q], faults := fs\<rparr>) of
                 Inl e \<Rightarrow> (Inl e, d\<lparr>sql_log := sql_log d @ [q], faults := fs\<rparr>)
               | Inr (n, d2) \<Rightarrow> (Inr n, d2))
      | Some diag # fs \<Rightarrow> (Inl (ErrEngine diag), d\<lparr>sql_log := sql_log d @ [q], faults := fs\<rparr>))"
  by (simp add: db_Exec_def next_fault_def split: list.splits option.splits)

lemma next_fault_tables:
  "next_fault d = (f, d') \<Longrightarrow>
   chats d' = chats d \<and> messages d' = messages d \<and> devices d' = devices d
   \<and> schema_info d' = schema_info d \<and> sql_log d' = sql_log d"
  by (auto simp: next_fault_def split: list.splits)

lemma next_fault_no_faults:
  "faults d = [] \<Longrightarrow> next_fault d = (None, d)"
  by (simp add: next_fault_def)

lemma db_Exec_no_faults:
  "faults d = [] \<Longrightarrow>
   db_Exec q a d =
     (case a (d\<lparr>sql_log := sql_log d @ [q]\<rparr>) of
        Inl e \<Rightarrow> (Inl e, d\<lparr>sql_log := sql_log d @ [q]\<rparr>)
      | Inr (n, d2) \<Rightarrow> (Inr n, d2))"
  by (simp add: db_Exec_def next_fault_def)

lemma next_fault_snd_tables:
  "chats (snd (next_fault d)) = chats d \<and> messages (snd (next_fault d)) = messages d
   \<and> devices (snd (next_fault d)) = devices d
   \<and> schema_info (snd (next_fault d)) = schema_info d"
  by (simp add: next_fault_def split: list.splits)

lemma db_Exec_Inr:
  assumes "db_Exec q a d = (Inr n, d')"
  shows "\<exists>d1. chats d1 = chats d \<and> messages d1 = messages d \<and> devices d1 = devices d
        \<and> schema_info d1 = schema_info d \<and> a d1 = Inr (n, d')"
proof -
  let ?d1 = "snd (next_fault (d\<lparr>sql_log := sql_log d @ [q]\<rparr>))"
  from assms have "a ?d1 = Inr (n, d')"
    by (auto simp: db_Exec_def split: prod.splits option.splits sum.splits)
  moreover have "chats ?d1 = chats d \<and> messages ?d1 = messages d \<and> devices ?d1 = devices d
        \<and> schema_info ?d1 = schema_info d"
    using next_fault_snd_tables [of "d\<lparr>sql_log := sql_log d @ [q]\<rparr>"] by simp
  ultimately show ?thesis by blast
qed

lemma db_Exec_Inl:
  "db_Exec q a d = (Inl e, d') \<Longrightarrow>
   chats d' = chats d \<and> messages d' = messages d \<and> devices d' = devices d
        \<and> schema_info d' = schema_info d"
  by (auto simp: db_Exec_def next_fault_def split: prod.splits option.splits sum.splits list.splits)

lemma with_chats_Inr:
  "with_chats f d = Inr (n, d') \<Longrightarrow>
   \<exists>rows rows'. chats d = Some rows \<and> f rows = Inr (n, rows') \<and> d' = d\<lparr>chats := Some rows'\<rparr>"
  by (auto simp: with_chats_def split: option.splits sum.splits)

lemma distinct_key_filter_le1:
  "distinct (map key rows) \<Longrightarrow> length (filter (\<lambda>row. key row = k) rows) \<le> Suc 0"
  by (induction rows) (auto simp: filter_empty_conv image_iff)

lemma distinct_map_update:
  "(\<And>row. key (f row) = key row) \<Longrightarrow>
   map key (map (\<lambda>row. if P row then f row else row) rows) = map key rows"
  by (induction rows) auto

lemma with_chats_update_Inr:
  "with_chats (tbl_update P f) d = Inr (n, d') \<Longrightarrow>
   \<exists>rows. chats d = Some rows \<and> n = length (filter P rows)
      \<and> d' = d\<lparr>chats := Some (map (\<lambda>row. if P row then f row else row) rows)\<rparr>"
  by (auto simp: with_chats_def tbl_update_def split: option.splits)

lemma with_chats_insert_Inr:
  "with_chats (tbl_insert key new) d = Inr (n, d') \<Longrightarrow>
   \<exists>rows. chats d = Some rows \<and> \<not> list_ex (\<lambda>old. key old = key new) rows
      \<and> d' = d\<lparr>chats := Some (rows @ [new])\<rparr>"
  by (auto simp: with_chats_def tbl_insert_def split: option.splits if_splits)

lemma StoreChat_unfold:
  "StoreChat r now c d =
     (case db_Exec (p r qUpdate_chats)
             (with_chats (tbl_update
                (\<lambda>row. chat_JID row = chat_JID c \<and> chat_DeviceID row = chat_DeviceID c)
                (\<lambda>row. row\<lparr>chat_Name := chat_Name c,
                            chat_LastMessageTime := chat_LastMessageTime c,
                            chat_EphemeralExpiration := chat_EphemeralExpiration c,
                            chat_UpdatedAt := now\<rparr>))) d of
        (Inl err, d1) \<Rightarrow> (Some err, c\<lparr>chat_UpdatedAt := now\<rparr>, d1)
      | (Inr n, d1) \<Rightarrow>
          if n = 0 then
            (case db_Exec (p r qInsert_chats)
                  (with_chats (tbl_insert chat_key
                     \<lparr>chat_DeviceID = chat_DeviceID c, chat_JID = chat_JID c,
                      chat_Name = chat_Name c,
                      chat_LastMessageTime = chat_LastMessageTime c,
                      chat_EphemeralExpiration = chat_EphemeralExpiration c,
                      chat_CreatedAt = now, chat_UpdatedAt = now\<rparr>)) d1 of
               (res2, d2) \<Rightarrow> (err_of res2, c\<lparr>chat_UpdatedAt := now\<rparr>, d2))
          else (None, c\<lparr>chat_UpdatedAt := now\<rparr>, d1))"
  by (simp add: StoreChat_def Let_def split: prod.splits sum.splits)


lemma StoreChat_cases:
  assumes "StoreChat r now c d = (None, c', d')"
  shows "\<exists>rows. chats d = Some rows \<and> messages d' = messages d \<and> devices d' = devices d
           \<and> schema_info d' = schema_info d \<and> c' = c\<lparr>chat_UpdatedAt := now\<rparr>
           \<and> chats d' = Some
               (if list_ex (\<lambda>row. chat_key row = chat_key c) rows
                then map (\<lambda>row. if chat_key row = chat_key c
                     then row\<lparr>chat_Name := chat_Name c,
                            chat_LastMessageTime := chat_LastMessageTime c,
                            chat_EphemeralExpiration := chat_EphemeralExpiration c,
                            chat_UpdatedAt := now\<rparr> else row) rows
                else rows @ [\<lparr>chat_DeviceID = chat_DeviceID c, chat_JID = chat_JID c,
                      chat_Name = chat_Name c,
                      chat_LastMessageTime = chat_LastMessageTime c,
                      chat_EphemeralExpiration = chat_EphemeralExpiration c,
                      chat_CreatedAt = now, chat_UpdatedAt = now\<rparr>])"
proof -
  define P where "P = (\<lambda>row::Chat. chat_JID row = chat_JID c \<and> chat_DeviceID row = chat_DeviceID c)"
  define f where "f = (\<lambda>row::Chat. row\<lparr>chat_Name := chat_Name c,
                            chat_LastMessageTime := chat_LastMessageTime c,
                            chat_EphemeralExpiration := chat_EphemeralExpiration c,
                            chat_UpdatedAt := now\<rparr>)"
  define new where "new = \<lparr>chat_DeviceID = chat_DeviceID c, chat_JID = chat_JID c,
                      chat_Name = chat_Name c,
                      chat_LastMessageTime = chat_LastMessageTime c,
                      chat_EphemeralExpiration = chat_EphemeralExpiration c,
                      chat_CreatedAt = now, chat_UpdatedAt = now\<rparr>"
  have Pk: "P = (\<lambda>row. chat_key row = chat_key c)"
    by (auto simp: P_def chat_key_def)
  have newk: "chat_key new = chat_key c"
    by (simp add: new_def chat_key_def)
  note unf = StoreChat_unfold [of r now c d, folded P_def f_def new_def]
  obtain res d1 where e1:
    "db_Exec (p r qUpdate_chats) (with_chats (tbl_update P f)) d = (res, d1)"
    by (meson surj_pair)
  from assms e1 obtain n where res: "res = Inr n"
    by (cases res) (simp_all add: unf)
  from e1 res obtain d0 where d0: "chats d0 = chats d" "messages d0 = messages d"
      "devices d0 = devices d" "schema_info d0 = schema_info d"
      and a1: "with_chats (tbl_update P f) d0 = Inr (n, d1)"
    using db_Exec_Inr [of "p r qUpdate_chats" "with_chats (tbl_update P f)" d n d1] by auto
  from with_chats_update_Inr [OF a1] obtain rows where rows: "chats d0 = Some rows"
      and n: "n = length (filter P rows)"
      and d1: "d1 = d0\<lparr>chats := Some (map (\<lambda>row. if P row then f row else row) rows)\<rparr>"
    by blast
  show ?thesis
  proof (cases "n = 0")
    case False
    with assms e1 res have "c' = c\<lparr>chat_UpdatedAt := now\<rparr>" and "d' = d1"
      by (simp_all add: unf)
    moreover from False n have "list_ex (\<lambda>row. chat_key row = chat_key c) rows"
      by (auto simp: Pk list_ex_iff filter_empty_conv)
    ultimately show ?thesis
      using d0 rows d1 by (intro exI [of _ rows]) (simp add: Pk f_def)
  next
    case True
    obtain res2 d2 where e2:
      "db_Exec (p r qInsert_chats) (with_chats (tbl_insert chat_key new)) d1 = (res2, d2)"
      by (meson surj_pair)
    with assms e1 res True have c': "c' = c\<lparr>chat_UpdatedAt := now\<rparr>" and "d' = d2"
        and "err_of res2 = None"
      by (simp_all add: unf)
    then obtain m where res2: "res2 = Inr m"
      by (cases res2) (simp_all add: err_of_def)
    from e2 res2 obtain d3 where d3: "chats d3 = chats d1" "messages d3 = messages d1"
      "devices d3 = devices d1" "schema_info d3 = schema_info d1"
      and a2: "with_chats (tbl_insert chat_key new) d3 = Inr (m, d2)"
      using db_Exec_Inr [of "p r qInsert_chats" "with_chats (tbl_insert chat_key new)" d1 m d2]
      by auto
    from with_chats_insert_Inr [OF a2] obtain rows3 where rows3: "chats d3 = Some rows3"
      and d2: "d2 = d3\<lparr>chats := Some (rows3 @ [new])\<rparr>"
      by blast
    from True n have none: "\<not> list_ex (\<lambda>row. chat_key row = chat_key c) rows"
      by (auto simp: Pk list_ex_iff filter_empty_conv)
    then have "map (\<lambda>row. if P row then f row else row) rows = rows"
      by (auto simp: Pk list_ex_iff intro: map_idI)
    with d1 d3 rows3 have "rows3 = rows" by simp
    with none d0 rows d1 d2 d3 c' \<open>d' = d2\<close> show ?thesis
      by (intro exI [of _ rows]) (simp add: new_def)
  qed
qed


lemma with_messages_update_Inr:
  "with_messages (tbl_update P f) d = Inr (n, d') \<Longrightarrow>
   \<exists>rows. messages d = Some rows \<and> n = length (filter P rows)
      \<and> d' = d\<lparr>messages := Some (map (\<lambda>row. if P row then f row else row) rows)\<rparr>"
  by (auto simp: with_messages_def tbl_update_def split: option.splits)

lemma with_messages_insert_Inr:
  "with_messages (tbl_insert key new) d = Inr (n, d') \<Longrightarrow>
   \<exists>rows. messages d = Some rows \<and> \<not> list_ex (\<lambda>old. key old = key new) rows
      \<and> d' = d\<lparr>messages := Some (rows @ [new])\<rparr>"
  by (auto simp: with_messages_def tbl_insert_def split: option.splits if_splits)

lemma StoreMessage_unfold:
  "msg_Content m \<noteq> [] \<or> msg_MediaType m \<noteq> [] \<Longrightarrow>
   StoreMessage r now m d =
     (case db_Exec (p r qUpdate_messages)
             (with_messages (tbl_update
                (\<lambda>row. msg_ID row = msg_ID m \<and> msg_ChatJID row = msg_ChatJID m
                            \<and> msg_DeviceID row = msg_DeviceID m)
                (\<lambda>row. row\<lparr>msg_Sender := msg_Sender m,
                                 msg_Content := msg_Content m,
                                 msg_Timestamp := msg_Timestamp m,
                                 msg_IsFromMe := msg_IsFromMe m,
                                 msg_MediaType := msg_MediaType m,
                                 msg_Filename := msg_Filename m,
                                 msg_URL := msg_URL m,
                                 msg_MediaKey := msg_MediaKey m,
                                 msg_FileSHA256 := msg_FileSHA256 m,
                                 msg_FileEncSHA256 := msg_FileEncSHA256 m,
                                 msg_FileLength := msg_FileLength m,
                                 msg_UpdatedAt := now\<rparr>))) d of
        (Inl err, d1) \<Rightarrow> (Some err, m\<lparr>msg_CreatedAt := now, msg_UpdatedAt := now\<rparr>, d1)
      | (Inr n, d1) \<Rightarrow>
          if n = 0 then
            (case db_Exec (p r qInsert_messages)
                  (with_messages (tbl_insert msg_key
                     (m\<lparr>msg_CreatedAt := now, msg_UpdatedAt := now\<rparr>))) d1 of
               (res2, d2) \<Rightarrow> (err_of res2, m\<lparr>msg_CreatedAt := now, msg_UpdatedAt := now\<rparr>, d2))
          else (None, m\<lparr>msg_CreatedAt := now, msg_UpdatedAt := now\<rparr>, d1))"
  by (auto simp add: StoreMessage_def Let_def split: prod.splits sum.splits)


lemma StoreMessage_cases:
  assumes "StoreMessage r now m d = (None, m', d')"
    and ne: "msg_Content m \<noteq> [] \<or> msg_MediaType m \<noteq> []"
  shows "\<exists>rows. messages d = Some rows \<and> chats d' = chats d \<and> devices d' = devices d
           \<and> schema_info d' = schema_info d
           \<and> messages d' = Some
               (if list_ex (\<lambda>row. msg_key row = msg_key m) rows
                then map (\<lambda>row. if msg_key row = msg_key m then row\<lparr>msg_Sender := msg_Sender m,
                                 msg_Content := msg_Content m,
                                 msg_Timestamp := msg_Timestamp m,
                                 msg_IsFromMe := msg_IsFromMe m,
                                 msg_MediaType := msg_MediaType m,
                                 msg_Filename := msg_Filename m,
                                 msg_URL := msg_URL m,
                                 msg_MediaKey := msg_MediaKey m,
                                 msg_FileSHA256 := msg_FileSHA256 m,
                                 msg_FileEncSHA256 := msg_FileEncSHA256 m,
                                 msg_FileLength := msg_FileLength m,
                                 msg_UpdatedAt := now\<rparr> else row) rows
                else rows @ [m\<lparr>msg_CreatedAt := now, msg_UpdatedAt := now\<rparr>])"
proof -
  define P where "P = (\<lambda>row::Message. msg_ID row = msg_ID m \<and> msg_ChatJID row = msg_ChatJID m
                            \<and> msg_DeviceID row = msg_DeviceID m)"
  define f where "f = (\<lambda>row::Message. row\<lparr>msg_Sender := msg_Sender m,
                                 msg_Content := msg_Content m,
                                 msg_Timestamp := msg_Timestamp m,
                                 msg_IsFromMe := msg_IsFromMe m,
                                 msg_MediaType := msg_MediaType m,
                                 msg_Filename := msg_Filename m,
                                 msg_URL := msg_URL m,
                                 msg_MediaKey := msg_MediaKey m,
                                 msg_FileSHA256 := msg_FileSHA256 m,
                                 msg_FileEncSHA256 := msg_FileEncSHA256 m,
                                 msg_FileLength := msg_FileLength m,
                                 msg_UpdatedAt := now\<rparr>)"
  define new where "new = m\<lparr>msg_CreatedAt := now, msg_UpdatedAt := now\<rparr>"
  have Pk: "P = (\<lambda>row. msg_key row = msg_key m)"
    by (auto simp: P_def msg_key_def)
  have newk: "msg_key new = msg_key m"
    by (simp add: new_def msg_key_def)
  note unf = StoreMessage_unfold [OF ne, of r now d, folded P_def f_def new_def]
  obtain res d1 where e1:
    "db_Exec (p r qUpdate_messages) (with_messages (tbl_update P f)) d = (res, d1)"
    by (meson surj_pair)
  from assms e1 obtain n where res: "res = Inr n"
    by (cases res) (simp_all add: unf)
  from e1 res obtain d0 where d0: "chats d0 = chats d" "messages d0 = messages d"
      "devices d0 = devices d" "schema_info d0 = schema_info d"
      and a1: "with_messages (tbl_update P f) d0 = Inr (n, d1)"
    using db_Exec_Inr [of "p r qUpdate_messages" "with_messages (tbl_update P f)" d n d1] by auto
  from with_messages_update_Inr [OF a1] obtain rows where rows: "messages d0 = Some rows"
      and n: "n = length (filter P rows)"
      and d1: "d1 = d0\<lparr>messages := Some (map (\<lambda>row. if P row then f row else row) rows)\<rparr>"
    by blast
  show ?thesis
  proof (cases "n = 0")
    case False
    with assms e1 res have "d' = d1"
      by (simp_all add: unf)
    moreover from False n have "list_ex (\<lambda>row. msg_key row = msg_key m) rows"
      by (auto simp: Pk list_ex_iff filter_empty_conv)
    ultimately show ?thesis
      using d0 rows d1 by (intro exI [of _ rows]) (simp add: Pk f_def)
  next
    case True
    obtain res2 d2 where e2:
      "db_Exec (p r qInsert_messages) (with_messages (tbl_insert msg_key new)) d1 = (res2, d2)"
      by (meson surj_pair)
    with assms e1 res True have "d' = d2" and "err_of res2 = None"
      by (simp_all add: unf)
    then obtain k where res2: "res2 = Inr k"
      by (cases res2) (simp_all add: err_of_def)
    from e2 res2 obtain d3 where d3: "chats d3 = chats d1" "messages d3 = messages d1"
      "devices d3 = devices d1" "schema_info d3 = schema_info d1"
      and a2: "with_messages (tbl_insert msg_key new) d3 = Inr (k, d2)"
      using db_Exec_Inr [of "p r qInsert_messages" "with_messages (tbl_insert msg_key new)" d1 k d2]
      by auto
    from with_messages_insert_Inr [OF a2] obtain rows3 where rows3: "messages d3 = Some rows3"
      and d2: "d2 = d3\<lparr>messages := Some (rows3 @ [new])\<rparr>"
      by blast
    from True n have none: "\<not> list_ex (\<lambda>row. msg_key row = msg_key m) rows"
      by (auto simp: Pk list_ex_iff filter_empty_conv)
    then have "map (\<lambda>row. if P row then f row else row) rows = rows"
      by (auto simp: Pk list_ex_iff intro: map_idI)
    with d1 d3 rows3 have "rows3 = rows" by simp
    with none d0 rows d1 d2 d3 \<open>d' = d2\<close> show ?thesis
      by (intro exI [of _ rows]) (simp add: new_def)
  qed
qed

lemma updated_message_row:
  "msg_key row = msg_key m \<Longrightarrow>
   (row\<lparr>msg_Sender := msg_Sender m,
                                 msg_Content := msg_Content m,
                                 msg_Timestamp := msg_Timestamp m,
                                 msg_IsFromMe := msg_IsFromMe m,
                                 msg_MediaType := msg_MediaType m,
                                 msg_Filename := msg_Filename m,
                                 msg_URL := msg_URL m,
                                 msg_MediaKey := msg_MediaKey m,
                                 msg_FileSHA256 := msg_FileSHA256 m,
                                 msg_FileEncSHA256 := msg_FileEncSHA256 m,
                                 msg_FileLength := msg_FileLength m,
                                 msg_UpdatedAt := now\<rparr>)\<lparr>msg_CreatedAt := now\<rparr> = m\<lparr>msg_CreatedAt := now, msg_UpdatedAt := now\<rparr>"
  by (cases row, cases m) (simp add: msg_key_def)


lemma upsert_no_faults_chats:
  assumes nf: "faults d = []" and t: "chats d = Some rows"
    and kf: "P = (\<lambda>row. key row = key new)"
  shows "\<exists>n d1. db_Exec q1 (with_chats (tbl_update P f)) d = (Inr n, d1) \<and> faults d1 = []
           \<and> chats d1 \<noteq> None
           \<and> (n = 0 \<longrightarrow> (\<exists>k d2. db_Exec q2 (with_chats (tbl_insert key new)) d1 = (Inr k, d2)
                  \<and> faults d2 = [] \<and> chats d2 \<noteq> None))"
proof -
  let ?d0 = "d\<lparr>sql_log := sql_log d @ [q1]\<rparr>"
  let ?rows1 = "map (\<lambda>row. if P row then f row else row) rows"
  let ?d1 = "?d0\<lparr>chats := Some ?rows1\<rparr>"
  let ?n = "length (filter P rows)"
  have e1: "db_Exec q1 (with_chats (tbl_update P f)) d = (Inr ?n, ?d1)"
    using nf t by (simp add: db_Exec_no_faults with_chats_def tbl_update_def)
  have f1: "faults ?d1 = []" "chats ?d1 \<noteq> None"
    using nf by simp_all
  have "\<exists>k d2. db_Exec q2 (with_chats (tbl_insert key new)) ?d1 = (Inr k, d2)
                  \<and> faults d2 = [] \<and> chats d2 \<noteq> None" if "?n = 0"
  proof -
    from that have none: "\<forall>row \<in> set rows. \<not> P row"
      by (simp add: filter_empty_conv)
    then have "?rows1 = rows"
      by (auto intro: map_idI)
    moreover from none have "\<not> list_ex (\<lambda>old. key old = key new) rows"
      by (simp add: list_ex_iff kf)
    ultimately show ?thesis
      using nf by (simp add: db_Exec_no_faults with_chats_def tbl_insert_def)
  qed
  with e1 f1 show ?thesis by blast
qed

lemma StoreChat_no_faults:
  assumes nf: "faults d = []" and t: "chats d = Some rows"
  shows "fst (StoreChat r now c d) = None \<and> faults (snd (snd (StoreChat r now c d))) = []
         \<and> chats (snd (snd (StoreChat r now c d))) \<noteq> None"
proof -
  define P where "P = (\<lambda>row::Chat. chat_JID row = chat_JID c \<and> chat_DeviceID row = chat_DeviceID c)"
  define f where "f = (\<lambda>row::Chat. row\<lparr>chat_Name := chat_Name c,
                            chat_LastMessageTime := chat_LastMessageTime c,
                            chat_EphemeralExpiration := chat_EphemeralExpiration c,
                            chat_UpdatedAt := now\<rparr>)"
  define new where "new = \<lparr>chat_DeviceID = chat_DeviceID c, chat_JID = chat_JID c,
                      chat_Name = chat_Name c,
                      chat_LastMessageTime = chat_LastMessageTime c,
                      chat_EphemeralExpiration = chat_EphemeralExpiration c,
                      chat_CreatedAt = now, chat_UpdatedAt = now\<rparr>"
  have kf: "P = (\<lambda>row. chat_key row = chat_key new)"
    by (auto simp: P_def new_def chat_key_def)
  note unf = StoreChat_unfold [of r now c d, folded P_def f_def new_def]
  from upsert_no_faults_chats [OF nf t kf, of "p r qUpdate_chats" f "p r qInsert_chats"]
  obtain n d1 where e1: "db_Exec (p r qUpdate_chats) (with_chats (tbl_update P f)) d = (Inr n, d1)"
    and d1: "faults d1 = []" "chats d1 \<noteq> None"
    and ins: "n = 0 \<longrightarrow> (\<exists>k d2. db_Exec (p r qInsert_chats) (with_chats (tbl_insert chat_key new)) d1
                = (Inr k, d2) \<and> faults d2 = [] \<and> chats d2 \<noteq> None)"
    by blast
  show ?thesis
  proof (cases "n = 0")
    case False
    with e1 d1 show ?thesis by (simp add: unf)
  next
    case True
    with ins obtain k d2 where
      "db_Exec (p r qInsert_chats) (with_chats (tbl_insert chat_key new)) d1 = (Inr k, d2)"
      "faults d2 = []" "chats d2 \<noteq> None"
      by blast
    with True e1 show ?thesis by (simp add: unf err_of_def)
  qed
qed

lemma db_Exec_chats_pk:
  assumes pres: "\<And>rows n rows'. distinct (map chat_key rows) \<Longrightarrow> f rows = Inr (n, rows')
                   \<Longrightarrow> distinct (map chat_key rows')"
    and pk: "chats_pk d" and ex: "db_Exec q (with_chats f) d = (res, d')"
  shows "chats_pk d'"
proof (cases res)
  case (Inl e)
  with ex have "chats d' = chats d" by (simp add: db_Exec_Inl)
  with pk show ?thesis by (simp add: chats_pk_def)
next
  case (Inr n)
  with ex obtain d0 where d0: "chats d0 = chats d" and a: "with_chats f d0 = Inr (n, d')"
    using db_Exec_Inr [of q "with_chats f" d n d'] by auto
  from with_chats_Inr [OF a] obtain rows rows' where
    "chats d0 = Some rows" "f rows = Inr (n, rows')" "d' = d0\<lparr>chats := Some rows'\<rparr>"
    by blast
  note r = this
  from d0 r(1) have "chats d = Some rows"
    by simp
  with pk have "distinct (map chat_key rows)"
    by (simp add: chats_pk_def)
  with pres [of rows n rows'] r(2) have "distinct (map chat_key rows')"
    by simp
  with r(3) show ?thesis
    by (simp add: chats_pk_def)
qed

lemma tbl_update_distinct:
  assumes "\<And>row. key (f row) = key row"
    and "distinct (map key rows)" and "tbl_update P f rows = Inr (n, rows')"
  shows "distinct (map key rows')"
proof -
  from assms(3) have "rows' = map (\<lambda>row. if P row then f row else row) rows"
    by (simp add: tbl_update_def)
  then have "map key rows' = map key rows"
    using distinct_map_update [of key f P rows] assms(1) by simp
  with assms(2) show ?thesis by simp
qed

lemma tbl_insert_distinct:
  assumes "distinct (map key rows)" and "tbl_insert key new rows = Inr (n, rows')"
  shows "distinct (map key rows')"
proof -
  from assms(2) have "rows' = rows @ [new]" and "\<forall>old \<in> set rows. key old \<noteq> key new"
    by (auto simp: tbl_insert_def list_ex_iff split: if_splits)
  with assms(1) show ?thesis
    by (auto simp: image_iff)
qed

lemma StoreChat_chats_pk:
  assumes pk: "chats_pk d"
  shows "chats_pk (snd (snd (StoreChat r now c d)))"
proof -
  define P where "P = (\<lambda>row::Chat. chat_JID row = chat_JID c \<and> chat_DeviceID row = chat_DeviceID c)"
  define f where "f = (\<lambda>row::Chat. row\<lparr>chat_Name := chat_Name c,
                            chat_LastMessageTime := chat_LastMessageTime c,
                            chat_EphemeralExpiration := chat_EphemeralExpiration c,
                            chat_UpdatedAt := now\<rparr>)"
  define new where "new = \<lparr>chat_DeviceID = chat_DeviceID c, chat_JID = chat_JID c,
                      chat_Name = chat_Name c,
                      chat_LastMessageTime = chat_LastMessageTime c,
                      chat_EphemeralExpiration = chat_EphemeralExpiration c,
                      chat_CreatedAt = now, chat_UpdatedAt = now\<rparr>"
  note unf = StoreChat_unfold [of r now c d, folded P_def f_def new_def]
  obtain res d1 where e1:
    "db_Exec (p r qUpdate_chats) (with_chats (tbl_update P f)) d = (res, d1)"
    by (meson surj_pair)
  obtain res2 d2 where e2:
    "db_Exec (p r qInsert_chats) (with_chats (tbl_insert chat_key new)) d1 = (res2, d2)"
    by (meson surj_pair)
  have fk: "\<And>row. chat_key (f row) = chat_key row"
    by (simp add: f_def chat_key_def)
  have pk1: "chats_pk d1"
    using db_Exec_chats_pk [OF _ pk e1] tbl_update_distinct [of chat_key f, OF fk] by blast
  have pk2: "chats_pk d2"
    using db_Exec_chats_pk [OF _ pk1 e2] tbl_insert_distinct [of chat_key] by blast
  show ?thesis
    using e1 e2 pk1 pk2 by (cases res) (simp_all add: unf)
qed

lemma upsert_no_faults_messages:
  assumes nf: "faults d = []" and t: "messages d = Some rows"
    and kf: "P = (\<lambda>row. key row = key new)"
  shows "\<exists>n d1. db_Exec q1 (with_messages (tbl_update P f)) d = (Inr n, d1) \<and> faults d1 = []
           \<and> messages d1 \<noteq> None
           \<and> (n = 0 \<longrightarrow> (\<exists>k d2. db_Exec q2 (with_messages (tbl_insert key new)) d1 = (Inr k, d2)
                  \<and> faults d2 = [] \<and> messages d2 \<noteq> None))"
proof -
  let ?d0 = "d\<lparr>sql_log := sql_log d @ [q1]\<rparr>"
  let ?rows1 = "map (\<lambda>row. if P row then f row else row) rows"
  let ?d1 = "?d0\<lparr>messages := Some ?rows1\<rparr>"
  let ?n = "length (filter P rows)"
  have e1: "db_Exec q1 (with_messages (tbl_update P f)) d = (Inr ?n, ?d1)"
    using nf t by (simp add: db_Exec_no_faults with_messages_def tbl_update_def)
  have f1: "faults ?d1 = []" "messages ?d1 \<noteq> None"
    using nf by simp_all
  have "\<exists>k d2. db_Exec q2 (with_messages (tbl_insert key new)) ?d1 = (Inr k, d2)
                  \<and> faults d2 = [] \<and> messages d2 \<noteq> None" if "?n = 0"
  proof -
    from that have none: "\<forall>row \<in> set rows. \<not> P row"
      by (simp add: filter_empty_conv)
    then have "?rows1 = rows"
      by (auto intro: map_idI)
    moreover from none have "\<not> list_ex (\<lambda>old. key old = key new) rows"
      by (simp add: list_ex_iff kf)
    ultimately show ?thesis
      using nf by (simp add: db_Exec_no_faults with_messages_def tbl_insert_def)
  qed
  with e1 f1 show ?thesis by blast
qed

lemma StoreMessage_no_faults:
  assumes nf: "faults d = []" and t: "messages d = Some rows"
  shows "fst (StoreMessage r now m d) = None \<and> faults (snd (snd (StoreMessage r now m d))) = []"
proof (cases "msg_Content m \<noteq> [] \<or> msg_MediaType m \<noteq> []")
  case False
  with nf show ?thesis by (simp add: StoreMessage_def)
next
  case ne: True
  define P where "P = (\<lambda>row::Message. msg_ID row = msg_ID m \<and> msg_ChatJID row = msg_ChatJID m
                            \<and> msg_DeviceID row = msg_DeviceID m)"
  define f where "f = (\<lambda>row::Message. row\<lparr>msg_Sender := msg_Sender m,
                                 msg_Content := msg_Content m,
                                 msg_Timestamp := msg_Timestamp m,
                                 msg_IsFromMe := msg_IsFromMe m,
                                 msg_MediaType := msg_MediaType m,
                                 msg_Filename := msg_Filename m,
                                 msg_URL := msg_URL m,
                                 msg_MediaKey := msg_MediaKey m,
                                 msg_FileSHA256 := msg_FileSHA256 m,
                                 msg_FileEncSHA256 := msg_FileEncSHA256 m,
                                 msg_FileLength := msg_FileLength m,
                                 msg_UpdatedAt := now\<rparr>)"
  define new where "new = m\<lparr>msg_CreatedAt := now, msg_UpdatedAt := now\<rparr>"
  have kf: "P = (\<lambda>row. msg_key row = msg_key new)"
    by (auto simp: P_def new_def msg_key_def)
  note unf = StoreMessage_unfold [OF ne, of r now d, folded P_def f_def new_def]
  from upsert_no_faults_messages [OF nf t kf, of "p r qUpdate_messages" f "p r qInsert_messages"]
  obtain n d1 where e1:
      "db_Exec (p r qUpdate_messages) (with_messages (tbl_update P f)) d = (Inr n, d1)"
    and d1: "faults d1 = []"
    and ins: "n = 0 \<longrightarrow> (\<exists>k d2. db_Exec (p r qInsert_messages)
                (with_messages (tbl_insert msg_key new)) d1 = (Inr k, d2) \<and> faults d2 = []
                   \<and> messages d2 \<noteq> None)"
    by blast
  show ?thesis
  proof (cases "n = 0")
    case False
    with e1 d1 show ?thesis by (simp add: unf)
  next
    case True
    with ins obtain k d2 where
      "db_Exec (p r qInsert_messages) (with_messages (tbl_insert msg_key new)) d1 = (Inr k, d2)"
      "faults d2 = []"
      by blast
    with True e1 show ?thesis by (simp add: unf err_of_def)
  qed
qed

lemma StoreMessage_persisted:
  assumes ok: "fst (StoreMessage r now m d) = None"
    and ne: "msg_Content m \<noteq> [] \<or> msg_MediaType m \<noteq> []"
  shows "\<exists>rows'. messages (snd (snd (StoreMessage r now m d))) = Some rows'
           \<and> list_ex (\<lambda>row. row\<lparr>msg_CreatedAt := now\<rparr>
                              = m\<lparr>msg_CreatedAt := now, msg_UpdatedAt := now\<rparr>) rows'"
proof -
  define g where "g = (\<lambda>row::Message. if msg_key row = msg_key m then row\<lparr>msg_Sender := msg_Sender m,
                                 msg_Content := msg_Content m,
                                 msg_Timestamp := msg_Timestamp m,
                                 msg_IsFromMe := msg_IsFromMe m,
                                 msg_MediaType := msg_MediaType m,
                                 msg_Filename := msg_Filename m,
                                 msg_URL := msg_URL m,
                                 msg_MediaKey := msg_MediaKey m,
                                 msg_FileSHA256 := msg_FileSHA256 m,
                                 msg_FileEncSHA256 := msg_FileEncSHA256 m,
                                 msg_FileLength := msg_FileLength m,
                                 msg_UpdatedAt := now\<rparr> else row)"
  define new where "new = m\<lparr>msg_CreatedAt := now, msg_UpdatedAt := now\<rparr>"
  let ?s = "StoreMessage r now m d"
  from ok have "StoreMessage r now m d = (None, fst (snd ?s), snd (snd ?s))"
    by (simp add: prod_eq_iff)
  from StoreMessage_cases [OF this ne] obtain rows where
    rows': "messages (snd (snd ?s)) = Some
               (if list_ex (\<lambda>row. msg_key row = msg_key m) rows then map g rows else rows @ [new])"
    unfolding g_def new_def by blast
  have gnew: "\<And>row. msg_key row = msg_key m \<Longrightarrow> (g row)\<lparr>msg_CreatedAt := now\<rparr> = new"
    unfolding g_def new_def using updated_message_row by simp
  have newnew: "new\<lparr>msg_CreatedAt := now\<rparr> = new"
    by (simp add: new_def)
  show ?thesis
  proof (cases "list_ex (\<lambda>row. msg_key row = msg_key m) rows")
    case True
    then obtain row where "row \<in> set rows" "msg_key row = msg_key m"
      by (auto simp: list_ex_iff)
    then have "g row \<in> set (map g rows)" and "(g row)\<lparr>msg_CreatedAt := now\<rparr> = new"
      using gnew by simp_all
    then have "list_ex (\<lambda>row. row\<lparr>msg_CreatedAt := now\<rparr> = new) (map g rows)"
      unfolding list_ex_iff by blast
    with True rows' show ?thesis
      unfolding new_def by simp
  next
    case False
    have "list_ex (\<lambda>row. row\<lparr>msg_CreatedAt := now\<rparr> = new) (rows @ [new])"
      using newnew by (simp add: list_ex_iff)
    with False rows' show ?thesis
      unfolding new_def by simp
  qed
qed

lemma db_QueryRow_eval:
  "db_QueryRow q sel d =
     (case faults d of
        [] \<Rightarrow> (case sel (d\<lparr>sql_log := sql_log d @ [q]\<rparr>) of
                 Inl e \<Rightarrow> Inl e | Inr [] \<Rightarrow> Inl ErrNoRows | Inr (row # _) \<Rightarrow> Inr row,
               d\<lparr>sql_log := sql_log d @ [q]\<rparr>)
      | None # fs \<Rightarrow> (case sel (d\<lparr>sql_log := sql_log d @ [q], faults := fs\<rparr>) of
                 Inl e \<Rightarrow> Inl e | Inr [] \<Rightarrow> Inl ErrNoRows | Inr (row # _) \<Rightarrow> Inr row,
               d\<lparr>sql_log := sql_log d @ [q], faults := fs\<rparr>)
      | Some diag # fs \<Rightarrow> (Inl (ErrEngine diag), d\<lparr>sql_log := sql_log d @ [q], faults := fs\<rparr>))"
  by (simp add: db_QueryRow_def db_Query_def next_fault_def
      split: list.splits option.splits sum.splits)

lemma GetChat_result:
  "fst (GetChat r jid d) = lookup_result zero_Chat (chats d) ''chats'' (\<lambda>c. chat_JID c = jid) d"
  by (simp add: GetChat_def db_QueryRow_eval select_from_def scanChat_def lookup_result_def
      split: list.splits option.splits)

lemma GetChatByDevice_result:
  "fst (GetChatByDevice r deviceID jid d)
     = lookup_result zero_Chat (chats d) ''chats''
         (\<lambda>c. chat_JID c = jid \<and> chat_DeviceID c = deviceID) d"
  by (simp add: GetChatByDevice_def db_QueryRow_eval select_from_def scanChat_def
      lookup_result_def split: list.splits option.splits)

lemma GetMessageByID_result:
  "fst (GetMessageByID r ident d)
     = lookup_result zero_Message (messages d) ''messages'' (\<lambda>m. msg_ID m = ident) d"
  by (simp add: GetMessageByID_def db_QueryRow_eval select_from_def scanMessage_def
      lookup_result_def split: list.splits option.splits)

lemma GetDeviceRecord_result:
  "fst (GetDeviceRecord r deviceID d)
     = lookup_result zero_DeviceRecord (devices d) ''devices'' (\<lambda>x. dev_DeviceID x = deviceID) d"
  by (simp add: GetDeviceRecord_def db_QueryRow_eval select_from_def
      lookup_result_def split: list.splits option.splits)

lemma lookup_result_not_found:
  "engine_answers d \<Longrightarrow> tbl = Some rows \<Longrightarrow> \<not> list_ex P rows \<Longrightarrow>
   lookup_result zero tbl name P d = (None, None)"
  by (auto simp: lookup_result_def engine_answers_def list_ex_iff filter_empty_conv
      split: list.splits option.splits)

lemma lookup_result_error:
  "snd (lookup_result zero tbl name P d) = Some e \<Longrightarrow>
   e \<noteq> ErrNoRows \<and> (\<not> engine_answers d \<or> tbl = None)"
  by (auto simp: lookup_result_def engine_answers_def split: list.splits option.splits)

lemma lookup_result_nil:
  "fst (lookup_result zero tbl name P d) = None \<Longrightarrow>
   snd (lookup_result zero tbl name P d) = None \<and> engine_answers d
   \<and> (\<exists>rows. tbl = Some rows \<and> \<not> list_ex P rows)"
  by (auto simp: lookup_result_def engine_answers_def list_ex_iff filter_empty_conv
      split: list.splits option.splits)

lemma db_Exec_with_messages_chats:
  "db_Exec q (with_messages f) d = (res, d') \<Longrightarrow> chats d' = chats d"
  by (auto simp: db_Exec_eval with_messages_def
      split: list.splits option.splits sum.splits prod.splits)

lemma StoreMessage_chats:
  "chats (snd (snd (StoreMessage r now m d))) = chats d"
proof (cases "msg_Content m \<noteq> [] \<or> msg_MediaType m \<noteq> []")
  case False
  then show ?thesis by (simp add: StoreMessage_def)
next
  case ne: True
  define P where "P = (\<lambda>row::Message. msg_ID row = msg_ID m \<and> msg_ChatJID row = msg_ChatJID m
                            \<and> msg_DeviceID row = msg_DeviceID m)"
  define f where "f = (\<lambda>row::Message. row\<lparr>msg_Sender := msg_Sender m,
                                 msg_Content := msg_Content m,
                                 msg_Timestamp := msg_Timestamp m,
                                 msg_IsFromMe := msg_IsFromMe m,
                                 msg_MediaType := msg_MediaType m,
                                 msg_Filename := msg_Filename m,
                                 msg_URL := msg_URL m,
                                 msg_MediaKey := msg_MediaKey m,
                                 msg_FileSHA256 := msg_FileSHA256 m,
                                 msg_FileEncSHA256 := msg_FileEncSHA256 m,
                                 msg_FileLength := msg_FileLength m,
                                 msg_UpdatedAt := now\<rparr>)"
  define new where "new = m\<lparr>msg_CreatedAt := now, msg_UpdatedAt := now\<rparr>"
  note unf = StoreMessage_unfold [OF ne, of r now d, folded P_def f_def new_def]
  obtain res d1 where e1:
    "db_Exec (p r qUpdate_messages) (with_messages (tbl_update P f)) d = (res, d1)"
    by (meson surj_pair)
  obtain res2 d2 where e2:
    "db_Exec (p r qInsert_messages) (with_messages (tbl_insert msg_key new)) d1 = (res2, d2)"
    by (meson surj_pair)
  have c1: "chats d1 = chats d"
    using db_Exec_with_messages_chats [OF e1] .
  have c2: "chats d2 = chats d"
    using db_Exec_with_messages_chats [OF e2] c1 by simp
  show ?thesis
    using e1 e2 c1 c2 by (cases res) (simp_all add: unf)
qed

lemma StoreChat_row:
  assumes st: "StoreChat r now c d = (None, c', d')" and pk: "chats_pk d"
  shows "\<exists>rows' row. chats d' = Some rows'
           \<and> filter (\<lambda>row. chat_key row = chat_key c) rows' = [row]
           \<and> chat_Name row = chat_Name c
           \<and> chat_LastMessageTime row = chat_LastMessageTime c"
proof -
  define g where "g = (\<lambda>row::Chat. if chat_key row = chat_key c
                     then row\<lparr>chat_Name := chat_Name c,
                            chat_LastMessageTime := chat_LastMessageTime c,
                            chat_EphemeralExpiration := chat_EphemeralExpiration c,
                            chat_UpdatedAt := now\<rparr> else row)"
  define new where "new = \<lparr>chat_DeviceID = chat_DeviceID c, chat_JID = chat_JID c,
                      chat_Name = chat_Name c,
                      chat_LastMessageTime = chat_LastMessageTime c,
                      chat_EphemeralExpiration = chat_EphemeralExpiration c,
                      chat_CreatedAt = now, chat_UpdatedAt = now\<rparr>"
  define K where "K = (\<lambda>row::Chat. chat_key row = chat_key c)"
  from StoreChat_cases [OF st] obtain rows where rows: "chats d = Some rows"
    and rows': "chats d' = Some (if list_ex K rows then map g rows else rows @ [new])"
    unfolding g_def new_def K_def by blast
  from pk rows have dist: "distinct (map chat_key rows)"
    by (simp add: chats_pk_def)
  have gk: "\<And>row. K (g row) = K row"
    by (simp add: g_def K_def chat_key_def)
  have gn: "\<And>row. K row \<Longrightarrow> chat_Name (g row) = chat_Name c
      \<and> chat_LastMessageTime (g row) = chat_LastMessageTime c"
    by (simp add: g_def K_def)
  have newk: "K new" and newn: "chat_Name new = chat_Name c"
      "chat_LastMessageTime new = chat_LastMessageTime c"
    by (simp_all add: new_def K_def chat_key_def)
  have "\<exists>rows' row. chats d' = Some rows' \<and> filter K rows' = [row]
           \<and> chat_Name row = chat_Name c
           \<and> chat_LastMessageTime row = chat_LastMessageTime c"
  proof (cases "list_ex K rows")
    case True
    have fm: "filter K (map g rows) = map g (filter K rows)"
      by (simp add: filter_map o_def gk)
    have "length (filter K rows) \<le> Suc 0"
      using distinct_key_filter_le1 [OF dist, of "chat_key c"] by (simp add: K_def)
    moreover from True have "filter K rows \<noteq> []"
      by (simp add: list_ex_iff filter_empty_conv)
    ultimately obtain row where one: "filter K rows = [row]"
      by (cases "filter K rows") auto
    then have "row \<in> set (filter K rows)" by simp
    then have "K row" by simp
    with gn have "chat_Name (g row) = chat_Name c
      \<and> chat_LastMessageTime (g row) = chat_LastMessageTime c" by simp
    moreover have "filter K (map g rows) = [g row]"
      using fm one by simp
    moreover have "chats d' = Some (map g rows)"
      using True rows' by simp
    ultimately show ?thesis by blast
  next
    case False
    then have "\<forall>row \<in> set rows. \<not> K row"
      by (simp add: list_ex_iff)
    then have "filter K rows = []"
      by (simp add: filter_empty_conv)
    then have "filter K (rows @ [new]) = [new]"
      using newk by simp
    moreover have "chats d' = Some (rows @ [new])"
      using False rows' by simp
    ultimately show ?thesis using newn by blast
  qed
  then show ?thesis unfolding K_def .
qed

lemma StoreMessage_chats_eq:
  "StoreMessage r now m d = (e, m', d') \<Longrightarrow> chats d' = chats d"
  using StoreMessage_chats [of r now m d] by simp

lemma CreateMessage_chats:
  "chats (snd (CreateMessage r ctx now1 now2 evt d))
     = chats (snd (snd (StoreChat r now1
         \<lparr>chat_DeviceID = snd (ingested_chat_key ctx evt),
          chat_JID = fst (ingested_chat_key ctx evt),
          chat_Name = GetChatNameWithPushName r (NormalizeJIDFromLID ctx (info_Chat (evt_Info evt)))
             (fst (ingested_chat_key ctx evt)) (jid_User (info_Sender (evt_Info evt)))
             (info_PushName (evt_Info evt)),
          chat_LastMessageTime = info_Timestamp (evt_Info evt),
          chat_EphemeralExpiration = 0, chat_CreatedAt = 0, chat_UpdatedAt = 0\<rparr> d)))"
  by (auto simp: CreateMessage_def Let_def ingested_chat_key_def
      split: prod.splits dest: StoreMessage_chats_eq)

lemma CreateMessage_example_chats:
  "chats (snd (CreateMessage postgres_repo example_context 1 2 (example_event pushName) fresh_db))
     = Some [\<lparr>chat_DeviceID = ''dev1'', chat_JID = ''42@s.whatsapp.net'',
          chat_Name = (if pushName \<noteq> [] then pushName else ''42''),
          chat_LastMessageTime = 100, chat_EphemeralExpiration = 0,
          chat_CreatedAt = 1, chat_UpdatedAt = 1\<rparr>]"
  by (simp add: CreateMessage_chats ingested_chat_key_def example_context_def example_event_def
      GetChatNameWithPushName_def StoreChat_def fresh_db_def with_chats_def tbl_update_def
      tbl_insert_def chat_key_def err_of_def db_Exec_eval)

lemma DeleteChat_postgres_rolls_back:
  "fst (DeleteChat postgres_repo ''42@s.whatsapp.net''
          (stocked_db [None, Some ''deadlock detected'', None, None])) = Return (Some ErrTxFailed)
   \<and> messages (snd (DeleteChat postgres_repo ''42@s.whatsapp.net''
          (stocked_db [None, Some ''deadlock detected'', None, None])))
       = Some [example_message ''Hi'' []]
   \<and> chats (snd (DeleteChat postgres_repo ''42@s.whatsapp.net''
          (stocked_db [None, Some ''deadlock detected'', None, None])))
       = Some [example_chat ''Alice'']"
  by (simp add: DeleteChat_def db_Begin_def tx_Exec_def tx_Commit_def next_fault_def
      rollback_def stocked_db_def fresh_db_def postgres_repo_def with_messages_def with_chats_def
      tbl_delete_def example_chat_def example_message_def)

lemma DeleteChat_no_faults_example:
  "fst (DeleteChat native_repo ''42@s.whatsapp.net'' (stocked_db [])) = Return None
   \<and> messages (snd (DeleteChat native_repo ''42@s.whatsapp.net'' (stocked_db []))) = Some []
   \<and> chats (snd (DeleteChat native_repo ''42@s.whatsapp.net'' (stocked_db []))) = Some []"
  by (simp add: DeleteChat_def db_Begin_def tx_Exec_def tx_Commit_def next_fault_def
      rollback_def stocked_db_def fresh_db_def native_repo_def with_messages_def with_chats_def
      tbl_delete_def example_chat_def example_message_def)

text \<open>
  The native-token engine keeps a transaction open after a failed statement: there
  the discarded error of the first \<open>DELETE\<close> lets \<open>DeleteChat\<close> commit the second
  alone.  A failed \<open>Begin\<close> makes the call panic on the nil transaction, with nothing
  deleted.
\<close>

lemma DeleteChat_native_engine_example:
  "fst (DeleteChat native_repo ''42@s.whatsapp.net''
          (stocked_db [None, Some ''database is locked'', None, None])) = Return None
   \<and> messages (snd (DeleteChat native_repo ''42@s.whatsapp.net''
          (stocked_db [None, Some ''database is locked'', None, None])))
       = Some [example_message ''Hi'' []]
   \<and> chats (snd (DeleteChat native_repo ''42@s.whatsapp.net''
          (stocked_db [None, Some ''database is locked'', None, None]))) = Some []
   \<and> fst (DeleteChat native_repo ''42@s.whatsapp.net''
          (stocked_db [Some ''connection refused''])) = Panic"
  by (simp add: DeleteChat_def db_Begin_def tx_Exec_def tx_Commit_def next_fault_def
      rollback_def stocked_db_def fresh_db_def native_repo_def with_messages_def with_chats_def
      tbl_delete_def example_chat_def example_message_def)

lemma next_fault_same_tables: "same_tables d (snd (next_fault d))"
  by (simp add: same_tables_def next_fault_snd_tables)

lemma same_tables_log: "same_tables d (d\<lparr>sql_log := l\<rparr>)"
  by (simp add: same_tables_def)

lemma same_tables_trans: "same_tables a b \<Longrightarrow> same_tables b c \<Longrightarrow> same_tables a c"
  by (simp add: same_tables_def)

lemma same_tables_call: "same_tables d (snd (next_fault (d\<lparr>sql_log := l\<rparr>)))"
  using next_fault_same_tables [of "d\<lparr>sql_log := l\<rparr>"]
  by (simp add: same_tables_def)

lemma db_Begin_result:
  assumes "db_Begin d = (res, d1)"
  shows "same_tables d d1 \<and> (\<forall>tx. res = Inr tx \<longrightarrow> tx_snapshot tx = d1 \<and> \<not> tx_failed tx)"
proof -
  let ?n = "next_fault (d\<lparr>sql_log := sql_log d @ [''BEGIN'']\<rparr>)"
  from assms have "d1 = snd ?n"
    by (auto simp: db_Begin_def split: prod.splits option.splits)
  moreover from assms have "\<forall>tx. res = Inr tx \<longrightarrow> tx_snapshot tx = d1 \<and> \<not> tx_failed tx"
    by (auto simp: db_Begin_def split: prod.splits option.splits)
  ultimately show ?thesis
    using same_tables_call [of d "sql_log d @ [''BEGIN'']"] by simp
qed

lemma tx_Exec_postgres:
  assumes pg: "isPostgres r" and ex: "tx_Exec r q a tx d = (res, tx', d')"
  shows "tx_snapshot tx' = tx_snapshot tx \<and> (tx_failed tx \<longrightarrow> tx_failed tx')
         \<and> (tx_failed tx' \<longrightarrow> same_tables d d')
         \<and> (\<not> tx_failed tx' \<longrightarrow> (\<exists>n d0. same_tables d d0 \<and> a d0 = Inr (n, d')))"
proof -
  let ?n = "next_fault (d\<lparr>sql_log := sql_log d @ [q]\<rparr>)"
  have st: "same_tables d (snd ?n)"
    by (rule same_tables_call)
  show ?thesis
  proof (cases "fst ?n")
    case (Some diag)
    with ex pg have "tx' = tx\<lparr>tx_failed := True\<rparr>" "d' = snd ?n"
      by (auto simp: tx_Exec_def split: prod.splits)
    with st show ?thesis by simp
  next
    case None
    show ?thesis
    proof (cases "tx_failed tx")
      case True
      with None ex have "tx' = tx" "d' = snd ?n"
        by (auto simp: tx_Exec_def split: prod.splits)
      with True st show ?thesis by simp
    next
      case False
      show ?thesis
      proof (cases "a (snd ?n)")
        case (Inl e)
        with None False ex pg have "tx' = tx\<lparr>tx_failed := True\<rparr>" "d' = snd ?n"
          by (auto simp: tx_Exec_def split: prod.splits)
        with st show ?thesis by simp
      next
        case (Inr x)
        obtain n d2 where x: "x = (n, d2)" by (cases x)
        with Inr None False ex have "tx' = tx" "d' = d2"
          by (auto simp: tx_Exec_def split: prod.splits)
        with False Inr x st show ?thesis by auto
      qed
    qed
  qed
qed

lemma tx_Commit_result:
  assumes "tx_Commit tx d = (err, d')"
  shows "(err = None \<longrightarrow> \<not> tx_failed tx \<and> same_tables d d')
         \<and> (err \<noteq> None \<longrightarrow> same_tables (tx_snapshot tx) d')"
proof -
  let ?n = "next_fault (d\<lparr>sql_log := sql_log d @ [''COMMIT'']\<rparr>)"
  have st: "same_tables d (snd ?n)"
    by (rule same_tables_call)
  have rb: "same_tables (tx_snapshot tx) (rollback tx (snd ?n))"
    by (simp add: same_tables_def rollback_def)
  show ?thesis
  proof (cases "fst ?n")
    case (Some diag)
    with assms have "err = Some (ErrEngine diag)" "d' = rollback tx (snd ?n)"
      by (auto simp: tx_Commit_def split: prod.splits)
    with rb show ?thesis by simp
  next
    case None
    show ?thesis
    proof (cases "tx_failed tx")
      case True
      with None assms have "err = Some ErrTxFailed" "d' = rollback tx (snd ?n)"
        by (auto simp: tx_Commit_def split: prod.splits)
      with rb show ?thesis by simp
    next
      case False
      with None assms have "err = None" "d' = snd ?n"
        by (auto simp: tx_Commit_def split: prod.splits)
      with False st show ?thesis by simp
    qed
  qed
qed

lemma with_messages_delete_Inr:
  "with_messages (tbl_delete P) d = Inr (n, d') \<Longrightarrow>
   \<exists>rows. messages d = Some rows \<and> d' = d\<lparr>messages := Some (filter (\<lambda>row. \<not> P row) rows)\<rparr>"
  by (auto simp: with_messages_def tbl_delete_def split: option.splits)

lemma with_chats_delete_Inr:
  "with_chats (tbl_delete P) d = Inr (n, d') \<Longrightarrow>
   \<exists>rows. chats d = Some rows \<and> d' = d\<lparr>chats := Some (filter (\<lambda>row. \<not> P row) rows)\<rparr>"
  by (auto simp: with_chats_def tbl_delete_def split: option.splits)

lemma DeleteChat_no_faults:
  assumes "faults d = []" and "messages d = Some ms" and "chats d = Some cs"
  shows "fst (DeleteChat r jid d) = Return None"
  using assms
  by (simp add: DeleteChat_def db_Begin_def tx_Exec_def tx_Commit_def next_fault_def
      with_messages_def with_chats_def tbl_delete_def)

lemma DeleteChat_postgres_example:
  "fst (DeleteChat postgres_repo ''42@s.whatsapp.net'' (stocked_db [])) = Return None
   \<and> messages (snd (DeleteChat postgres_repo ''42@s.whatsapp.net'' (stocked_db []))) = Some []
   \<and> chats (snd (DeleteChat postgres_repo ''42@s.whatsapp.net'' (stocked_db []))) = Some []"
  by (simp add: DeleteChat_def db_Begin_def tx_Exec_def tx_Commit_def next_fault_def
      rollback_def stocked_db_def fresh_db_def postgres_repo_def with_messages_def with_chats_def
      tbl_delete_def example_chat_def example_message_def)

lemma p_token_free: "CHR ''?'' \<notin> set q \<Longrightarrow> p r q = q"
  by (simp add: p_def p_loop_number_placeholders number_placeholders_id)

lemma p_qCreate_schema_info: "p r qCreate_schema_info = qCreate_schema_info"
  by (rule p_token_free) (simp add: qCreate_schema_info_def)

lemma ddl_qCreate_schema_info: "ddl_table_name qCreate_schema_info = Some ''schema_info''"
  by (simp add: ddl_table_name_def qCreate_schema_info_def)

lemma max_version_Max: "vs \<noteq> [] \<Longrightarrow> max_version vs = Max (set vs)"
proof (cases vs)
  case Nil
  assume "vs \<noteq> []"
  with Nil show ?thesis by simp
next
  case (Cons a list)
  then show ?thesis
    using Max.set_eq_fold [of a list] by (simp add: max_version_def)
qed

lemma run_ddl_keeps:
  assumes "run_ddl m d = Inr (n, d')" and "schema_info d = Some vs"
  shows "schema_info d' = Some vs \<and> faults d' = faults d \<and> sql_log d' = sql_log d"
  using assms
  by (auto simp: run_ddl_def split: option.splits if_splits)

lemma db_Exec_run_ddl:
  assumes nf: "faults d = []" and s: "schema_info d = Some vs"
  shows "schema_info (snd (db_Exec q (run_ddl m) d)) = Some vs
         \<and> faults (snd (db_Exec q (run_ddl m) d)) = []
         \<and> sql_log (snd (db_Exec q (run_ddl m) d)) = sql_log d @ [q]"
proof (cases "run_ddl m (d\<lparr>sql_log := sql_log d @ [q]\<rparr>)")
  case (Inl e)
  with nf s show ?thesis by (simp add: db_Exec_eval)
next
  case (Inr x)
  obtain n d' where x: "x = (n, d')" by (cases x)
  from run_ddl_keeps [OF Inr [unfolded x], of vs] s nf
  have "schema_info d' = Some vs \<and> faults d' = [] \<and> sql_log d' = sql_log d @ [q]"
    by simp
  with Inr x nf show ?thesis by (simp add: db_Exec_eval)
qed

lemma db_Exec_delete_version:
  assumes nf: "faults d = []" and s: "schema_info d = Some vs"
  shows "snd (db_Exec q (with_schema_info (tbl_delete P)) d)
           = d\<lparr>sql_log := sql_log d @ [q], schema_info := Some (filter (\<lambda>v. \<not> P v) vs)\<rparr>"
  using nf s by (simp add: db_Exec_eval with_schema_info_def tbl_delete_def)

lemma db_Exec_insert_version:
  assumes nf: "faults d = []" and s: "schema_info d = Some vs" and new: "k \<notin> set vs"
  shows "snd (db_Exec q (with_schema_info (tbl_insert (\<lambda>v. v) k)) d)
           = d\<lparr>sql_log := sql_log d @ [q], schema_info := Some (vs @ [k])\<rparr>"
  using nf s new by (simp add: db_Exec_eval with_schema_info_def tbl_insert_def list_ex_iff)

lemma migrate_step:
  fixes m :: string and r :: SQLRepository and i :: int and d :: database
  assumes nf: "faults d = []" and s: "schema_info d = Some vs"
  defines "d1 \<equiv> snd (db_Exec m (run_ddl m) d)"
  defines "d2 \<equiv> snd (db_Exec (p r qDelete_version)
                            (with_schema_info (tbl_delete (\<lambda>v. v = i + 1))) d1)"
  defines "d3 \<equiv> snd (db_Exec (p r qInsert_version)
                            (with_schema_info (tbl_insert (\<lambda>v. v) (i + 1))) d2)"
  shows "faults d3 = [] \<and> schema_info d3 = Some (filter (\<lambda>v. v \<noteq> i + 1) vs @ [i + 1])
         \<and> sql_log d3 = sql_log d @ [m, p r qDelete_version, p r qInsert_version]"
proof -
  from db_Exec_run_ddl [OF nf s, of m m]
  have a: "schema_info d1 = Some vs" "faults d1 = []" "sql_log d1 = sql_log d @ [m]"
    by (simp_all add: d1_def)
  from db_Exec_delete_version [OF a(2) a(1), of "p r qDelete_version" "\<lambda>v. v = i + 1"]
  have b: "d2 = d1\<lparr>sql_log := sql_log d1 @ [p r qDelete_version],
                    schema_info := Some (filter (\<lambda>v. v \<noteq> i + 1) vs)\<rparr>"
    by (simp add: d2_def)
  then have b': "faults d2 = []" "schema_info d2 = Some (filter (\<lambda>v. v \<noteq> i + 1) vs)"
    "sql_log d2 = sql_log d @ [m, p r qDelete_version]"
    using a by simp_all
  have "i + 1 \<notin> set (filter (\<lambda>v. v \<noteq> i + 1) vs)" by simp
  from db_Exec_insert_version [OF b'(1) b'(2) this, of "p r qInsert_version"]
  have "d3 = d2\<lparr>sql_log := sql_log d2 @ [p r qInsert_version],
                    schema_info := Some (filter (\<lambda>v. v \<noteq> i + 1) vs @ [i + 1])\<rparr>"
    by (simp add: d3_def)
  with b' show ?thesis by simp
qed

lemma migrate_loop_done:
  "int (length migs) \<le> i \<Longrightarrow> migrate_loop r migs i d = (Return (), d)"
  by (simp add: migrate_loop.simps [of r migs i d])

lemma migrate_loop_panic:
  "i < 0 \<Longrightarrow> migrate_loop r migs i d = (Panic, d)"
  by (simp add: migrate_loop.simps [of r migs i d])

lemma migrate_loop_no_faults:
  assumes "faults d = []" and "schema_info d = Some vs" and "0 \<le> i"
  shows "\<exists>d' vs'. migrate_loop r migs i d = (Return (), d') \<and> faults d' = []
           \<and> schema_info d' = Some vs'
           \<and> set vs' = set vs \<union> {i + 1..int (length migs)}
           \<and> sql_log d' = sql_log d @ concat (map
                 (\<lambda>k. [migs ! k, p r qDelete_version, p r qInsert_version])
                 [nat i..<length migs])"
  using assms
proof (induction r migs i d arbitrary: vs rule: migrate_loop.induct)
  case (1 r migs i d)
  show ?case
  proof (cases "i < int (length migs)")
    case False
    then have "migrate_loop r migs i d = (Return (), d)"
      by (simp add: migrate_loop_done)
    moreover from False have "{i + 1..int (length migs)} = {}" "[nat i..<length migs] = []"
      by simp_all
    ultimately show ?thesis
      using "1.prems" by simp
  next
    case True
    define d1 where "d1 = snd (db_Exec (migs ! nat i) (run_ddl (migs ! nat i)) d)"
    define d2 where "d2 = snd (db_Exec (p r qDelete_version)
                            (with_schema_info (tbl_delete (\<lambda>v. v = i + 1))) d1)"
    define d3 where "d3 = snd (db_Exec (p r qInsert_version)
                            (with_schema_info (tbl_insert (\<lambda>v. v) (i + 1))) d2)"
    define vs3 where "vs3 = filter (\<lambda>v. v \<noteq> i + 1) vs @ [i + 1]"
    have nneg: "\<not> i < 0" using "1.prems" by simp
    from migrate_step [OF "1.prems"(1,2), where m = "migs ! nat i" and r = r and i = i]
    have st: "faults d3 = []" "schema_info d3 = Some vs3"
      "sql_log d3 = sql_log d @ [migs ! nat i, p r qDelete_version, p r qInsert_version]"
      by (simp_all add: d1_def d2_def d3_def vs3_def)
    have "0 \<le> i + 1" using "1.prems" by simp
    note ih = "1.IH" [OF True nneg d1_def d2_def d3_def st(1) st(2) this]
    define rest where "rest = concat (map
                 (\<lambda>k. [migs ! k, p r qDelete_version, p r qInsert_version])
                 [nat (i + 1)..<length migs])"
    obtain d' vs' where r: "migrate_loop r migs (i + 1) d3 = (Return (), d')" "faults d' = []"
      "schema_info d' = Some vs'" "set vs' = set vs3 \<union> {i + 1 + 1..int (length migs)}"
      "sql_log d' = sql_log d3 @ rest"
      using ih unfolding rest_def by blast
    have unf: "migrate_loop r migs i d = migrate_loop r migs (i + 1) d3"
      using True nneg
      by (simp add: migrate_loop.simps [of r migs i d] d1_def d2_def d3_def Let_def)
    have s3: "set vs3 = insert (i + 1) (set vs)"
      by (auto simp: vs3_def)
    have iv: "{i + 1..int (length migs)} = insert (i + 1) {i + 1 + 1..int (length migs)}"
      using True by auto
    have sets: "set vs' = set vs \<union> {i + 1..int (length migs)}"
      unfolding r(4) s3 iv by blast
    have "nat i < length migs" using True "1.prems" by simp
    then have "[nat i..<length migs] = nat i # [Suc (nat i)..<length migs]"
      by (rule upt_conv_Cons)
    moreover have "Suc (nat i) = nat (i + 1)"
      using "1.prems" by simp
    ultimately have "concat (map
                 (\<lambda>k. [migs ! k, p r qDelete_version, p r qInsert_version])
                 [nat i..<length migs])
         = [migs ! nat i, p r qDelete_version, p r qInsert_version] @ rest"
      unfolding rest_def by simp
    then have logs: "sql_log d' = sql_log d @ concat (map
                 (\<lambda>k. [migs ! k, p r qDelete_version, p r qInsert_version])
                 [nat i..<length migs])"
      unfolding r(5) st(3) by simp
    from unf r(1) have run: "migrate_loop r migs i d = (Return (), d')"
      by simp
    from run r(2) r(3) sets logs show ?thesis
      by blast
  qed
qed

lemma getSchemaVersion_no_faults:
  assumes nf: "faults d = []"
  shows "getSchemaVersion r d =
     (recorded_version d,
      d\<lparr>schema_info := Some (case schema_info d of None \<Rightarrow> [] | Some vs \<Rightarrow> vs),
        sql_log := sql_log d @ [p r qCreate_schema_info, qSelect_version]\<rparr>)"
  using nf
  by (cases "schema_info d")
     (simp_all add: getSchemaVersion_def db_Exec_eval db_QueryRow_eval p_qCreate_schema_info
       run_ddl_def ddl_qCreate_schema_info select_max_version_def recorded_version_def
       max_version_def)

lemma max_version_le:
  assumes "v \<in> set vs"
  shows "v \<le> max_version vs"
proof -
  from assms have "vs \<noteq> []" by auto
  then show ?thesis
    using assms by (simp add: max_version_Max)
qed

lemma max_version_after:
  assumes s: "set vs' = set vs \<union> {max_version vs + 1..L}" and nn: "0 \<le> max_version vs"
  shows "max_version vs' = max (max_version vs) L"
proof (cases "max_version vs < L")
  case False
  then have e: "set vs' = set vs"
    using s by simp
  show ?thesis
  proof (cases "vs = []")
    case True
    with e have "vs' = []" by simp
    with True False show ?thesis
      by (simp add: max_version_def)
  next
    case ne: False
    with e have "vs' \<noteq> []" by auto
    with ne e have "max_version vs' = max_version vs"
      by (simp add: max_version_Max)
    with False show ?thesis
      by simp
  qed
next
  case True
  then have "L \<in> set vs'"
    using s by simp
  then have ne: "vs' \<noteq> []" by auto
  have "Max (set vs') = L"
  proof (rule Max_eqI)
    show "finite (set vs')" by simp
    show "L \<in> set vs'" by fact
    fix y
    assume "y \<in> set vs'"
    with s have "y \<in> set vs \<or> y \<le> L" by auto
    then show "y \<le> L"
      using max_version_le [of y vs] True by auto
  qed
  with ne True show ?thesis
    by (simp add: max_version_Max)
qed

lemma InitializeSchema_unfold:
  "InitializeSchema r d =
     (case migrate_loop r (getMigrations r) (fst (getSchemaVersion r d))
             (snd (getSchemaVersion r d)) of
        (Return u, d2) \<Rightarrow> (Return None, d2)
      | (Panic, d2) \<Rightarrow> (Panic, d2))"
  by (simp add: InitializeSchema_def Let_def split: prod.splits)

lemma InitializeSchema_no_faults:
  assumes nf: "faults d = []" and nn: "0 \<le> recorded_version d"
  shows "\<exists>d1 vs1. InitializeSchema r d = (Return None, d1) \<and> faults d1 = []
           \<and> schema_info d1 = Some vs1
           \<and> set vs1 = (case schema_info d of None \<Rightarrow> {} | Some vs \<Rightarrow> set vs)
                 \<union> {recorded_version d + 1..int (length (getMigrations r))}
           \<and> recorded_version d1 = max (recorded_version d) (int (length (getMigrations r)))
           \<and> sql_log d1 = sql_log d @ [p r qCreate_schema_info, qSelect_version]
                 @ concat (map (\<lambda>k. [getMigrations r ! k, p r qDelete_version, p r qInsert_version])
                     [nat (recorded_version d)..<length (getMigrations r)])"
proof -
  define vs0 where "vs0 = (case schema_info d of None \<Rightarrow> [] | Some vs \<Rightarrow> vs)"
  define da where "da = d\<lparr>schema_info := Some vs0,
        sql_log := sql_log d @ [p r qCreate_schema_info, qSelect_version]\<rparr>"
  have gv: "getSchemaVersion r d = (recorded_version d, da)"
    unfolding da_def vs0_def by (rule getSchemaVersion_no_faults [OF nf])
  have v0: "recorded_version d = max_version vs0"
    by (simp add: recorded_version_def vs0_def max_version_def split: option.splits)
  have s0: "set vs0 = (case schema_info d of None \<Rightarrow> {} | Some vs \<Rightarrow> set vs)"
    by (simp add: vs0_def split: option.splits)
  have da: "faults da = []" "schema_info da = Some vs0"
    "sql_log da = sql_log d @ [p r qCreate_schema_info, qSelect_version]"
    using nf by (simp_all add: da_def)
  from migrate_loop_no_faults [OF da(1) da(2) nn, of r "getMigrations r"]
  obtain d1 vs1 where l: "migrate_loop r (getMigrations r) (recorded_version d) da = (Return (), d1)"
    "faults d1 = []" "schema_info d1 = Some vs1"
    "set vs1 = set vs0 \<union> {recorded_version d + 1..int (length (getMigrations r))}"
    "sql_log d1 = sql_log da @ concat (map
        (\<lambda>k. [getMigrations r ! k, p r qDelete_version, p r qInsert_version])
        [nat (recorded_version d)..<length (getMigrations r)])"
    by blast
  have run: "InitializeSchema r d = (Return None, d1)"
    using gv l(1) by (simp add: InitializeSchema_unfold)
  have mx: "max_version vs1 = max (max_version vs0) (int (length (getMigrations r)))"
    using max_version_after [of vs1 vs0 "int (length (getMigrations r))"] l(4) nn
    by (simp add: v0)
  have "recorded_version d1 = max_version vs1"
    using l(3) by (simp add: recorded_version_def)
  with mx have rv: "recorded_version d1 = max (recorded_version d) (int (length (getMigrations r)))"
    unfolding v0 by simp
  have lg: "sql_log d1 = sql_log d @ [p r qCreate_schema_info, qSelect_version]
                 @ concat (map (\<lambda>k. [getMigrations r ! k, p r qDelete_version, p r qInsert_version])
                     [nat (recorded_version d)..<length (getMigrations r)])"
    unfolding l(5) da(3) by simp
  from run l(2) l(3) l(4) [unfolded s0] rv lg show ?thesis
    by blast
qed

lemma InitializeSchema_panics:
  assumes nf: "faults d = []" and neg: "recorded_version d < 0"
  shows "fst (InitializeSchema r d) = Panic"
  using neg
  by (simp add: InitializeSchema_unfold getSchemaVersion_no_faults [OF nf] migrate_loop_panic)

lemma InitializeSchema_up_to_date:
  assumes nf: "faults d = []" and tbl: "schema_info d = Some vs"
    and cur: "int (length (getMigrations r)) \<le> recorded_version d"
  shows "InitializeSchema r d
           = (Return None, d\<lparr>sql_log := sql_log d @ [p r qCreate_schema_info, qSelect_version]\<rparr>)"
proof -
  have "d\<lparr>schema_info := Some vs,
          sql_log := sql_log d @ [p r qCreate_schema_info, qSelect_version]\<rparr>
        = d\<lparr>sql_log := sql_log d @ [p r qCreate_schema_info, qSelect_version]\<rparr>"
    using tbl by (cases d) simp
  then show ?thesis
    using cur tbl
    by (simp add: InitializeSchema_unfold getSchemaVersion_no_faults [OF nf] migrate_loop_done)
qed

lemma length_getMigrations: "length (getMigrations r) = 3"
  by (simp add: getMigrations_def Let_def)

lemma ddl_names:
  "map ddl_table_name (getMigrations r) = [Some ''chats'', Some ''messages'', Some ''devices'']"
  by (simp add: getMigrations_def Let_def ddl_table_name_def)

lemma like_match_percent: "like_match pg ''%'' t"
  by (induction t) simp_all

lemma like_match_literal_prefix:
  "meta_free pg s \<Longrightarrow>
   like_match pg (s @ ''%'') t \<longleftrightarrow> (\<exists>u post. t = u @ post \<and> list_all2 (like_char pg) s u)"
proof (induction s arbitrary: t)
  case Nil
  then show ?case by (simp add: like_match_percent)
next
  case (Cons q qs)
  then have q: "q \<noteq> CHR ''%''" "q \<noteq> CHR ''_''" "\<not> (pg \<and> q = CHR 0x5C)"
    and rest: "meta_free pg qs"
    by (simp_all add: meta_free_def)
  show ?case
  proof (cases t)
    case Nil
    with q show ?thesis by simp
  next
    case (Cons c cs)
    have "like_match pg ((q # qs) @ ''%'') (c # cs)
            \<longleftrightarrow> like_char pg q c \<and> like_match pg (qs @ ''%'') cs"
      using q by auto
    also have "\<dots> \<longleftrightarrow> like_char pg q c
                  \<and> (\<exists>u post. cs = u @ post \<and> list_all2 (like_char pg) qs u)"
      using Cons.IH [OF rest, of cs] by simp
    also have "\<dots> \<longleftrightarrow> (\<exists>u post. c # cs = u @ post \<and> list_all2 (like_char pg) (q # qs) u)"
    proof
      assume "like_char pg q c \<and> (\<exists>u post. cs = u @ post \<and> list_all2 (like_char pg) qs u)"
      then obtain u post where "like_char pg q c" "cs = u @ post" "list_all2 (like_char pg) qs u"
        by blast
      then have "c # cs = (c # u) @ post \<and> list_all2 (like_char pg) (q # qs) (c # u)"
        by simp
      then show "\<exists>u post. c # cs = u @ post \<and> list_all2 (like_char pg) (q # qs) u"
        by blast
    next
      assume "\<exists>u post. c # cs = u @ post \<and> list_all2 (like_char pg) (q # qs) u"
      then obtain u post where e: "c # cs = u @ post" and l: "list_all2 (like_char pg) (q # qs) u"
        by blast
      from l obtain c' u' where u: "u = c' # u'" "like_char pg q c'" "list_all2 (like_char pg) qs u'"
        by (auto simp: list_all2_Cons1)
      with e have "c' = c" "cs = u' @ post" by simp_all
      with u show "like_char pg q c \<and> (\<exists>u post. cs = u @ post \<and> list_all2 (like_char pg) qs u)"
        by blast
    qed
    finally show ?thesis
      using Cons by simp
  qed
qed

lemma like_match_percent_first:
  "like_match pg (CHR ''%'' # pat) t \<longleftrightarrow> (\<exists>pre rest. t = pre @ rest \<and> like_match pg pat rest)"
proof (induction t)
  case Nil
  show ?case by simp
next
  case (Cons c cs)
  have "like_match pg (CHR ''%'' # pat) (c # cs)
          \<longleftrightarrow> like_match pg pat (c # cs) \<or> like_match pg (CHR ''%'' # pat) cs"
    by simp
  also have "\<dots> \<longleftrightarrow> like_match pg pat (c # cs)
                \<or> (\<exists>pre rest. cs = pre @ rest \<and> like_match pg pat rest)"
    using Cons.IH by simp
  also have "\<dots> \<longleftrightarrow> (\<exists>pre rest. c # cs = pre @ rest \<and> like_match pg pat rest)"
  proof
    assume "like_match pg pat (c # cs) \<or> (\<exists>pre rest. cs = pre @ rest \<and> like_match pg pat rest)"
    then show "\<exists>pre rest. c # cs = pre @ rest \<and> like_match pg pat rest"
    proof
      assume "like_match pg pat (c # cs)"
      then have "c # cs = [] @ (c # cs) \<and> like_match pg pat (c # cs)" by simp
      then show ?thesis by blast
    next
      assume "\<exists>pre rest. cs = pre @ rest \<and> like_match pg pat rest"
      then obtain pre rest where "cs = pre @ rest" "like_match pg pat rest" by blast
      then have "c # cs = (c # pre) @ rest \<and> like_match pg pat rest" by simp
      then show ?thesis by blast
    qed
  next
    assume "\<exists>pre rest. c # cs = pre @ rest \<and> like_match pg pat rest"
    then obtain pre rest where e: "c # cs = pre @ rest" and l: "like_match pg pat rest"
      by blast
    show "like_match pg pat (c # cs) \<or> (\<exists>pre rest. cs = pre @ rest \<and> like_match pg pat rest)"
    proof (cases pre)
      case Nil
      with e l show ?thesis by simp
    next
      case (Cons x xs)
      with e have "cs = xs @ rest" by simp
      with l show ?thesis by blast
    qed
  qed
  finally show ?case .
qed

lemma like_match_contains:
  assumes "meta_free pg s"
  shows "like_match pg (''%'' @ s @ ''%'') t
           \<longleftrightarrow> (\<exists>pre u post. t = pre @ u @ post \<and> list_all2 (like_char pg) s u)"
proof -
  have "like_match pg (''%'' @ s @ ''%'') t
          \<longleftrightarrow> (\<exists>pre rest. t = pre @ rest \<and> like_match pg (s @ ''%'') rest)"
    using like_match_percent_first [of pg "s @ ''%''" t] by simp
  also have "\<dots> \<longleftrightarrow> (\<exists>pre rest. t = pre @ rest
                 \<and> (\<exists>u post. rest = u @ post \<and> list_all2 (like_char pg) s u))"
    using like_match_literal_prefix [OF assms] by simp
  also have "\<dots> \<longleftrightarrow> (\<exists>pre u post. t = pre @ u @ post \<and> list_all2 (like_char pg) s u)"
    by blast
  finally show ?thesis .
qed

lemma strings_Contains_iff:
  "strings_Contains t s \<longleftrightarrow> (\<exists>pre post. t = pre @ s @ post)"
proof (induction t)
  case Nil
  show ?case by auto
next
  case (Cons c cs)
  show ?case
  proof
    assume "strings_Contains (c # cs) s"
    then have "prefix s (c # cs) \<or> strings_Contains cs s" by simp
    then show "\<exists>pre post. c # cs = pre @ s @ post"
    proof
      assume "prefix s (c # cs)"
      then obtain post where "c # cs = [] @ s @ post"
        by (auto simp: prefix_def)
      then show ?thesis by blast
    next
      assume "strings_Contains cs s"
      with Cons.IH obtain pre post where "cs = pre @ s @ post" by blast
      then have "c # cs = (c # pre) @ s @ post" by simp
      then show ?thesis by blast
    qed
  next
    assume "\<exists>pre post. c # cs = pre @ s @ post"
    then obtain pre post where e: "c # cs = pre @ s @ post" by blast
    show "strings_Contains (c # cs) s"
    proof (cases pre)
      case Nil
      with e have "prefix s (c # cs)" by (simp add: prefix_def)
      then show ?thesis by simp
    next
      case (Cons x xs)
      with e have "cs = xs @ s @ post" by simp
      with Cons.IH have "strings_Contains cs s" by blast
      then show ?thesis by simp
    qed
  qed
qed

lemma like_char_lower: "like_char pg q c \<Longrightarrow> ascii_lower q = ascii_lower c"
  by (simp add: like_char_def split: if_splits)

lemma like_char_refl: "like_char pg c c"
  by (simp add: like_char_def)

lemma like_chars_lower:
  "list_all2 (like_char pg) s u \<Longrightarrow> map ascii_lower s = map ascii_lower u"
  by (induction rule: list_all2_induct) (simp_all add: like_char_lower)

lemma like_match_sound:
  assumes mf: "meta_free pg s" and l: "like_match pg (''%'' @ s @ ''%'') t"
  shows "contains_ci s t"
proof -
  from l like_match_contains [OF mf, of t] obtain pre u post where
    t: "t = pre @ u @ post" and u: "list_all2 (like_char pg) s u"
    by blast
  from u have "map ascii_lower s = map ascii_lower u"
    by (rule like_chars_lower)
  with t have "map ascii_lower t = map ascii_lower pre @ map ascii_lower s @ map ascii_lower post"
    by simp
  then show ?thesis
    unfolding contains_ci_def strings_Contains_iff by blast
qed

lemma like_match_literal:
  assumes mf: "meta_free pg s" and c: "strings_Contains t s"
  shows "like_match pg (''%'' @ s @ ''%'') t"
proof -
  from c obtain pre post where "t = pre @ s @ post"
    unfolding strings_Contains_iff by blast
  moreover have "list_all2 (like_char pg) s s"
    by (simp add: list_all2_same like_char_refl)
  ultimately show ?thesis
    unfolding like_match_contains [OF mf] by blast
qed

lemma db_Query_eval:
  "db_Query q sel d =
     (case faults d of
        [] \<Rightarrow> (sel (d\<lparr>sql_log := sql_log d @ [q]\<rparr>), d\<lparr>sql_log := sql_log d @ [q]\<rparr>)
      | None # fs \<Rightarrow> (sel (d\<lparr>sql_log := sql_log d @ [q], faults := fs\<rparr>),
                      d\<lparr>sql_log := sql_log d @ [q], faults := fs\<rparr>)
      | Some diag # fs \<Rightarrow> (Inl (ErrEngine diag), d\<lparr>sql_log := sql_log d @ [q], faults := fs\<rparr>))"
  by (simp add: db_Query_def next_fault_def split: list.splits option.splits)

lemma GetChats_result:
  assumes ea: "engine_answers d" and tbl: "chats d = Some rows"
  shows "fst (GetChats r flt d)
           = (limit_rows (flt_Limit flt)
                (order_by_last_message_desc (filter (chat_selected r flt) rows)), None)"
proof -
  have sel: "\<And>c. list_all (\<lambda>cond. snd cond c)
          ((if flt_SearchName flt \<noteq> []
             then [(''c.name LIKE ?'',
                    \<lambda>c. like_match (isPostgres r) (''%'' @ flt_SearchName flt @ ''%'')
                           (chat_Name c))]
             else [])
            @ (if flt_DeviceID flt \<noteq> []
               then [(''c.device_id = ?'', \<lambda>c. chat_DeviceID c = flt_DeviceID flt)]
               else []))
        = chat_selected r flt c"
    by (simp add: chat_selected_def)
  show ?thesis
  proof (cases "faults d")
    case Nil
    with tbl show ?thesis
      unfolding GetChats_def Let_def sel by (simp add: db_Query_eval)
  next
    case (Cons f fs)
    with ea have "f = None"
      by (cases f) (simp_all add: engine_answers_def)
    with Cons tbl show ?thesis
      unfolding GetChats_def Let_def sel by (simp add: db_Query_eval)
  qed
qed

lemma ascii_lower_examples:
  "map ascii_lower ''Alice'' = ''alice''" "map ascii_lower ''alice'' = ''alice''"
  "map ascii_lower ''_'' = ''_''" "map ascii_lower ''lic'' = ''lic''"
  by code_simp+

text \<open>
  On Postgres \<open>LIKE\<close> compares letters exactly (\<open>SearchMessages\<close> lowers both
  sides, \<open>GetChats\<close> does not), and the cap keeps the most recent rows.
\<close>

lemma GetChats_postgres_case_sensitive:
  "fst (GetChats postgres_repo \<lparr>flt_SearchName = ''alice'', flt_DeviceID = [], flt_Limit = 0\<rparr>
          (stocked_db [])) = ([], None)
   \<and> contains_ci ''alice'' (chat_Name (example_chat ''Alice''))"
proof -
  have ea: "engine_answers (stocked_db [])"
    by (simp add: engine_answers_def stocked_db_def)
  have tbl: "chats (stocked_db []) = Some [example_chat ''Alice'']"
    by (simp add: stocked_db_def)
  have sel: "\<not> chat_selected postgres_repo
      \<lparr>flt_SearchName = ''alice'', flt_DeviceID = [], flt_Limit = 0\<rparr> (example_chat ''Alice'')"
    by (simp add: chat_selected_def postgres_repo_def example_chat_def like_char_def)
  have "fst (GetChats postgres_repo \<lparr>flt_SearchName = ''alice'', flt_DeviceID = [], flt_Limit = 0\<rparr>
          (stocked_db [])) = ([], None)"
    unfolding GetChats_result [OF ea tbl]
    by (simp add: sel order_by_last_message_desc_def limit_rows_def)
  moreover have "contains_ci ''alice'' (chat_Name (example_chat ''Alice''))"
    by code_simp
  ultimately show ?thesis by simp
qed

lemma GetChats_cap_example:
  "fst (GetChats postgres_repo \<lparr>flt_SearchName = ''Al'', flt_DeviceID = [], flt_Limit = 1\<rparr>
          two_chats_db)
     = ([(example_chat ''Alina'')\<lparr>chat_JID := ''43@s.whatsapp.net'',
            chat_LastMessageTime := 200\<rparr>], None)"
proof -
  have ea: "engine_answers two_chats_db"
    by (simp add: engine_answers_def two_chats_db_def fresh_db_def)
  have tbl: "chats two_chats_db = Some [example_chat ''Alice'',
     (example_chat ''Alina'')\<lparr>chat_JID := ''43@s.whatsapp.net'', chat_LastMessageTime := 200\<rparr>]"
    by (simp add: two_chats_db_def)
  show ?thesis
    unfolding GetChats_result [OF ea tbl]
    by (simp add: chat_selected_def postgres_repo_def example_chat_def like_char_def
        order_by_last_message_desc_def limit_rows_def)
qed

lemma GetChats_example:
  "fst (GetChats postgres_repo \<lparr>flt_SearchName = ''lic'', flt_DeviceID = ''dev1'', flt_Limit = 0\<rparr>
          (stocked_db [])) = ([example_chat ''Alice''], None)"
proof -
  have ea: "engine_answers (stocked_db [])"
    by (simp add: engine_answers_def stocked_db_def)
  have tbl: "chats (stocked_db []) = Some [example_chat ''Alice'']"
    by (simp add: stocked_db_def)
  show ?thesis
    unfolding GetChats_result [OF ea tbl]
    by (simp add: chat_selected_def postgres_repo_def example_chat_def like_char_def
        order_by_last_message_desc_def limit_rows_def)
qed

section \<open>Verified properties\<close>

text \<open>
  Claim C3.  With the numbered-parameter dialect (Postgres) the adapter \<open>p\<close> returns the
  query in which the N-th occurrence of \<open>?\<close>, counted from the left, is replaced by
  \<open>$N\<close>: a query made of token-free segments joined by \<open>k\<close> tokens becomes the same
  segments joined by \<open>$1\<close>, \dots, \<open>$k\<close>, so order and count are kept.  With a dialect
  that accepts \<open>?\<close> natively the adapter returns its input unchanged.
\<close>

theorem p_translates_placeholders:
  "p \<lparr>isPostgres = False\<rparr> query = query
   \<and> p \<lparr>isPostgres = True\<rparr> query = number_placeholders 1 query
   \<and> (list_all token_free (s0 # ss) \<longrightarrow>
        p \<lparr>isPostgres = True\<rparr> (join_tokens s0 ss) = join_markers 1 s0 ss
        \<and> p \<lparr>isPostgres = False\<rparr> (join_tokens s0 ss) = join_tokens s0 ss)"
  by (simp add: p_def p_loop_number_placeholders number_placeholders_join)

theorem p_translates_placeholders_witness:
  "list_all token_free [''UPDATE t SET a = '', '', b = '', '' WHERE k = '', '''']
   \<and> p \<lparr>isPostgres = True\<rparr> ''UPDATE t SET a = ?, b = ? WHERE k = ?''
       = ''UPDATE t SET a = $1, b = $2 WHERE k = $3''
   \<and> p \<lparr>isPostgres = False\<rparr> ''UPDATE t SET a = ?, b = ? WHERE k = ?''
       = ''UPDATE t SET a = ?, b = ? WHERE k = ?''"
  using p_translates_placeholders
    [of "''UPDATE t SET a = ?, b = ? WHERE k = ?''"
        "''UPDATE t SET a = ''" "['', b = '', '' WHERE k = '', '''']"]
  by (simp add: token_free_def Sprintf_dollar_def decimal.simps)

text \<open>
  Claim C1.  Two calls of \<open>StoreChat\<close> in sequence with the same key (chat
  identifier, device identifier), on a table that respects its primary key: whenever
  the second call returns \<open>nil\<close>, the table holds exactly one row for that key and
  the row bears the name of the second call.  On an engine that does not fail and
  has the table, both calls return \<open>nil\<close>.
\<close>

theorem StoreChat_upsert_idempotent:
  assumes pk: "chats_pk d" and key: "chat_key c2 = chat_key c1"
    and s1: "s1 = StoreChat r now1 c1 d"
    and s2: "s2 = StoreChat r now2 c2 (snd (snd s1))"
  shows "(fst s2 = None \<longrightarrow>
            (\<exists>rows2. chats (snd (snd s2)) = Some rows2
               \<and> length (filter (\<lambda>row. chat_key row = chat_key c1) rows2) = 1
               \<and> (\<forall>row \<in> set rows2. chat_key row = chat_key c1 \<longrightarrow> chat_Name row = chat_Name c2)))
         \<and> (faults d = [] \<and> chats d \<noteq> None \<longrightarrow> fst s1 = None \<and> fst s2 = None)"
proof (intro conjI impI)
  let ?d1 = "snd (snd s1)"
  have pk1: "chats_pk ?d1"
    using StoreChat_chats_pk [OF pk] by (simp add: s1)
  {
    assume ok: "fst s2 = None"
    then have "StoreChat r now2 c2 ?d1 = (None, fst (snd s2), snd (snd s2))"
      by (simp add: s2 [symmetric] prod_eq_iff)
    note st = this
    define g where "g = (\<lambda>row::Chat. if chat_key row = chat_key c2
                     then row\<lparr>chat_Name := chat_Name c2,
                            chat_LastMessageTime := chat_LastMessageTime c2,
                            chat_EphemeralExpiration := chat_EphemeralExpiration c2,
                            chat_UpdatedAt := now2\<rparr> else row)"
    define new where "new = \<lparr>chat_DeviceID = chat_DeviceID c2, chat_JID = chat_JID c2,
                      chat_Name = chat_Name c2,
                      chat_LastMessageTime = chat_LastMessageTime c2,
                      chat_EphemeralExpiration = chat_EphemeralExpiration c2,
                      chat_CreatedAt = now2, chat_UpdatedAt = now2\<rparr>"
    define K where "K = (\<lambda>row::Chat. chat_key row = chat_key c2)"
    from StoreChat_cases [OF st] obtain rows where rows: "chats ?d1 = Some rows"
      and rows2: "chats (snd (snd s2)) = Some (if list_ex K rows then map g rows else rows @ [new])"
      unfolding g_def new_def K_def by blast
    from pk1 rows have dist: "distinct (map chat_key rows)"
      by (simp add: chats_pk_def)
    have gk: "\<And>row. K (g row) = K row"
      by (simp add: g_def K_def chat_key_def)
    have gn: "\<And>row. K row \<Longrightarrow> chat_Name (g row) = chat_Name c2"
      by (simp add: g_def K_def)
    have newk: "K new" and newn: "chat_Name new = chat_Name c2"
      by (simp_all add: new_def K_def chat_key_def)
    have "\<exists>rows2. chats (snd (snd s2)) = Some rows2
               \<and> length (filter K rows2) = 1
               \<and> (\<forall>row \<in> set rows2. K row \<longrightarrow> chat_Name row = chat_Name c2)"
    proof (cases "list_ex K rows")
      case True
      have "filter K (map g rows) = map g (filter K rows)"
        by (simp add: filter_map o_def gk)
      moreover have "length (filter K rows) = 1"
      proof -
        have "length (filter K rows) \<le> Suc 0"
          using distinct_key_filter_le1 [OF dist, of "chat_key c2"] by (simp add: K_def)
        moreover from True have "filter K rows \<noteq> []"
          by (simp add: list_ex_iff filter_empty_conv)
        ultimately show ?thesis
          by (cases "filter K rows") simp_all
      qed
      ultimately have "length (filter K (map g rows)) = 1"
        by simp
      moreover have "\<forall>row \<in> set (map g rows). K row \<longrightarrow> chat_Name row = chat_Name c2"
        using gk gn by auto
      moreover have "chats (snd (snd s2)) = Some (map g rows)"
        using True rows2 by simp
      ultimately show ?thesis by blast
    next
      case False
      then have none: "\<forall>row \<in> set rows. \<not> K row"
        by (simp add: list_ex_iff)
      then have "filter K rows = []"
        by (simp add: filter_empty_conv)
      then have "length (filter K (rows @ [new])) = 1"
        using newk by simp
      moreover have "\<forall>row \<in> set (rows @ [new]). K row \<longrightarrow> chat_Name row = chat_Name c2"
        using none newn by auto
      moreover have "chats (snd (snd s2)) = Some (rows @ [new])"
        using False rows2 by simp
      ultimately show ?thesis by blast
    qed
    then show "\<exists>rows2. chats (snd (snd s2)) = Some rows2
               \<and> length (filter (\<lambda>row. chat_key row = chat_key c1) rows2) = 1
               \<and> (\<forall>row \<in> set rows2. chat_key row = chat_key c1 \<longrightarrow> chat_Name row = chat_Name c2)"
      unfolding K_def key .
  }
  {
    assume a: "faults d = [] \<and> chats d \<noteq> None"
    then obtain rows where "chats d = Some rows" by auto
    from StoreChat_no_faults [OF _ this, of r now1 c1] a
    have r1: "fst s1 = None" "faults ?d1 = []" "chats ?d1 \<noteq> None"
      by (simp_all add: s1)
    then obtain rows1 where "chats ?d1 = Some rows1" by auto
    from StoreChat_no_faults [OF r1(2) this, of r now2 c2]
    have "fst s2 = None" by (simp add: s2)
    with r1 show "fst s1 = None" "fst s2 = None" by simp_all
  }
qed

theorem StoreChat_upsert_idempotent_witness:
  "chats_pk fresh_db
   \<and> chat_key (example_chat ''Bob'') = chat_key (example_chat ''Alice'')
   \<and> faults fresh_db = [] \<and> chats fresh_db \<noteq> None
   \<and> fst (StoreChat postgres_repo 1 (example_chat ''Alice'') fresh_db) = None
   \<and> fst (StoreChat postgres_repo 2 (example_chat ''Bob'')
        (snd (snd (StoreChat postgres_repo 1 (example_chat ''Alice'') fresh_db)))) = None
   \<and> chats (snd (snd (StoreChat postgres_repo 1 (example_chat ''Alice'') fresh_db)))
       = Some [\<lparr>chat_DeviceID = ''dev1'', chat_JID = ''42@s.whatsapp.net'',
           chat_Name = ''Alice'', chat_LastMessageTime = 100, chat_EphemeralExpiration = 0,
           chat_CreatedAt = 1, chat_UpdatedAt = 1\<rparr>]
   \<and> chats (snd (snd (StoreChat postgres_repo 2 (example_chat ''Bob'')
        (snd (snd (StoreChat postgres_repo 1 (example_chat ''Alice'') fresh_db))))))
       = Some [\<lparr>chat_DeviceID = ''dev1'', chat_JID = ''42@s.whatsapp.net'',
           chat_Name = ''Bob'', chat_LastMessageTime = 100, chat_EphemeralExpiration = 0,
           chat_CreatedAt = 1, chat_UpdatedAt = 2\<rparr>]"
proof -
  have pk: "chats_pk fresh_db"
    by (simp add: chats_pk_def fresh_db_def)
  have key: "chat_key (example_chat ''Bob'') = chat_key (example_chat ''Alice'')"
    by (simp add: chat_key_def example_chat_def)
  have ok: "faults fresh_db = [] \<and> chats fresh_db \<noteq> None"
    by (simp add: fresh_db_def)
  from StoreChat_upsert_idempotent [OF pk key refl refl, of postgres_repo 2 1] ok
  have "fst (StoreChat postgres_repo 1 (example_chat ''Alice'') fresh_db) = None"
    and "fst (StoreChat postgres_repo 2 (example_chat ''Bob'')
        (snd (snd (StoreChat postgres_repo 1 (example_chat ''Alice'') fresh_db)))) = None"
    by simp_all
  moreover have "chats (snd (snd (StoreChat postgres_repo 1 (example_chat ''Alice'') fresh_db)))
       = Some [\<lparr>chat_DeviceID = ''dev1'', chat_JID = ''42@s.whatsapp.net'',
           chat_Name = ''Alice'', chat_LastMessageTime = 100, chat_EphemeralExpiration = 0,
           chat_CreatedAt = 1, chat_UpdatedAt = 1\<rparr>]"
    by (simp add: StoreChat_def fresh_db_def example_chat_def with_chats_def tbl_update_def
      tbl_insert_def chat_key_def err_of_def db_Exec_eval)
  moreover have "chats (snd (snd (StoreChat postgres_repo 2 (example_chat ''Bob'')
        (snd (snd (StoreChat postgres_repo 1 (example_chat ''Alice'') fresh_db))))))
       = Some [\<lparr>chat_DeviceID = ''dev1'', chat_JID = ''42@s.whatsapp.net'',
           chat_Name = ''Bob'', chat_LastMessageTime = 100, chat_EphemeralExpiration = 0,
           chat_CreatedAt = 1, chat_UpdatedAt = 2\<rparr>]"
    by (simp add: StoreChat_def fresh_db_def example_chat_def with_chats_def tbl_update_def
      tbl_insert_def chat_key_def err_of_def db_Exec_eval)
  ultimately show ?thesis
    using pk key ok by simp
qed

text \<open>
  Claim C2.  A message whose content and media kind are both empty is not stored:
  \<open>StoreMessage\<close> returns \<open>nil\<close> and the database, the \<open>messages\<close> table
  included, is what it was (no statement reaches the engine).  A message with
  content or a media kind is stored: whenever the call returns \<open>nil\<close> the table
  holds a row with the message's key and columns (\<open>created_at\<close> apart, which an
  existing row keeps), and on an engine that does not fail and has the table the
  call returns \<open>nil\<close>.
\<close>

theorem StoreMessage_drop_policy:
  "(msg_Content m = [] \<and> msg_MediaType m = [] \<longrightarrow>
      fst (StoreMessage r now m d) = None \<and> snd (snd (StoreMessage r now m d)) = d)
   \<and> (msg_Content m \<noteq> [] \<or> msg_MediaType m \<noteq> [] \<longrightarrow>
        (fst (StoreMessage r now m d) = None \<longrightarrow>
           (\<exists>rows'. messages (snd (snd (StoreMessage r now m d))) = Some rows'
              \<and> list_ex (\<lambda>row. row\<lparr>msg_CreatedAt := now\<rparr>
                              = m\<lparr>msg_CreatedAt := now, msg_UpdatedAt := now\<rparr>) rows'))
        \<and> (faults d = [] \<and> messages d \<noteq> None \<longrightarrow> fst (StoreMessage r now m d) = None))"
proof (intro conjI impI)
  assume "msg_Content m = [] \<and> msg_MediaType m = []"
  then show "fst (StoreMessage r now m d) = None" "snd (snd (StoreMessage r now m d)) = d"
    by (simp_all add: StoreMessage_def)
next
  assume "msg_Content m \<noteq> [] \<or> msg_MediaType m \<noteq> []"
    and "fst (StoreMessage r now m d) = None"
  then show "\<exists>rows'. messages (snd (snd (StoreMessage r now m d))) = Some rows'
              \<and> list_ex (\<lambda>row. row\<lparr>msg_CreatedAt := now\<rparr>
                              = m\<lparr>msg_CreatedAt := now, msg_UpdatedAt := now\<rparr>) rows'"
    using StoreMessage_persisted by blast
next
  assume "faults d = [] \<and> messages d \<noteq> None"
  then obtain rows where "faults d = []" "messages d = Some rows" by auto
  then show "fst (StoreMessage r now m d) = None"
    using StoreMessage_no_faults by blast
qed

theorem StoreMessage_drop_policy_witness:
  "msg_Content (example_message [] []) = [] \<and> msg_MediaType (example_message [] []) = []
   \<and> fst (StoreMessage postgres_repo 5 (example_message [] []) fresh_db) = None
   \<and> snd (snd (StoreMessage postgres_repo 5 (example_message [] []) fresh_db)) = fresh_db
   \<and> msg_Content (example_message ''Hi'' []) \<noteq> []
   \<and> faults fresh_db = [] \<and> messages fresh_db \<noteq> None
   \<and> fst (StoreMessage postgres_repo 5 (example_message ''Hi'' []) fresh_db) = None
   \<and> messages (snd (snd (StoreMessage postgres_repo 5 (example_message ''Hi'' []) fresh_db)))
       = Some [(example_message ''Hi'' [])\<lparr>msg_CreatedAt := 5, msg_UpdatedAt := 5\<rparr>]"
proof -
  have e: "msg_Content (example_message [] []) = [] \<and> msg_MediaType (example_message [] []) = []"
    by (simp add: example_message_def)
  have n: "msg_Content (example_message ''Hi'' []) \<noteq> []"
    by (simp add: example_message_def)
  have ok: "faults fresh_db = [] \<and> messages fresh_db \<noteq> None"
    by (simp add: fresh_db_def)
  have "messages (snd (snd (StoreMessage postgres_repo 5 (example_message ''Hi'' []) fresh_db)))
       = Some [(example_message ''Hi'' [])\<lparr>msg_CreatedAt := 5, msg_UpdatedAt := 5\<rparr>]"
    by (simp add: StoreMessage_def fresh_db_def example_message_def with_messages_def
      tbl_update_def tbl_insert_def msg_key_def err_of_def db_Exec_eval Let_def)
  then show ?thesis
    using StoreMessage_drop_policy [of "example_message [] []" postgres_repo 5 fresh_db]
      StoreMessage_drop_policy [of "example_message ''Hi'' []" postgres_repo 5 fresh_db] e n ok
    by simp
qed

text \<open>
  Claim C10.  \<open>StoreMessage\<close> assigns the current time to \<open>CreatedAt\<close> and
  \<open>UpdatedAt\<close> of the caller's struct before the drop-policy test: after every
  call the struct is the input with exactly these two fields set to \<open>now\<close>, also
  when the message is dropped and the database is left untouched.
\<close>

theorem StoreMessage_overwrites_timestamps:
  "fst (snd (StoreMessage r now m d)) = m\<lparr>msg_CreatedAt := now, msg_UpdatedAt := now\<rparr>
   \<and> (msg_Content m = [] \<and> msg_MediaType m = [] \<longrightarrow>
        StoreMessage r now m d = (None, m\<lparr>msg_CreatedAt := now, msg_UpdatedAt := now\<rparr>, d))"
  by (simp add: StoreMessage_def Let_def split: prod.splits sum.splits)

theorem StoreMessage_overwrites_timestamps_witness:
  "msg_Content (example_message [] []) = [] \<and> msg_MediaType (example_message [] []) = []
   \<and> StoreMessage native_repo 7 (example_message [] []) fresh_db
       = (None, (example_message [] [])\<lparr>msg_CreatedAt := 7, msg_UpdatedAt := 7\<rparr>, fresh_db)
   \<and> msg_CreatedAt (fst (snd (StoreMessage native_repo 7 (example_message [] []) fresh_db))) = 7
   \<and> msg_CreatedAt (example_message [] []) = 0"
  using StoreMessage_overwrites_timestamps [of native_repo 7 "example_message [] []" fresh_db]
  by (simp add: example_message_def)

text \<open>
  Claim C5.  For each point lookup (\<open>GetChat\<close>, \<open>GetChatByDevice\<close>,
  \<open>GetMessageByID\<close>, \<open>GetDeviceRecord\<close>): when the engine answers and no row
  matches, the result is (nil, nil); an error that is returned is never
  \<open>sql.ErrNoRows\<close> and occurs only when the engine failed the call or the table is
  missing; and a nil row comes only with a nil error and only when the engine
  answered and no row matches.
\<close>

theorem point_lookup_not_found_is_not_an_error:
  "(engine_answers d \<and> chats d = Some cs \<and> \<not> list_ex (\<lambda>c. chat_JID c = jid) cs \<longrightarrow>
      fst (GetChat r jid d) = (None, None))
   \<and> (engine_answers d \<and> chats d = Some cs
        \<and> \<not> list_ex (\<lambda>c. chat_JID c = jid \<and> chat_DeviceID c = deviceID) cs \<longrightarrow>
      fst (GetChatByDevice r deviceID jid d) = (None, None))
   \<and> (engine_answers d \<and> messages d = Some ms \<and> \<not> list_ex (\<lambda>m. msg_ID m = ident) ms \<longrightarrow>
      fst (GetMessageByID r ident d) = (None, None))
   \<and> (engine_answers d \<and> devices d = Some ds
        \<and> \<not> list_ex (\<lambda>x. dev_DeviceID x = deviceID) ds \<longrightarrow>
      fst (GetDeviceRecord r deviceID d) = (None, None))
   \<and> (snd (fst (GetChat r jid d)) = Some e \<longrightarrow>
        e \<noteq> ErrNoRows \<and> (\<not> engine_answers d \<or> chats d = None))
   \<and> (snd (fst (GetChatByDevice r deviceID jid d)) = Some e \<longrightarrow>
        e \<noteq> ErrNoRows \<and> (\<not> engine_answers d \<or> chats d = None))
   \<and> (snd (fst (GetMessageByID r ident d)) = Some e \<longrightarrow>
        e \<noteq> ErrNoRows \<and> (\<not> engine_answers d \<or> messages d = None))
   \<and> (snd (fst (GetDeviceRecord r deviceID d)) = Some e \<longrightarrow>
        e \<noteq> ErrNoRows \<and> (\<not> engine_answers d \<or> devices d = None))
   \<and> (fst (fst (GetChat r jid d)) = None \<longrightarrow>
        snd (fst (GetChat r jid d)) = None \<and> engine_answers d
        \<and> (\<exists>rows. chats d = Some rows \<and> \<not> list_ex (\<lambda>c. chat_JID c = jid) rows))
   \<and> (fst (fst (GetChatByDevice r deviceID jid d)) = None \<longrightarrow>
        snd (fst (GetChatByDevice r deviceID jid d)) = None \<and> engine_answers d
        \<and> (\<exists>rows. chats d = Some rows
              \<and> \<not> list_ex (\<lambda>c. chat_JID c = jid \<and> chat_DeviceID c = deviceID) rows))
   \<and> (fst (fst (GetMessageByID r ident d)) = None \<longrightarrow>
        snd (fst (GetMessageByID r ident d)) = None \<and> engine_answers d
        \<and> (\<exists>rows. messages d = Some rows \<and> \<not> list_ex (\<lambda>m. msg_ID m = ident) rows))
   \<and> (fst (fst (GetDeviceRecord r deviceID d)) = None \<longrightarrow>
        snd (fst (GetDeviceRecord r deviceID d)) = None \<and> engine_answers d
        \<and> (\<exists>rows. devices d = Some rows \<and> \<not> list_ex (\<lambda>x. dev_DeviceID x = deviceID) rows))"
proof -
  have n0: "engine_answers d \<and> chats d = Some cs \<and> \<not> list_ex (\<lambda>c. chat_JID c = jid) cs \<longrightarrow>
      fst (GetChat r jid d) = (None, None)"
    using lookup_result_not_found [of d "chats d" cs "\<lambda>c. chat_JID c = jid"]
    by (simp add: GetChat_result)
  have n1: "engine_answers d \<and> chats d = Some cs \<and> \<not> list_ex (\<lambda>c. chat_JID c = jid \<and> chat_DeviceID c = deviceID) cs \<longrightarrow>
      fst (GetChatByDevice r deviceID jid d) = (None, None)"
    using lookup_result_not_found [of d "chats d" cs "\<lambda>c. chat_JID c = jid \<and> chat_DeviceID c = deviceID"]
    by (simp add: GetChatByDevice_result)
  have n2: "engine_answers d \<and> messages d = Some ms \<and> \<not> list_ex (\<lambda>m. msg_ID m = ident) ms \<longrightarrow>
      fst (GetMessageByID r ident d) = (None, None)"
    using lookup_result_not_found [of d "messages d" ms "\<lambda>m. msg_ID m = ident"]
    by (simp add: GetMessageByID_result)
  have n3: "engine_answers d \<and> devices d = Some ds \<and> \<not> list_ex (\<lambda>x. dev_DeviceID x = deviceID) ds \<longrightarrow>
      fst (GetDeviceRecord r deviceID d) = (None, None)"
    using lookup_result_not_found [of d "devices d" ds "\<lambda>x. dev_DeviceID x = deviceID"]
    by (simp add: GetDeviceRecord_result)
  have e0: "snd (fst (GetChat r jid d)) = Some e \<longrightarrow>
        e \<noteq> ErrNoRows \<and> (\<not> engine_answers d \<or> chats d = None)"
    unfolding GetChat_result by (rule impI, erule lookup_result_error)
  have e1: "snd (fst (GetChatByDevice r deviceID jid d)) = Some e \<longrightarrow>
        e \<noteq> ErrNoRows \<and> (\<not> engine_answers d \<or> chats d = None)"
    unfolding GetChatByDevice_result by (rule impI, erule lookup_result_error)
  have e2: "snd (fst (GetMessageByID r ident d)) = Some e \<longrightarrow>
        e \<noteq> ErrNoRows \<and> (\<not> engine_answers d \<or> messages d = None)"
    unfolding GetMessageByID_result by (rule impI, erule lookup_result_error)
  have e3: "snd (fst (GetDeviceRecord r deviceID d)) = Some e \<longrightarrow>
        e \<noteq> ErrNoRows \<and> (\<not> engine_answers d \<or> devices d = None)"
    unfolding GetDeviceRecord_result by (rule impI, erule lookup_result_error)
  have l0: "fst (fst (GetChat r jid d)) = None \<longrightarrow>
        snd (fst (GetChat r jid d)) = None \<and> engine_answers d
        \<and> (\<exists>rows. chats d = Some rows \<and> \<not> list_ex (\<lambda>c. chat_JID c = jid) rows)"
    unfolding GetChat_result by (rule impI, erule lookup_result_nil)
  have l1: "fst (fst (GetChatByDevice r deviceID jid d)) = None \<longrightarrow>
        snd (fst (GetChatByDevice r deviceID jid d)) = None \<and> engine_answers d
        \<and> (\<exists>rows. chats d = Some rows \<and> \<not> list_ex (\<lambda>c. chat_JID c = jid \<and> chat_DeviceID c = deviceID) rows)"
    unfolding GetChatByDevice_result by (rule impI, erule lookup_result_nil)
  have l2: "fst (fst (GetMessageByID r ident d)) = None \<longrightarrow>
        snd (fst (GetMessageByID r ident d)) = None \<and> engine_answers d
        \<and> (\<exists>rows. messages d = Some rows \<and> \<not> list_ex (\<lambda>m. msg_ID m = ident) rows)"
    unfolding GetMessageByID_result by (rule impI, erule lookup_result_nil)
  have l3: "fst (fst (GetDeviceRecord r deviceID d)) = None \<longrightarrow>
        snd (fst (GetDeviceRecord r deviceID d)) = None \<and> engine_answers d
        \<and> (\<exists>rows. devices d = Some rows \<and> \<not> list_ex (\<lambda>x. dev_DeviceID x = deviceID) rows)"
    unfolding GetDeviceRecord_result by (rule impI, erule lookup_result_nil)
  show ?thesis
    by (intro conjI)
       (rule n0, rule n1, rule n2, rule n3, rule e0, rule e1, rule e2, rule e3,
        rule l0, rule l1, rule l2, rule l3)
qed

theorem point_lookup_not_found_is_not_an_error_witness:
  "engine_answers fresh_db \<and> chats fresh_db = Some [] \<and> messages fresh_db = Some []
   \<and> devices fresh_db = Some []
   \<and> fst (GetChat postgres_repo ''42@s.whatsapp.net'' fresh_db) = (None, None)
   \<and> fst (GetChatByDevice postgres_repo ''dev1'' ''42@s.whatsapp.net'' fresh_db) = (None, None)
   \<and> fst (GetMessageByID postgres_repo ''M1'' fresh_db) = (None, None)
   \<and> fst (GetDeviceRecord postgres_repo ''dev1'' fresh_db) = (None, None)
   \<and> snd (fst (GetChat postgres_repo ''42@s.whatsapp.net'' (failing_db ''connection lost'')))
       = Some (ErrEngine ''connection lost'')
   \<and> ErrEngine ''connection lost'' \<noteq> ErrNoRows
   \<and> \<not> engine_answers (failing_db ''connection lost'')"
proof -
  have a: "engine_answers fresh_db \<and> chats fresh_db = Some [] \<and> messages fresh_db = Some []
    \<and> devices fresh_db = Some []"
    by (simp add: engine_answers_def fresh_db_def)
  have b: "snd (fst (GetChat postgres_repo ''42@s.whatsapp.net'' (failing_db ''connection lost'')))
       = Some (ErrEngine ''connection lost'')"
    by (simp add: GetChat_result lookup_result_def failing_db_def)
  have c: "\<not> engine_answers (failing_db ''connection lost'')"
    by (simp add: failing_db_def engine_answers_def)
  note t1 = point_lookup_not_found_is_not_an_error
        [of fresh_db "[]" "''42@s.whatsapp.net''" postgres_repo "''dev1''" "[]" "''M1''" "[]"
            "ErrNoRows"]
  note t2 = point_lookup_not_found_is_not_an_error
        [of "failing_db ''connection lost''" "[]" "''42@s.whatsapp.net''" postgres_repo "''dev1''"
            "[]" "''M1''" "[]" "ErrEngine ''connection lost''"]
  have g1: "fst (GetChat postgres_repo ''42@s.whatsapp.net'' fresh_db) = (None, None)"
    using t1 [THEN conjunct1] a by simp
  have g2: "fst (GetChatByDevice postgres_repo ''dev1'' ''42@s.whatsapp.net'' fresh_db)
      = (None, None)"
    using t1 [THEN conjunct2, THEN conjunct1] a by simp
  have g3: "fst (GetMessageByID postgres_repo ''M1'' fresh_db) = (None, None)"
    using t1 [THEN conjunct2, THEN conjunct2, THEN conjunct1] a by simp
  have g4: "fst (GetDeviceRecord postgres_repo ''dev1'' fresh_db) = (None, None)"
    using t1 [THEN conjunct2, THEN conjunct2, THEN conjunct2, THEN conjunct1] a by simp
  have g5: "ErrEngine ''connection lost'' \<noteq> ErrNoRows"
    using t2 [THEN conjunct2, THEN conjunct2, THEN conjunct2, THEN conjunct2, THEN conjunct1] b
    by simp
  from a g1 g2 g3 g4 b g5 c show ?thesis
    by simp
qed

text \<open>
  Claim C9.  On an engine that does not fail, with the \<open>chats\<close> table present and
  respecting its primary key, after \<open>CreateMessage\<close> the table holds exactly one
  row under the canonical chat identifier and the device of the context; its name is
  the sender-provided display name when that is not empty and otherwise the user part
  of the canonical chat identifier, and its last-message time is the timestamp of the
  notification.
\<close>

theorem CreateMessage_chat_row:
  assumes nf: "faults d = []" and tbl: "chats d \<noteq> None" and pk: "chats_pk d"
  shows "\<exists>rows' row. chats (snd (CreateMessage r ctx now1 now2 evt d)) = Some rows'
           \<and> filter (\<lambda>row. chat_key row = ingested_chat_key ctx evt) rows' = [row]
           \<and> chat_Name row =
                 (if info_PushName (evt_Info evt) \<noteq> [] then info_PushName (evt_Info evt)
                  else jid_User (NormalizeJIDFromLID ctx (info_Chat (evt_Info evt))))
           \<and> chat_LastMessageTime row = info_Timestamp (evt_Info evt)"
proof -
  define chat where "chat = \<lparr>chat_DeviceID = snd (ingested_chat_key ctx evt),
          chat_JID = fst (ingested_chat_key ctx evt),
          chat_Name = GetChatNameWithPushName r (NormalizeJIDFromLID ctx (info_Chat (evt_Info evt)))
             (fst (ingested_chat_key ctx evt)) (jid_User (info_Sender (evt_Info evt)))
             (info_PushName (evt_Info evt)),
          chat_LastMessageTime = info_Timestamp (evt_Info evt),
          chat_EphemeralExpiration = 0, chat_CreatedAt = 0, chat_UpdatedAt = 0\<rparr>"
  have ck: "chat_key chat = ingested_chat_key ctx evt"
    by (simp add: chat_def chat_key_def)
  have cn: "chat_Name chat =
                 (if info_PushName (evt_Info evt) \<noteq> [] then info_PushName (evt_Info evt)
                  else jid_User (NormalizeJIDFromLID ctx (info_Chat (evt_Info evt))))"
    by (simp add: chat_def GetChatNameWithPushName_def)
  have ct: "chat_LastMessageTime chat = info_Timestamp (evt_Info evt)"
    by (simp add: chat_def)
  let ?s = "StoreChat r now1 chat d"
  from tbl obtain rows where "chats d = Some rows" by auto
  from StoreChat_no_faults [OF nf this, of r now1 chat] have "fst ?s = None"
    by simp
  then have "StoreChat r now1 chat d = (None, fst (snd ?s), snd (snd ?s))"
    by (simp add: prod_eq_iff)
  from StoreChat_row [OF this pk] obtain rows' row where
    "chats (snd (snd ?s)) = Some rows'"
    "filter (\<lambda>row. chat_key row = chat_key chat) rows' = [row]"
    "chat_Name row = chat_Name chat" "chat_LastMessageTime row = chat_LastMessageTime chat"
    by blast
  moreover have "chats (snd (CreateMessage r ctx now1 now2 evt d)) = chats (snd (snd ?s))"
    unfolding chat_def by (rule CreateMessage_chats)
  ultimately show ?thesis
    unfolding ck cn ct by metis
qed

theorem CreateMessage_chat_row_witness:
  "faults fresh_db = [] \<and> chats fresh_db \<noteq> None \<and> chats_pk fresh_db
   \<and> ingested_chat_key example_context (example_event ''Alice'') = (''42@s.whatsapp.net'', ''dev1'')
   \<and> chats (snd (CreateMessage postgres_repo example_context 1 2 (example_event ''Alice'') fresh_db))
     = Some [\<lparr>chat_DeviceID = ''dev1'', chat_JID = ''42@s.whatsapp.net'',
          chat_Name = ''Alice'', chat_LastMessageTime = 100, chat_EphemeralExpiration = 0,
          chat_CreatedAt = 1, chat_UpdatedAt = 1\<rparr>]
   \<and> chats (snd (CreateMessage postgres_repo example_context 1 2 (example_event []) fresh_db))
     = Some [\<lparr>chat_DeviceID = ''dev1'', chat_JID = ''42@s.whatsapp.net'',
          chat_Name = ''42'', chat_LastMessageTime = 100, chat_EphemeralExpiration = 0,
          chat_CreatedAt = 1, chat_UpdatedAt = 1\<rparr>]
   \<and> (\<exists>rows' row.
         chats (snd (CreateMessage postgres_repo example_context 1 2 (example_event ''Alice'')
            fresh_db)) = Some rows'
         \<and> filter (\<lambda>row. chat_key row = (''42@s.whatsapp.net'', ''dev1'')) rows' = [row]
         \<and> chat_Name row = ''Alice'' \<and> chat_LastMessageTime row = 100)"
proof -
  have h: "faults fresh_db = []" "chats fresh_db \<noteq> None" "chats_pk fresh_db"
    by (simp_all add: fresh_db_def chats_pk_def)
  have k: "ingested_chat_key example_context (example_event ''Alice'')
      = (''42@s.whatsapp.net'', ''dev1'')"
    by (simp add: ingested_chat_key_def example_context_def example_event_def)
  have i: "info_PushName (evt_Info (example_event ''Alice'')) = ''Alice''"
    "info_Timestamp (evt_Info (example_event ''Alice'')) = 100"
    by (simp_all add: example_event_def)
  have "\<exists>rows' row.
         chats (snd (CreateMessage postgres_repo example_context 1 2 (example_event ''Alice'')
            fresh_db)) = Some rows'
         \<and> filter (\<lambda>row. chat_key row = (''42@s.whatsapp.net'', ''dev1'')) rows' = [row]
         \<and> chat_Name row = ''Alice'' \<and> chat_LastMessageTime row = 100"
    using CreateMessage_chat_row [OF h, of postgres_repo example_context 1 2 "example_event ''Alice''"]
    unfolding k i by simp
  then show ?thesis
    using h k CreateMessage_example_chats [of "''Alice''"] CreateMessage_example_chats [of "[]"]
    by simp
qed

text \<open>
  Claim C7, evaluated where it fails.  \<open>SaveDeviceRecord\<close> panics when the engine
  fails its \<open>UPDATE\<close>, and returns \<open>nil\<close> with nothing saved when the engine fails
  its \<open>INSERT\<close>.  \<open>CreateMessage\<close> returns \<open>nil\<close> when the engine fails the chat
  upsert and answers the message upsert: the chat row is missing and no error
  reaches the caller.
\<close>

theorem write_errors_swallowed:
  "fst (SaveDeviceRecord postgres_repo 1 example_device (failing_db ''connection lost'')) = Panic
   \<and> fst (SaveDeviceRecord postgres_repo 1 example_device
          (fresh_db\<lparr>faults := [None, Some ''connection lost'']\<rparr>)) = Return None
   \<and> devices (snd (SaveDeviceRecord postgres_repo 1 example_device
          (fresh_db\<lparr>faults := [None, Some ''connection lost'']\<rparr>))) = Some []
   \<and> fst (CreateMessage postgres_repo example_context 1 2 (example_event ''Alice'')
          (failing_db ''connection lost'')) = None
   \<and> chats (snd (CreateMessage postgres_repo example_context 1 2 (example_event ''Alice'')
          (failing_db ''connection lost''))) = Some []"
proof -
  have a: "fst (SaveDeviceRecord postgres_repo 1 example_device (failing_db ''connection lost''))
      = Panic"
    by (simp add: SaveDeviceRecord_def failing_db_def fresh_db_def db_Exec_eval)
  have b: "fst (SaveDeviceRecord postgres_repo 1 example_device
          (fresh_db\<lparr>faults := [None, Some ''connection lost'']\<rparr>)) = Return None
     \<and> devices (snd (SaveDeviceRecord postgres_repo 1 example_device
          (fresh_db\<lparr>faults := [None, Some ''connection lost'']\<rparr>))) = Some []"
    by (simp add: SaveDeviceRecord_def fresh_db_def db_Exec_eval with_devices_def tbl_update_def)
  have c: "fst (CreateMessage postgres_repo example_context 1 2 (example_event ''Alice'')
          (failing_db ''connection lost'')) = None
     \<and> chats (snd (CreateMessage postgres_repo example_context 1 2 (example_event ''Alice'')
          (failing_db ''connection lost''))) = Some []"
    by (simp add: CreateMessage_def Let_def example_context_def example_event_def
      GetChatNameWithPushName_def StoreChat_def StoreMessage_def failing_db_def fresh_db_def
      with_chats_def with_messages_def tbl_update_def tbl_insert_def msg_key_def err_of_def
      db_Exec_eval)
  from a b c show ?thesis by simp
qed

text \<open>
  Claim C6.  On Postgres, the only engine the program opens, \<open>DeleteChat\<close> is all
  or nothing: when it returns \<open>nil\<close>, both tables existed and hold afterwards
  exactly their rows of other chats, so no message and no chat row of the given
  identifier remains; in every other outcome (an error of \<open>Commit\<close>, or the panic
  after a failed \<open>Begin\<close>) the \<open>messages\<close> and \<open>chats\<close> tables are what they
  were.  The other tables are never touched, and on an engine that does not fail and
  has both tables the call returns \<open>nil\<close>.
\<close>

theorem DeleteChat_all_or_nothing:
  assumes pg: "isPostgres r" and run: "DeleteChat r jid d = (res, d')"
  shows "(res = Return None \<longrightarrow>
            (\<exists>ms cs. messages d = Some ms \<and> chats d = Some cs
               \<and> messages d' = Some (filter (\<lambda>m. msg_ChatJID m \<noteq> jid) ms)
               \<and> chats d' = Some (filter (\<lambda>c. chat_JID c \<noteq> jid) cs)))
         \<and> (res \<noteq> Return None \<longrightarrow> messages d' = messages d \<and> chats d' = chats d)
         \<and> devices d' = devices d \<and> schema_info d' = schema_info d
         \<and> (faults d = [] \<and> messages d \<noteq> None \<and> chats d \<noteq> None \<longrightarrow> res = Return None)"
proof -
  define q1 where "q1 = p r ''DELETE FROM messages WHERE chat_jid = ?''"
  define q2 where "q2 = p r ''DELETE FROM chats WHERE jid = ?''"
  define a1 where "a1 = with_messages (tbl_delete (\<lambda>m. msg_ChatJID m = jid))"
  define a2 where "a2 = with_chats (tbl_delete (\<lambda>c. chat_JID c = jid))"
  have last: "faults d = [] \<and> messages d \<noteq> None \<and> chats d \<noteq> None \<longrightarrow> res = Return None"
  proof
    assume "faults d = [] \<and> messages d \<noteq> None \<and> chats d \<noteq> None"
    then obtain ms cs where "faults d = []" "messages d = Some ms" "chats d = Some cs"
      by auto
    from DeleteChat_no_faults [OF this, of r jid] run show "res = Return None"
      by simp
  qed
  obtain b d1 where bg: "db_Begin d = (b, d1)"
    by (meson surj_pair)
  from db_Begin_result [OF bg] have t1: "same_tables d d1"
    and snap: "\<forall>tx. b = Inr tx \<longrightarrow> tx_snapshot tx = d1 \<and> \<not> tx_failed tx"
    by simp_all
  show ?thesis
  proof (cases b)
    case (Inl e)
    with bg run have "res = Panic" "d' = d1"
      by (simp_all add: DeleteChat_def)
    with t1 last show ?thesis
      by (simp add: same_tables_def)
  next
    case (Inr tx)
    with snap have tx: "tx_snapshot tx = d1" "\<not> tx_failed tx"
      by simp_all
    obtain r1 tx1 d2 where e1: "tx_Exec r q1 a1 tx d1 = (r1, tx1, d2)"
      by (metis surj_pair)
    obtain r2 tx2 d3 where e2: "tx_Exec r q2 a2 tx1 d2 = (r2, tx2, d3)"
      by (metis surj_pair)
    obtain err d4 where cm: "tx_Commit tx2 d3 = (err, d4)"
      by (meson surj_pair)
    from bg Inr e1 e2 cm run have res: "res = Return err" "d' = d4"
      by (simp_all add: DeleteChat_def q1_def q2_def a1_def a2_def)
    note x1 = tx_Exec_postgres [OF pg e1]
    note x2 = tx_Exec_postgres [OF pg e2]
    note c = tx_Commit_result [OF cm]
    from x1 x2 tx have snap2: "tx_snapshot tx2 = d1"
      by simp
    show ?thesis
    proof (cases err)
      case (Some e)
      with c snap2 have "same_tables d1 d4" by simp
      with t1 have "same_tables d d4" by (rule same_tables_trans)
      with res Some last show ?thesis
        by (simp add: same_tables_def)
    next
      case None
      with c have nf2: "\<not> tx_failed tx2" and t4: "same_tables d3 d4"
        by simp_all
      from x2 nf2 have nf1: "\<not> tx_failed tx1" by blast
      from x1 nf1 obtain n1 d0 where s1: "same_tables d1 d0" and act1: "a1 d0 = Inr (n1, d2)"
        by blast
      from x2 nf2 obtain n2 d0' where s2: "same_tables d2 d0'" and act2: "a2 d0' = Inr (n2, d3)"
        by blast
      from with_messages_delete_Inr [OF act1 [unfolded a1_def]] obtain ms where
        ms: "messages d0 = Some ms"
          "d2 = d0\<lparr>messages := Some (filter (\<lambda>m. msg_ChatJID m \<noteq> jid) ms)\<rparr>"
        by blast
      from with_chats_delete_Inr [OF act2 [unfolded a2_def]] obtain cs where
        cs: "chats d0' = Some cs"
          "d3 = d0'\<lparr>chats := Some (filter (\<lambda>c. chat_JID c \<noteq> jid) cs)\<rparr>"
        by blast
      have m0: "messages d = Some ms" and c0: "chats d0 = chats d"
        and o0: "devices d0 = devices d" "schema_info d0 = schema_info d"
        using t1 s1 ms(1) by (simp_all add: same_tables_def)
      have c2: "chats d2 = chats d" "devices d2 = devices d" "schema_info d2 = schema_info d"
        "messages d2 = Some (filter (\<lambda>m. msg_ChatJID m \<noteq> jid) ms)"
        using ms(2) c0 o0 by simp_all
      have c3: "chats d0' = chats d" "devices d0' = devices d" "schema_info d0' = schema_info d"
        "messages d0' = Some (filter (\<lambda>m. msg_ChatJID m \<noteq> jid) ms)"
        using s2 c2 by (simp_all add: same_tables_def)
      have c4: "chats d3 = Some (filter (\<lambda>c. chat_JID c \<noteq> jid) cs)" "devices d3 = devices d"
        "schema_info d3 = schema_info d"
        "messages d3 = Some (filter (\<lambda>m. msg_ChatJID m \<noteq> jid) ms)"
        using cs(2) c3 by simp_all
      have cs0: "chats d = Some cs"
        using cs(1) c3(1) by simp
      have fin: "chats d4 = Some (filter (\<lambda>c. chat_JID c \<noteq> jid) cs)" "devices d4 = devices d"
        "schema_info d4 = schema_info d"
        "messages d4 = Some (filter (\<lambda>m. msg_ChatJID m \<noteq> jid) ms)"
        using t4 c4 by (simp_all add: same_tables_def)
      from res None m0 cs0 fin last show ?thesis
        by simp
    qed
  qed
qed

theorem DeleteChat_all_or_nothing_witness:
  "isPostgres postgres_repo
   \<and> fst (DeleteChat postgres_repo ''42@s.whatsapp.net'' (stocked_db [])) = Return None
   \<and> messages (snd (DeleteChat postgres_repo ''42@s.whatsapp.net'' (stocked_db []))) = Some []
   \<and> chats (snd (DeleteChat postgres_repo ''42@s.whatsapp.net'' (stocked_db []))) = Some []
   \<and> fst (DeleteChat postgres_repo ''42@s.whatsapp.net''
          (stocked_db [None, Some ''deadlock detected'', None, None])) = Return (Some ErrTxFailed)
   \<and> messages (snd (DeleteChat postgres_repo ''42@s.whatsapp.net''
          (stocked_db [None, Some ''deadlock detected'', None, None])))
       = messages (stocked_db [None, Some ''deadlock detected'', None, None])
   \<and> chats (snd (DeleteChat postgres_repo ''42@s.whatsapp.net''
          (stocked_db [None, Some ''deadlock detected'', None, None])))
       = chats (stocked_db [None, Some ''deadlock detected'', None, None])"
proof -
  let ?d = "stocked_db [None, Some ''deadlock detected'', None, None]"
  let ?run = "DeleteChat postgres_repo ''42@s.whatsapp.net'' ?d"
  have pg: "isPostgres postgres_repo"
    by (simp add: postgres_repo_def)
  have run: "?run = (fst ?run, snd ?run)"
    by simp
  have failed: "fst ?run = Return (Some ErrTxFailed)"
    using DeleteChat_postgres_rolls_back by simp
  then have "fst ?run \<noteq> Return None"
    by simp
  with DeleteChat_all_or_nothing [OF pg run, THEN conjunct2, THEN conjunct1]
  have "messages (snd ?run) = messages ?d \<and> chats (snd ?run) = chats ?d"
    by blast
  with pg failed DeleteChat_postgres_example show ?thesis
    by simp
qed

text \<open>
  Claim C4.  On an engine that does not fail, after a first run of
  \<open>InitializeSchema\<close> that returned, a second run returns \<open>nil\<close> and sends only
  the two statements of \<open>getSchemaVersion\<close> to the engine: no migration is executed,
  no version is written, every table is what it was, and the recorded version is
  unchanged.  The first run executes the migrations from the current version to the
  last index, each followed by the \<open>DELETE\<close> and \<open>INSERT\<close> of its version, so the
  tracking table gains the versions \<open>current + 1\<close> to the migration count; when
  the current version did not exceed the migration count, the recorded version
  after the first run is the migration count.
\<close>

theorem InitializeSchema_second_run:
  fixes r :: SQLRepository and d :: database
  assumes nf: "faults d = []" and ok: "fst (InitializeSchema r d) = Return None"
  defines "d1 \<equiv> snd (InitializeSchema r d)"
  shows "InitializeSchema r d1
           = (Return None, d1\<lparr>sql_log := sql_log d1 @ [p r qCreate_schema_info, qSelect_version]\<rparr>)
         \<and> recorded_version (snd (InitializeSchema r d1)) = recorded_version d1
         \<and> fst (getSchemaVersion r d1) = recorded_version d1
         \<and> fst (getSchemaVersion r d) = recorded_version d
         \<and> sql_log d1 = sql_log d @ [p r qCreate_schema_info, qSelect_version]
                 @ concat (map (\<lambda>k. [getMigrations r ! k, p r qDelete_version, p r qInsert_version])
                     [nat (recorded_version d)..<length (getMigrations r)])
         \<and> (\<exists>vs1. schema_info d1 = Some vs1
               \<and> set vs1 = (case schema_info d of None \<Rightarrow> {} | Some vs \<Rightarrow> set vs)
                     \<union> {recorded_version d + 1..int (length (getMigrations r))})
         \<and> (recorded_version d \<le> int (length (getMigrations r)) \<longrightarrow>
               recorded_version d1 = int (length (getMigrations r)))"
proof -
  have nn: "0 \<le> recorded_version d"
  proof (rule ccontr)
    assume "\<not> 0 \<le> recorded_version d"
    then have "recorded_version d < 0" by simp
    from InitializeSchema_panics [OF nf this, of r] ok show False by simp
  qed
  from InitializeSchema_no_faults [OF nf nn, of r]
  obtain d1' vs1 where f: "InitializeSchema r d = (Return None, d1')" "faults d1' = []"
    "schema_info d1' = Some vs1"
    "set vs1 = (case schema_info d of None \<Rightarrow> {} | Some vs \<Rightarrow> set vs)
                 \<union> {recorded_version d + 1..int (length (getMigrations r))}"
    "recorded_version d1' = max (recorded_version d) (int (length (getMigrations r)))"
    "sql_log d1' = sql_log d @ [p r qCreate_schema_info, qSelect_version]
                 @ concat (map (\<lambda>k. [getMigrations r ! k, p r qDelete_version, p r qInsert_version])
                     [nat (recorded_version d)..<length (getMigrations r)])"
    by blast
  from f(1) have d1: "d1 = d1'"
    by (simp add: d1_def)
  have cur: "int (length (getMigrations r)) \<le> recorded_version d1'"
    using f(5) by simp
  note second = InitializeSchema_up_to_date [OF f(2) f(3) cur]
  have a: "InitializeSchema r d1
           = (Return None, d1\<lparr>sql_log := sql_log d1 @ [p r qCreate_schema_info, qSelect_version]\<rparr>)"
    unfolding d1 by (rule second)
  have b: "recorded_version (snd (InitializeSchema r d1)) = recorded_version d1"
    unfolding a by (simp add: recorded_version_def)
  have c: "fst (getSchemaVersion r d1) = recorded_version d1"
    unfolding d1 by (simp add: getSchemaVersion_no_faults [OF f(2)])
  have c0: "fst (getSchemaVersion r d) = recorded_version d"
    by (simp add: getSchemaVersion_no_faults [OF nf])
  have e: "\<exists>vs1. schema_info d1 = Some vs1
               \<and> set vs1 = (case schema_info d of None \<Rightarrow> {} | Some vs \<Rightarrow> set vs)
                     \<union> {recorded_version d + 1..int (length (getMigrations r))}"
    unfolding d1 using f(3) f(4) by blast
  have g: "recorded_version d \<le> int (length (getMigrations r)) \<longrightarrow>
               recorded_version d1 = int (length (getMigrations r))"
    unfolding d1 using f(5) by simp
  from a b c c0 f(6) [folded d1] e g show ?thesis
    by blast
qed

theorem InitializeSchema_second_run_witness:
  "faults blank_db = []
   \<and> fst (InitializeSchema postgres_repo blank_db) = Return None
   \<and> recorded_version blank_db = 0
   \<and> recorded_version (snd (InitializeSchema postgres_repo blank_db)) = 3
   \<and> fst (InitializeSchema postgres_repo (snd (InitializeSchema postgres_repo blank_db)))
       = Return None
   \<and> recorded_version (snd (InitializeSchema postgres_repo
         (snd (InitializeSchema postgres_repo blank_db)))) = 3
   \<and> sql_log (snd (InitializeSchema postgres_repo
         (snd (InitializeSchema postgres_repo blank_db))))
       = sql_log (snd (InitializeSchema postgres_repo blank_db))
           @ [p postgres_repo qCreate_schema_info, qSelect_version]"
proof -
  have nf: "faults blank_db = []"
    by (simp add: blank_db_def)
  have v0: "recorded_version blank_db = 0"
    by (simp add: recorded_version_def blank_db_def)
  from InitializeSchema_no_faults [OF nf, of postgres_repo] v0
  have ok: "fst (InitializeSchema postgres_repo blank_db) = Return None"
    by auto
  note t = InitializeSchema_second_run [OF nf ok]
  let ?d1 = "snd (InitializeSchema postgres_repo blank_db)"
  have "recorded_version blank_db \<le> int (length (getMigrations postgres_repo))"
    by (simp add: v0)
  with t have "recorded_version ?d1 = int (length (getMigrations postgres_repo))"
    by blast
  then have v1: "recorded_version ?d1 = 3"
    by (simp add: length_getMigrations)
  from t have second: "InitializeSchema postgres_repo ?d1
      = (Return None, ?d1\<lparr>sql_log := sql_log ?d1 @ [p postgres_repo qCreate_schema_info,
           qSelect_version]\<rparr>)"
    by blast
  from t [THEN conjunct2, THEN conjunct1] v1
  have v2: "recorded_version (snd (InitializeSchema postgres_repo ?d1)) = 3"
    by simp
  from nf ok v0 v1 v2 show ?thesis
    unfolding second by simp
qed

text \<open>
  The search string is handed to \<open>LIKE\<close> as it is: with the search string \<open>_\<close>
  the listing returns a chat whose name does not contain that character.
\<close>

theorem GetChats_wildcard_counterexample:
  "fst (GetChats postgres_repo wildcard_filter (stocked_db []))
     = ([example_chat ''Alice''], None)
   \<and> flt_SearchName wildcard_filter \<noteq> []
   \<and> \<not> contains_ci (flt_SearchName wildcard_filter) (chat_Name (example_chat ''Alice''))"
proof -
  have ea: "engine_answers (stocked_db [])"
    by (simp add: engine_answers_def stocked_db_def)
  have tbl: "chats (stocked_db []) = Some [example_chat ''Alice'']"
    by (simp add: stocked_db_def)
  have sel: "chat_selected postgres_repo wildcard_filter (example_chat ''Alice'')"
    by (simp add: chat_selected_def wildcard_filter_def postgres_repo_def example_chat_def)
  have lim: "flt_Limit wildcard_filter = 0"
    by (simp add: wildcard_filter_def)
  have "fst (GetChats postgres_repo wildcard_filter (stocked_db []))
     = ([example_chat ''Alice''], None)"
    unfolding GetChats_result [OF ea tbl]
    by (simp add: sel lim order_by_last_message_desc_def limit_rows_def)
  moreover have "\<not> contains_ci (flt_SearchName wildcard_filter) (chat_Name (example_chat ''Alice''))"
    by code_simp
  moreover have "flt_SearchName wildcard_filter \<noteq> []"
    by (simp add: wildcard_filter_def)
  ultimately show ?thesis by simp
qed

text \<open>
  Claim C8, as amended.  For a non-empty search string without \<open>LIKE\<close>
  metacharacters, when the engine answers, \<open>GetChats\<close> returns the selected chats
  in descending order of last-message time, cut to the first \<open>Limit\<close> when
  \<open>Limit > 0\<close>.  Every selected chat is a row of the table whose display name
  contains the search string as a case-insensitive substring and which satisfies
  the device filter; every row whose display name contains the search string
  letter for letter and which satisfies the device filter is selected.
\<close>

theorem GetChats_search_name:
  assumes ne: "flt_SearchName flt \<noteq> []"
    and mf: "meta_free (isPostgres r) (flt_SearchName flt)"
    and ea: "engine_answers d" and tbl: "chats d = Some rows"
  shows "\<exists>matches. fst (GetChats r flt d) = (limit_rows (flt_Limit flt) matches, None)
           \<and> sorted (map (\<lambda>c. - chat_LastMessageTime c) matches)
           \<and> (\<forall>c \<in> set matches. c \<in> set rows
                  \<and> contains_ci (flt_SearchName flt) (chat_Name c) \<and> device_matches flt c)
           \<and> (\<forall>c \<in> set rows. strings_Contains (chat_Name c) (flt_SearchName flt)
                  \<and> device_matches flt c \<longrightarrow> c \<in> set matches)"
proof -
  define matches where
    "matches = order_by_last_message_desc (filter (chat_selected r flt) rows)"
  have res: "fst (GetChats r flt d) = (limit_rows (flt_Limit flt) matches, None)"
    unfolding matches_def by (rule GetChats_result [OF ea tbl])
  have srt: "sorted (map (\<lambda>c. - chat_LastMessageTime c) matches)"
    unfolding matches_def order_by_last_message_desc_def by (rule sorted_sort_key)
  have st: "set matches = {c \<in> set rows. chat_selected r flt c}"
    unfolding matches_def order_by_last_message_desc_def by simp
  have snd: "\<forall>c \<in> set matches. c \<in> set rows
                  \<and> contains_ci (flt_SearchName flt) (chat_Name c) \<and> device_matches flt c"
  proof
    fix c
    assume "c \<in> set matches"
    with st have c: "c \<in> set rows" "chat_selected r flt c" by simp_all
    from c(2) ne have "like_match (isPostgres r) (''%'' @ flt_SearchName flt @ ''%'') (chat_Name c)"
      and dm: "device_matches flt c"
      by (simp_all add: chat_selected_def device_matches_def)
    from like_match_sound [OF mf this(1)] c(1) dm
    show "c \<in> set rows \<and> contains_ci (flt_SearchName flt) (chat_Name c) \<and> device_matches flt c"
      by simp
  qed
  have cmp: "\<forall>c \<in> set rows. strings_Contains (chat_Name c) (flt_SearchName flt)
                  \<and> device_matches flt c \<longrightarrow> c \<in> set matches"
  proof (intro ballI impI)
    fix c
    assume c: "c \<in> set rows"
      and h: "strings_Contains (chat_Name c) (flt_SearchName flt) \<and> device_matches flt c"
    from like_match_literal [OF mf, of "chat_Name c"] h
    have "chat_selected r flt c"
      by (simp add: chat_selected_def device_matches_def)
    with c st show "c \<in> set matches" by simp
  qed
  from res srt snd cmp show ?thesis by blast
qed

theorem GetChats_search_name_witness:
  "flt_SearchName \<lparr>flt_SearchName = ''lic'', flt_DeviceID = ''dev1'', flt_Limit = 0\<rparr> \<noteq> []
   \<and> meta_free (isPostgres postgres_repo) ''lic''
   \<and> engine_answers (stocked_db [])
   \<and> chats (stocked_db []) = Some [example_chat ''Alice'']
   \<and> fst (GetChats postgres_repo \<lparr>flt_SearchName = ''lic'', flt_DeviceID = ''dev1'', flt_Limit = 0\<rparr>
          (stocked_db [])) = ([example_chat ''Alice''], None)
   \<and> contains_ci ''lic'' (chat_Name (example_chat ''Alice''))
   \<and> (\<exists>matches. limit_rows 0 matches = [example_chat ''Alice'']
         \<and> sorted (map (\<lambda>c. - chat_LastMessageTime c) matches))"
proof -
  let ?flt = "\<lparr>flt_SearchName = ''lic'', flt_DeviceID = ''dev1'', flt_Limit = 0\<rparr>"
  have ne: "flt_SearchName ?flt \<noteq> []" by simp
  have mf: "meta_free (isPostgres postgres_repo) (flt_SearchName ?flt)"
    by (simp add: meta_free_def)
  have ea: "engine_answers (stocked_db [])"
    by (simp add: engine_answers_def stocked_db_def)
  have tbl: "chats (stocked_db []) = Some [example_chat ''Alice'']"
    by (simp add: stocked_db_def)
  from GetChats_search_name [OF ne mf ea tbl] obtain matches where
    m: "fst (GetChats postgres_repo ?flt (stocked_db [])) = (limit_rows (flt_Limit ?flt) matches, None)"
      "sorted (map (\<lambda>c. - chat_LastMessageTime c) matches)"
      "\<forall>c \<in> set matches. c \<in> set [example_chat ''Alice'']
                  \<and> contains_ci (flt_SearchName ?flt) (chat_Name c) \<and> device_matches ?flt c"
    by blast
  from m(1) have lm: "limit_rows 0 matches = [example_chat ''Alice'']"
    by (simp add: GetChats_example)
  then have "matches = [example_chat ''Alice'']"
    by (simp add: limit_rows_def)
  with m(3) have ci: "contains_ci ''lic'' (chat_Name (example_chat ''Alice''))"
    by simp
  from lm m(2) have ex: "\<exists>matches. limit_rows 0 matches = [example_chat ''Alice'']
         \<and> sorted (map (\<lambda>c. - chat_LastMessageTime c) matches)"
    by blast
  from ne mf ea tbl ci ex show ?thesis
    by (simp add: GetChats_example)
qed

end
